(* ===== verification/Prelude.thy ===== *)
theory Prelude
  imports Main "HOL-Library.AList" "HOL-Library.Word"
begin

text \<open>
  Shared vocabulary of the development: the Go types the program uses (times, durations,
  maps, result pairs), relational tables as row lists, and the generic lemmas on them that the
  component theories rest on.
\<close>

named_theorems go_simps \<open>equations of the Go run-time model\<close>
named_theorems inv_intros \<open>introduction rules for component invariants\<close>

section \<open>Times and durations\<close>

text \<open>
  A \<open>time.Time\<close> is the number of nanoseconds since Go's zero time, so that
  \<open>IsZero\<close> is equality with 0. A \<open>time.Duration\<close> is a signed 64-bit number of
  nanoseconds: \<open>Sub\<close> saturates at the ends of that range.
\<close>

type_synonym go_time = int
type_synonym duration = int

definition second :: duration where
  "second = 1000000000"

definition max_duration :: duration where
  "max_duration = 2 ^ 63 - 1"

definition min_duration :: duration where
  "min_duration = - (2 ^ 63)"

definition time_sub :: "go_time \<Rightarrow> go_time \<Rightarrow> duration" where
  "time_sub t u = max min_duration (min max_duration (t - u))"

definition time_is_zero :: "go_time \<Rightarrow> bool" where
  "time_is_zero t \<longleftrightarrow> t = 0"

definition time_after :: "go_time \<Rightarrow> go_time \<Rightarrow> bool" where
  "time_after t u \<longleftrightarrow> u < t"

definition time_before :: "go_time \<Rightarrow> go_time \<Rightarrow> bool" where
  "time_before t u \<longleftrightarrow> t < u"

lemma time_sub_less_iff:
  assumes "0 \<le> d" "d < max_duration"
  shows "d < time_sub t u \<longleftrightarrow> d < t - u"
  using assms by (auto simp: time_sub_def min_duration_def max_duration_def)

lemma time_sub_le_iff:
  assumes "0 \<le> d" "d < max_duration"
  shows "time_sub t u \<le> d \<longleftrightarrow> t - u \<le> d"
  using time_sub_less_iff [OF assms, of t u] by auto

lemma time_sub_ge_iff:
  assumes "0 \<le> d" "d \<le> max_duration"
  shows "d \<le> time_sub t u \<longleftrightarrow> d \<le> t - u"
  using assms by (auto simp: time_sub_def min_duration_def max_duration_def)

section \<open>Go maps\<close>

text \<open>
  A Go map is an association list in which every key occurs once. Reading a missing key yields
  the zero value of the element type, so each map type has its own total read.
\<close>

type_synonym ('k, 'v) go_map = "('k \<times> 'v) list"

definition go_map_ok :: "('k, 'v) go_map \<Rightarrow> bool" where
  "go_map_ok m \<longleftrightarrow> distinct (map fst m)"

definition map_get :: "'v \<Rightarrow> ('k, 'v) go_map \<Rightarrow> 'k \<Rightarrow> 'v" where
  "map_get zero m k = (case map_of m k of Some v \<Rightarrow> v | None \<Rightarrow> zero)"

definition map_has :: "('k, 'v) go_map \<Rightarrow> 'k \<Rightarrow> bool" where
  "map_has m k \<longleftrightarrow> map_of m k \<noteq> None"

text \<open>
  A loop \<open>for k, v := range m\<close> that deletes or rewrites the entries it visits: the result does
  not depend on the order of the visits.
\<close>

definition map_delete_where :: "('k \<Rightarrow> 'v \<Rightarrow> bool) \<Rightarrow> ('k, 'v) go_map \<Rightarrow> ('k, 'v) go_map" where
  "map_delete_where P m = filter (\<lambda>(k, v). \<not> P k v) m"

definition map_count_where :: "('k \<Rightarrow> 'v \<Rightarrow> bool) \<Rightarrow> ('k, 'v) go_map \<Rightarrow> nat" where
  "map_count_where P m = length (filter (\<lambda>(k, v). P k v) m)"

definition map_rewrite :: "('k \<Rightarrow> 'v \<Rightarrow> 'v) \<Rightarrow> ('k, 'v) go_map \<Rightarrow> ('k, 'v) go_map" where
  "map_rewrite f m = map (\<lambda>(k, v). (k, f k v)) m"

lemma go_map_ok_Nil [simp, inv_intros]: "go_map_ok []"
  by (simp add: go_map_ok_def)

lemma go_map_ok_update [simp, inv_intros]: "go_map_ok m \<Longrightarrow> go_map_ok (AList.update k v m)"
  by (simp add: go_map_ok_def distinct_update)

lemma go_map_ok_delete [simp, inv_intros]: "go_map_ok m \<Longrightarrow> go_map_ok (AList.delete k m)"
  by (simp add: go_map_ok_def distinct_delete)

lemma go_map_ok_delete_where [simp, inv_intros]:
  "go_map_ok m \<Longrightarrow> go_map_ok (map_delete_where P m)"
  by (simp add: go_map_ok_def map_delete_where_def distinct_map_filter)

lemma map_fst_map_rewrite [simp]: "map fst (map_rewrite f m) = map fst m"
  by (simp add: map_rewrite_def case_prod_beta comp_def)

lemma go_map_ok_rewrite [simp, inv_intros]: "go_map_ok (map_rewrite f m) \<longleftrightarrow> go_map_ok m"
  by (simp add: go_map_ok_def)

lemma map_of_rewrite [simp]:
  "map_of (map_rewrite f m) k = map_option (f k) (map_of m k)"
  by (induction m) (auto simp: map_rewrite_def)

lemma map_of_delete_where:
  assumes "go_map_ok m"
  shows "map_of (map_delete_where P m) k
    = (case map_of m k of Some v \<Rightarrow> if P k v then None else Some v | None \<Rightarrow> None)"
  using assms
  by (induction m) (auto simp: map_delete_where_def go_map_ok_def map_of_eq_None_iff
      split: option.splits dest: map_of_SomeD)

lemma map_of_alist_update [simp]:
  "map_of (AList.update k v m) k' = (if k' = k then Some v else map_of m k')"
  by (simp add: update_conv')

lemma map_of_alist_delete [simp]:
  "map_of (AList.delete k m) k' = (if k' = k then None else map_of m k')"
  by (simp add: delete_conv')

lemma map_get_update [simp]:
  "map_get z (AList.update k v m) k' = (if k' = k then v else map_get z m k')"
  by (simp add: map_get_def)

lemma map_get_delete [simp]:
  "map_get z (AList.delete k m) k' = (if k' = k then z else map_get z m k')"
  by (simp add: map_get_def)

lemma map_get_Nil [simp]: "map_get z [] k = z"
  by (simp add: map_get_def)

lemma map_has_update [simp]: "map_has (AList.update k v m) k' \<longleftrightarrow> k' = k \<or> map_has m k'"
  by (simp add: map_has_def)

lemma map_has_delete [simp]: "map_has (AList.delete k m) k' \<longleftrightarrow> k' \<noteq> k \<and> map_has m k'"
  by (simp add: map_has_def)

lemma length_map_rewrite [simp]: "length (map_rewrite f m) = length m"
  by (simp add: map_rewrite_def)

lemma length_map_delete_where:
  "length (map_delete_where P m) + map_count_where P m = length m"
  unfolding map_delete_where_def map_count_where_def
  by (induction m) auto

lemma set_map_delete_where:
  "set (map_delete_where P m) = {(k, v) \<in> set m. \<not> P k v}"
  by (auto simp: map_delete_where_def)

lemma length_alist_update_le: "length (AList.update k v m) \<le> Suc (length m)"
  by (induction m) auto

lemma length_alist_update_present:
  "map_of m k \<noteq> None \<Longrightarrow> length (AList.update k v m) = length m"
  by (induction m) (auto split: if_splits)

lemma length_alist_delete_le [simp]: "length (AList.delete k m) \<le> length m"
  by (induction m) auto

section \<open>Relational tables\<close>

text \<open>
  A table is the list of its rows in insertion order. \<open>update_where\<close> is
  \<open>UPDATE ... SET ... WHERE\<close> and \<open>delete_where\<close> is \<open>DELETE ... WHERE\<close>.
\<close>

definition update_where :: "('r \<Rightarrow> bool) \<Rightarrow> ('r \<Rightarrow> 'r) \<Rightarrow> 'r list \<Rightarrow> 'r list" where
  "update_where P f rows = map (\<lambda>r. if P r then f r else r) rows"

definition delete_where :: "('r \<Rightarrow> bool) \<Rightarrow> 'r list \<Rightarrow> 'r list" where
  "delete_where P rows = filter (\<lambda>r. \<not> P r) rows"

definition count_where :: "('r \<Rightarrow> bool) \<Rightarrow> 'r list \<Rightarrow> nat" where
  "count_where P rows = length (filter P rows)"

lemma set_update_where: "set (update_where P f rows) = (\<lambda>r. if P r then f r else r) ` set rows"
  by (simp add: update_where_def)

lemma in_update_where:
  "r \<in> set (update_where P f rows) \<longleftrightarrow>
     (r \<in> set rows \<and> \<not> P r) \<or> (\<exists>q \<in> set rows. P q \<and> r = f q)"
  by (auto simp: update_where_def)

lemma set_delete_where [simp]: "set (delete_where P rows) = {r \<in> set rows. \<not> P r}"
  by (auto simp: delete_where_def)

lemma length_update_where [simp]: "length (update_where P f rows) = length rows"
  by (simp add: update_where_def)

lemma map_update_where_same:
  "(\<And>r. P r \<Longrightarrow> g (f r) = g r) \<Longrightarrow> map g (update_where P f rows) = map g rows"
  by (induction rows) (auto simp: update_where_def)

lemma distinct_map_delete_where [simp]:
  "distinct (map g rows) \<Longrightarrow> distinct (map g (delete_where P rows))"
  by (simp add: delete_where_def distinct_map_filter)

lemma count_where_pos: "0 < count_where P rows \<longleftrightarrow> (\<exists>r \<in> set rows. P r)"
  by (auto simp: count_where_def filter_empty_conv)

lemma count_where_zero: "count_where P rows = 0 \<longleftrightarrow> (\<forall>r \<in> set rows. \<not> P r)"
  by (auto simp: count_where_def filter_empty_conv)

lemma update_where_idle: "(\<And>r. r \<in> set rows \<Longrightarrow> \<not> P r) \<Longrightarrow> update_where P f rows = rows"
  by (simp add: update_where_def map_idI)

lemma delete_where_idle: "(\<And>r. r \<in> set rows \<Longrightarrow> \<not> P r) \<Longrightarrow> delete_where P rows = rows"
  by (simp add: delete_where_def filter_id_conv)

lemma find_Some_iff':
  "find P xs = Some x \<Longrightarrow> x \<in> set xs \<and> P x"
  by (auto simp: find_Some_iff)

lemma find_distinct_key:
  assumes "distinct (map g xs)" "x \<in> set xs" "g x = k"
  shows "find (\<lambda>y. g y = k) xs = Some x"
  using assms by (induction xs) auto

section \<open>Transition systems\<close>

text \<open>
  The state machines of the program are an initial predicate and a step relation. A component's
  invariant is proved once for its steps and then holds in every reachable state.
\<close>

inductive reach :: "('s \<Rightarrow> bool) \<Rightarrow> ('s \<Rightarrow> 's \<Rightarrow> bool) \<Rightarrow> 's \<Rightarrow> bool" for init step where
  reach_init: "init s \<Longrightarrow> reach init step s"
| reach_step: "reach init step s \<Longrightarrow> step s t \<Longrightarrow> reach init step t"

inductive steps :: "('s \<Rightarrow> 's \<Rightarrow> bool) \<Rightarrow> 's \<Rightarrow> 's \<Rightarrow> bool" for step where
  steps_refl: "steps step s s"
| steps_step: "steps step s t \<Longrightarrow> step t u \<Longrightarrow> steps step s u"

locale inductive_invariant =
  fixes init :: "'s \<Rightarrow> bool" and step :: "'s \<Rightarrow> 's \<Rightarrow> bool" and inv :: "'s \<Rightarrow> bool"
  assumes inv_init: "init s \<Longrightarrow> inv s"
    and inv_step: "inv s \<Longrightarrow> step s t \<Longrightarrow> inv t"
begin

lemma reach_inv: "reach init step s \<Longrightarrow> inv s"
  by (induction rule: reach.induct) (auto intro: inv_init inv_step)

lemma steps_inv: "steps step s t \<Longrightarrow> inv s \<Longrightarrow> inv t"
  by (induction rule: steps.induct) (auto intro: inv_step)

lemma steps_preserve:
  assumes "steps step s t" and "inv s" and "P s"
    and "\<And>u v. inv u \<Longrightarrow> step u v \<Longrightarrow> P u \<Longrightarrow> P v"
  shows "P t"
  using assms by (induction rule: steps.induct) (auto dest: steps_inv)

end

end
