(* ===== verification/Db_Types.thy ===== *)
theory Db_Types
  imports Prelude
begin

text \<open>
  The row and value types of \<open>internal/db\<close> that every other component exchanges. An \<open>int64\<close>
  identifier is an \<open>int\<close>; a \<open>*time.Time\<close> is a \<open>go_time option\<close>; a nullable text column read
  with \<open>COALESCE(c,'')\<close> is a string.
\<close>

record User =
  user_ID :: int
  user_Username :: string
  user_DisplayName :: string
  user_PasswordHash :: string
  user_Role :: string
  user_Status :: string
  user_BanReason :: string
  user_CreatedAt :: go_time
  user_UpdatedAt :: go_time

record AccessToken =
  token_ID :: int
  token_UserID :: int
  token_Name :: string
  token_TokenHash :: string
  token_TokenPrefix :: string
  token_PlainToken :: string
  token_Status :: string
  token_BanReason :: string
  token_MaxProxyCount :: int
  token_ExpiresAt :: "go_time option"
  token_CreatedAt :: go_time
  token_UpdatedAt :: go_time

record AdminAPIToken =
  admin_UserID :: int
  admin_TokenHash :: string
  admin_TokenPrefix :: string
  admin_Status :: string
  admin_CreatedAt :: go_time
  admin_UpdatedAt :: go_time

record PortGrant =
  grant_ID :: int
  grant_TokenID :: int
  grant_Protocol :: string
  grant_RemotePortStart :: int
  grant_RemotePortEnd :: int
  grant_MaxCount :: int
  grant_Domain :: string
  grant_Subdomain :: string
  grant_Enabled :: bool

record UserResourcePolicy =
  policy_UserID :: int
  policy_PortStart :: int
  policy_PortEnd :: int
  policy_MaxPorts :: int
  policy_AllowedProtocols :: "string list"
  policy_Enabled :: bool

record Client =
  client_ID :: int
  client_UserID :: int
  client_TokenID :: int
  client_ClientID :: string
  client_Status :: string
  client_BanReason :: string
  client_FrpcAddr :: string
  client_FRPCRunning :: bool
  client_LastSeenAt :: "go_time option"

record RuntimeLease =
  lease_ID :: int
  lease_LeaseID :: string
  lease_UserID :: int
  lease_TokenID :: int
  lease_ClientID :: string
  lease_RuntimeTokenHash :: string
  lease_Status :: string
  lease_ExpiresAt :: go_time

record ProxyAllocationInput =
  pin_ProxyName :: string
  pin_ProxyType :: string
  pin_LocalIP :: string
  pin_LocalPort :: int
  pin_RemotePort :: int
  pin_Domain :: string
  pin_Subdomain :: string

record ProxyAllocation =
  alloc_ID :: int
  alloc_LeaseID :: string
  alloc_ProxyName :: string
  alloc_ProxyType :: string
  alloc_LocalIP :: string
  alloc_LocalPort :: int
  alloc_RemotePort :: int
  alloc_Domain :: string
  alloc_Subdomain :: string

text \<open>The zero value of a \<open>RuntimeLease\<close>, which Go yields for a missing map entry.\<close>

definition zero_RuntimeLease :: RuntimeLease where
  "zero_RuntimeLease =
     \<lparr>lease_ID = 0, lease_LeaseID = [], lease_UserID = 0, lease_TokenID = 0, lease_ClientID = [],
      lease_RuntimeTokenHash = [], lease_Status = [], lease_ExpiresAt = 0\<rparr>"

end
