(* ===== verification/Dpi_Types.thy ===== *)
theory Dpi_Types
  imports Prelude
begin

text \<open>
  The data of \<open>internal/dpiengine/engine.go\<close> and \<open>internal/dpi/service.go\<close>: flows, traffic
  samples, findings, policies and decisions. A payload is a list of bytes. \<open>Action\<close>, \<open>Mode\<close>
  and \<open>Direction\<close> are strings in the source and stay strings here.
\<close>

type_synonym byte = "8 word"

record FlowContext =
  flow_UserID :: int
  flow_TokenID :: int
  flow_ClientID :: string
  flow_LeaseID :: string
  flow_ProxyName :: string
  flow_ProxyType :: string
  flow_RemotePort :: int
  flow_LocalAddr :: string
  flow_RemoteAddr :: string
  flow_User :: string
  flow_Metas :: "(string, string) go_map"

record TrafficSample =
  sample_Flow :: FlowContext
  sample_Direction :: string
  sample_Payload :: "byte list"
  sample_PayloadLength :: int
  sample_CapturedLength :: int
  sample_ObservedAt :: go_time

abbreviation DirectionInbound :: string where
  "DirectionInbound \<equiv> ''inbound''"

abbreviation DirectionOutbound :: string where
  "DirectionOutbound \<equiv> ''outbound''"

text \<open>
  A finding carries the confidence in hundredths: the source only ever stores the constant 0.72.
\<close>

record Finding =
  finding_Detector :: string
  finding_Protocol :: string
  finding_Host :: "byte list"
  finding_SNI :: "byte list"
  finding_TargetIP :: string
  finding_ConfidencePercent :: int
  finding_Summary :: string

record Policy =
  dpi_UserID :: int
  dpi_Enabled :: bool
  dpi_Mode :: string
  dpi_EnabledDetectors :: "string list"
  dpi_BlockOnAnyFinding :: bool
  dpi_AllowHTTP :: bool
  dpi_AllowTLS :: bool
  dpi_AllowQUIC :: bool
  dpi_AllowEncryptedTunnel :: bool
  dpi_MaxInspectBytes :: int
  dpi_TemporaryBlockTTL :: int
  dpi_EncryptedTunnelMode :: string

record Decision =
  decision_Action :: string
  decision_Reason :: string
  decision_Finding :: "Finding option"
  decision_Findings :: "Finding list"

record Event =
  event_Flow :: FlowContext
  event_Direction :: string
  event_Action :: string
  event_Reason :: string
  event_Finding :: Finding
  event_ObservedAt :: go_time

abbreviation ActionAllow :: string where "ActionAllow \<equiv> ''allow''"
abbreviation ActionMonitor :: string where "ActionMonitor \<equiv> ''monitor''"
abbreviation ActionBlock :: string where "ActionBlock \<equiv> ''block''"
abbreviation ModeMonitor :: string where "ModeMonitor \<equiv> ''monitor''"
abbreviation ModeBlock :: string where "ModeBlock \<equiv> ''block''"

definition Allow :: Decision where
  "Allow = \<lparr>decision_Action = ActionAllow, decision_Reason = [], decision_Finding = None,
            decision_Findings = []\<rparr>"

definition DefaultPolicy :: Policy where
  "DefaultPolicy =
     \<lparr>dpi_UserID = 0, dpi_Enabled = False, dpi_Mode = ModeMonitor,
      dpi_EnabledDetectors = [''http'', ''tls'', ''quic'', ''encrypted_tunnel''],
      dpi_BlockOnAnyFinding = False, dpi_AllowHTTP = True, dpi_AllowTLS = True,
      dpi_AllowQUIC = True, dpi_AllowEncryptedTunnel = True, dpi_MaxInspectBytes = 8192,
      dpi_TemporaryBlockTTL = 120, dpi_EncryptedTunnelMode = ModeMonitor\<rparr>"

end
