(* ===== verification/Frp_Core.thy ===== *)
theory Frp_Core
  imports Go_Strings Db_Types Dpi_Types
begin

text \<open>
  \<open>internal/frpcore\<close>: the process-wide \<open>Manager\<close> that tracks runtime leases, registered
  proxies, live connections and inbound bans of one node (\<open>manager.go\<close>, \<open>admission.go\<close>).
  Every method holds \<open>mu\<close> for its whole state change, so each is one function on the state; the
  reader/writer lock \<open>admissionMu\<close> that spans several calls is the subject of theory
  \<open>Admission\<close>. A network connection is a handle; closing one appends the handle to
  \<open>closedConns\<close>.
\<close>

section \<open>Data\<close>

record ProxyBinding =
  pb_UserID :: int
  pb_TokenID :: int
  pb_ClientID :: string
  pb_ClientAddr :: string
  pb_LeaseID :: string
  pb_ProxyName :: string
  pb_ProxyType :: string
  pb_RemotePort :: int

record ActiveConnection =
  ac_ID :: string
  ac_Protocol :: string
  ac_UserID :: int
  ac_TokenID :: int
  ac_ClientID :: string
  ac_ClientAddr :: string
  ac_LeaseID :: string
  ac_ProxyName :: string
  ac_ProxyType :: string
  ac_RemotePort :: int
  ac_InboundAddr :: string
  ac_InboundIP :: string
  ac_InboundPort :: int
  ac_ServerAddr :: string
  ac_OpenedAt :: go_time
  ac_LastSeenAt :: go_time
  ac_CanTerminate :: bool

record BlockedInboundIP =
  bip_IP :: string
  bip_Reason :: string
  bip_CreatedAt :: go_time

record TrafficSnapshot =
  ts_BytesInbound :: "64 word"
  ts_BytesOutbound :: "64 word"
  ts_SamplesInbound :: "64 word"
  ts_SamplesOutbound :: "64 word"
  ts_StartedAt :: go_time
  ts_CapturedAt :: go_time

type_synonym conn_handle = nat

record activeTCPConnection =
  tcp_conn :: ActiveConnection
  tcp_userConn :: conn_handle
  tcp_workConn :: "conn_handle option"

record ConnectionInfo =
  ci_LeaseID :: string
  ci_ProxyName :: string
  ci_ProxyType :: string
  ci_LocalAddr :: string
  ci_RemoteAddr :: string

record UserInfo =
  ui_User :: string
  ui_Metas :: "(string, string) go_map"
  ui_RunID :: string

record Manager =
  admissionClosed :: bool
  drainingClients :: "(string, bool) go_map"
  runtimeLeases :: "(string, RuntimeLease) go_map"
  registeredProxies :: "(string, string) go_map"
  proxyCounts :: "(string, int) go_map"
  leaseProxyCounts :: "(string, int) go_map"
  bindings :: "(string, ProxyBinding) go_map"
  leaseClientAddresses :: "(string, string) go_map"
  tcpConnections :: "(string, activeTCPConnection) go_map"
  udpFlows :: "(string, ActiveConnection) go_map"
  blockedInboundIPs :: "(string, BlockedInboundIP) go_map"
  traffic :: TrafficSnapshot
  nextConnectionID :: "64 word"
  udpFlowTimeout :: duration
  maxUDPFlows :: int
  closedConns :: "conn_handle list"

definition defaultUDPFlowTimeout :: duration where
  "defaultUDPFlowTimeout = 10 * second"

definition maxTrackedUDPFlows :: int where
  "maxTrackedUDPFlows = 32768"

definition NewManager :: "go_time \<Rightarrow> Manager" where
  "NewManager now =
     \<lparr>admissionClosed = False, drainingClients = [], runtimeLeases = [], registeredProxies = [],
      proxyCounts = [], leaseProxyCounts = [], bindings = [], leaseClientAddresses = [],
      tcpConnections = [], udpFlows = [], blockedInboundIPs = [],
      traffic = \<lparr>ts_BytesInbound = 0, ts_BytesOutbound = 0, ts_SamplesInbound = 0,
                 ts_SamplesOutbound = 0, ts_StartedAt = now, ts_CapturedAt = 0\<rparr>,
      nextConnectionID = 0, udpFlowTimeout = defaultUDPFlowTimeout,
      maxUDPFlows = maxTrackedUDPFlows, closedConns = []\<rparr>"

section \<open>Keys and addresses\<close>

definition clientKey :: "int \<Rightarrow> string \<Rightarrow> string" where
  "clientKey tokenID clientID = itoa tokenID @ CHR '':'' # clientID"

definition bindingKey :: "string \<Rightarrow> string \<Rightarrow> string" where
  "bindingKey leaseID proxyName = leaseID @ CHR 0x00 # proxyName"

definition lease_of :: "Manager \<Rightarrow> string \<Rightarrow> RuntimeLease" where
  "lease_of m leaseID = map_get zero_RuntimeLease (runtimeLeases m) leaseID"

definition lease_key :: "RuntimeLease \<Rightarrow> string" where
  "lease_key l = clientKey (lease_TokenID l) (lease_ClientID l)"

definition splitAddr :: "string \<Rightarrow> string \<times> int" where
  "splitAddr addr =
     (case SplitHostPort (TrimSpace addr) of
        None \<Rightarrow> (TrimSpace addr, 0)
      | Some (host, portText) \<Rightarrow> (host, fst (Atoi portText)))"

definition valueOr :: "string \<Rightarrow> string \<Rightarrow> string" where
  "valueOr value fallback = (if value \<noteq> [] then value else fallback)"

section \<open>Admission (admission.go)\<close>

text \<open>\<open>SetAdmissionClosed\<close>: closing marks the client of every remembered lease as draining.\<close>

definition mark_draining :: "(string, RuntimeLease) go_map \<Rightarrow> (string, bool) go_map \<Rightarrow> (string, bool) go_map" where
  "mark_draining leases drains = fold (\<lambda>(_, l) d. AList.update (lease_key l) True d) leases drains"

definition SetAdmissionClosed :: "bool \<Rightarrow> Manager \<Rightarrow> Manager" where
  "SetAdmissionClosed closed m =
     (let m1 = m\<lparr>admissionClosed := closed\<rparr>
      in if closed then m1\<lparr>drainingClients := mark_draining (runtimeLeases m1) (drainingClients m1)\<rparr>
         else m1)"

definition PauseAdmission :: "Manager \<Rightarrow> Manager" where
  "PauseAdmission m = m\<lparr>admissionClosed := True\<rparr>"

definition RememberRuntimeLease :: "RuntimeLease \<Rightarrow> Manager \<Rightarrow> Manager" where
  "RememberRuntimeLease l m = m\<lparr>runtimeLeases := AList.update (lease_LeaseID l) l (runtimeLeases m)\<rparr>"

definition ClientDraining :: "Manager \<Rightarrow> int \<Rightarrow> string \<Rightarrow> bool" where
  "ClientDraining m tokenID clientID = map_get False (drainingClients m) (clientKey tokenID clientID)"

definition ClientProxyCount :: "Manager \<Rightarrow> int \<Rightarrow> string \<Rightarrow> int" where
  "ClientProxyCount m tokenID clientID = map_get 0 (proxyCounts m) (clientKey tokenID clientID)"

definition FinishClientDrain :: "int \<Rightarrow> string \<Rightarrow> Manager \<Rightarrow> Manager" where
  "FinishClientDrain tokenID clientID m =
     (let key = clientKey tokenID clientID
      in if map_get 0 (proxyCounts m) key > 0 then m
         else m\<lparr>drainingClients := AList.delete key (drainingClients m),
                runtimeLeases := map_delete_where (\<lambda>_ l. lease_key l = key) (runtimeLeases m)\<rparr>)"

definition ExistingRuntime :: "Manager \<Rightarrow> string \<Rightarrow> string \<Rightarrow> RuntimeLease \<times> bool" where
  "ExistingRuntime m leaseID hash =
     (let l = lease_of m leaseID
      in (l, map_has (runtimeLeases m) leaseID \<and> lease_Status l = ''active''
             \<and> lease_RuntimeTokenHash l = hash))"

definition lease_id_of :: "UserInfo \<Rightarrow> string" where
  "lease_id_of user = map_get [] (ui_Metas user) ''lease_id''"

definition proxy_key :: "UserInfo \<Rightarrow> string \<Rightarrow> string" where
  "proxy_key user name = ui_RunID user @ CHR 0x00 # name"

text \<open>
  \<open>proxyLifecycle().Begin\<close>: whether the registration may go on. On success the caller keeps the
  read lock until it calls the returned function.
\<close>

definition Begin :: "Manager \<Rightarrow> UserInfo \<Rightarrow> bool" where
  "Begin m user =
     (let lid = lease_id_of user; lease = lease_of m lid; known = map_has (runtimeLeases m) lid;
          draining = map_get False (drainingClients m) (lease_key lease)
      in \<not> (admissionClosed m \<or> \<not> known \<or> lease_Status lease \<noteq> ''active'' \<or> draining))"

definition decrement :: "(string, int) go_map \<Rightarrow> string \<Rightarrow> (string, int) go_map" where
  "decrement counts key =
     (if map_get 0 counts key \<le> 1 then AList.delete key counts
      else AList.update key (map_get 0 counts key - 1) counts)"

definition removeProxyCountLocked :: "string \<Rightarrow> Manager \<Rightarrow> Manager" where
  "removeProxyCountLocked lid m =
     m\<lparr>proxyCounts := decrement (proxyCounts m) (lease_key (lease_of m lid)),
       leaseProxyCounts := decrement (leaseProxyCounts m) lid\<rparr>"

definition Opened :: "UserInfo \<Rightarrow> string \<Rightarrow> Manager \<Rightarrow> Manager" where
  "Opened user name m =
     (let key = proxy_key user name;
          m1 = (case map_of (registeredProxies m) key of
                  Some old \<Rightarrow> removeProxyCountLocked old m
                | None \<Rightarrow> m);
          lid = lease_id_of user;
          ck = lease_key (lease_of m1 lid)
      in m1\<lparr>registeredProxies := AList.update key lid (registeredProxies m1),
            proxyCounts := AList.update ck (map_get 0 (proxyCounts m1) ck + 1) (proxyCounts m1),
            leaseProxyCounts :=
              AList.update lid (map_get 0 (leaseProxyCounts m1) lid + 1) (leaseProxyCounts m1)\<rparr>)"

definition Closed :: "UserInfo \<Rightarrow> string \<Rightarrow> Manager \<Rightarrow> Manager" where
  "Closed user name m =
     (let key = proxy_key user name
      in case map_of (registeredProxies m) key of
           Some lid \<Rightarrow>
             (let m1 = removeProxyCountLocked lid m
              in m1\<lparr>registeredProxies := AList.delete key (registeredProxies m1)\<rparr>)
         | None \<Rightarrow> m)"

definition invalidateRuntime :: "(RuntimeLease \<Rightarrow> bool) \<Rightarrow> Manager \<Rightarrow> Manager" where
  "invalidateRuntime match m =
     m\<lparr>runtimeLeases :=
         map_rewrite (\<lambda>_ l. if match l then l\<lparr>lease_Status := ''revoked''\<rparr> else l) (runtimeLeases m)\<rparr>"

section \<open>Bindings and connections (manager.go)\<close>

definition SetUDPFlowTimeout :: "duration \<Rightarrow> Manager \<Rightarrow> Manager" where
  "SetUDPFlowTimeout timeout m =
     m\<lparr>udpFlowTimeout := (if timeout \<le> 0 then defaultUDPFlowTimeout else timeout)\<rparr>"

definition BindProxy :: "ProxyBinding \<Rightarrow> Manager \<Rightarrow> Manager" where
  "BindProxy b m =
     (let b1 = (if pb_ClientAddr b = []
                then b\<lparr>pb_ClientAddr := map_get [] (leaseClientAddresses m) (pb_LeaseID b)\<rparr> else b)
      in m\<lparr>bindings := AList.update (bindingKey (pb_LeaseID b1) (pb_ProxyName b1)) b1 (bindings m)\<rparr>)"

definition UnbindProxy :: "string \<Rightarrow> string \<Rightarrow> Manager \<Rightarrow> Manager" where
  "UnbindProxy leaseID proxyName m =
     m\<lparr>bindings := AList.delete (bindingKey leaseID proxyName) (bindings m)\<rparr>"

definition LookupProxy :: "Manager \<Rightarrow> string \<Rightarrow> string \<Rightarrow> ProxyBinding option" where
  "LookupProxy m leaseID proxyName = map_of (bindings m) (bindingKey leaseID proxyName)"

definition SetLeaseClientAddress :: "string \<Rightarrow> string \<Rightarrow> Manager \<Rightarrow> Manager" where
  "SetLeaseClientAddress leaseID clientAddress m =
     (let addr = TrimSpace clientAddress
      in m\<lparr>leaseClientAddresses := AList.update leaseID addr (leaseClientAddresses m),
           bindings := map_rewrite (\<lambda>_ b. if pb_LeaseID b = leaseID then b\<lparr>pb_ClientAddr := addr\<rparr> else b)
             (bindings m),
           tcpConnections := map_rewrite (\<lambda>_ c. if ac_LeaseID (tcp_conn c) = leaseID
               then c\<lparr>tcp_conn := (tcp_conn c)\<lparr>ac_ClientAddr := addr\<rparr>\<rparr> else c) (tcpConnections m),
           udpFlows := map_rewrite (\<lambda>_ f. if ac_LeaseID f = leaseID then f\<lparr>ac_ClientAddr := addr\<rparr> else f)
             (udpFlows m)\<rparr>)"

definition IsInboundBlocked :: "Manager \<Rightarrow> ConnectionInfo \<Rightarrow> bool" where
  "IsInboundBlocked m info =
     (let ip = fst (splitAddr (ci_RemoteAddr info))
      in if ip = [] then False else map_has (blockedInboundIPs m) ip)"

definition bindingForLocked :: "Manager \<Rightarrow> string \<Rightarrow> string \<Rightarrow> ProxyBinding" where
  "bindingForLocked m leaseID proxyName =
     (case map_of (bindings m) (bindingKey leaseID proxyName) of
        Some b \<Rightarrow> b
      | None \<Rightarrow> \<lparr>pb_UserID = 0, pb_TokenID = 0, pb_ClientID = [],
                 pb_ClientAddr = map_get [] (leaseClientAddresses m) leaseID,
                 pb_LeaseID = leaseID, pb_ProxyName = proxyName, pb_ProxyType = [],
                 pb_RemotePort = 0\<rparr>)"

definition FormatUint :: "64 word \<Rightarrow> string" where
  "FormatUint n = nat_digits (unat n)"

definition RegisterTCPConnection ::
  "go_time \<Rightarrow> ConnectionInfo \<Rightarrow> conn_handle \<Rightarrow> conn_handle option \<Rightarrow> Manager \<Rightarrow> string \<times> Manager" where
  "RegisterTCPConnection now info userConn workConn m =
     (let n = nextConnectionID m + 1;
          cid = ''tcp_'' @ FormatUint n;
          b = bindingForLocked m (ci_LeaseID info) (ci_ProxyName info);
          inbound = splitAddr (ci_RemoteAddr info);
          conn = \<lparr>tcp_conn =
                    \<lparr>ac_ID = cid, ac_Protocol = ''tcp'', ac_UserID = pb_UserID b,
                     ac_TokenID = pb_TokenID b, ac_ClientID = pb_ClientID b,
                     ac_ClientAddr = pb_ClientAddr b, ac_LeaseID = ci_LeaseID info,
                     ac_ProxyName = ci_ProxyName info,
                     ac_ProxyType = valueOr (ci_ProxyType info) (pb_ProxyType b),
                     ac_RemotePort = pb_RemotePort b, ac_InboundAddr = ci_RemoteAddr info,
                     ac_InboundIP = fst inbound, ac_InboundPort = snd inbound,
                     ac_ServerAddr = ci_LocalAddr info, ac_OpenedAt = now, ac_LastSeenAt = now,
                     ac_CanTerminate = True\<rparr>,
                  tcp_userConn = userConn, tcp_workConn = workConn\<rparr>
      in (cid, m\<lparr>nextConnectionID := n, tcpConnections := AList.update cid conn (tcpConnections m)\<rparr>))"

definition UnregisterTCPConnection :: "string \<Rightarrow> Manager \<Rightarrow> Manager" where
  "UnregisterTCPConnection cid m =
     (if cid = [] then m else m\<lparr>tcpConnections := AList.delete cid (tcpConnections m)\<rparr>)"

definition zero_ActiveConnection :: ActiveConnection where
  "zero_ActiveConnection =
     \<lparr>ac_ID = [], ac_Protocol = [], ac_UserID = 0, ac_TokenID = 0, ac_ClientID = [],
      ac_ClientAddr = [], ac_LeaseID = [], ac_ProxyName = [], ac_ProxyType = [],
      ac_RemotePort = 0, ac_InboundAddr = [], ac_InboundIP = [], ac_InboundPort = 0,
      ac_ServerAddr = [], ac_OpenedAt = 0, ac_LastSeenAt = 0, ac_CanTerminate = False\<rparr>"

definition udp_key :: "ConnectionInfo \<Rightarrow> string" where
  "udp_key info = Join [ci_LeaseID info, ci_ProxyName info, ci_RemoteAddr info] [CHR 0x00]"

definition ObserveUDPFlow :: "go_time \<Rightarrow> ConnectionInfo \<Rightarrow> Manager \<Rightarrow> Manager" where
  "ObserveUDPFlow now info m =
     (let b = bindingForLocked m (ci_LeaseID info) (ci_ProxyName info);
          inbound = splitAddr (ci_RemoteAddr info);
          key = udp_key info;
          flow = map_get zero_ActiveConnection (udpFlows m) key;
          fresh = (ac_ID flow = [])
      in if fresh \<and> maxUDPFlows m > 0 \<and> int (length (udpFlows m)) \<ge> maxUDPFlows m then m
         else
           let n = (if fresh then nextConnectionID m + 1 else nextConnectionID m);
               flow1 = (if fresh then flow\<lparr>ac_ID := ''udp_'' @ FormatUint n, ac_OpenedAt := now\<rparr>
                        else flow);
               flow2 = flow1\<lparr>ac_Protocol := ''udp'', ac_UserID := pb_UserID b,
                 ac_TokenID := pb_TokenID b, ac_ClientID := pb_ClientID b,
                 ac_ClientAddr := pb_ClientAddr b, ac_LeaseID := ci_LeaseID info,
                 ac_ProxyName := ci_ProxyName info,
                 ac_ProxyType := valueOr (ci_ProxyType info) (pb_ProxyType b),
                 ac_RemotePort := pb_RemotePort b, ac_InboundAddr := ci_RemoteAddr info,
                 ac_InboundIP := fst inbound, ac_InboundPort := snd inbound,
                 ac_ServerAddr := ci_LocalAddr info, ac_LastSeenAt := now,
                 ac_CanTerminate := False\<rparr>
           in m\<lparr>nextConnectionID := n, udpFlows := AList.update key flow2 (udpFlows m)\<rparr>)"

definition ListConnections :: "go_time \<Rightarrow> duration \<Rightarrow> Manager \<Rightarrow> ActiveConnection list" where
  "ListConnections now udpTimeout m =
     (let timeout = (if udpTimeout \<le> 0 then defaultUDPFlowTimeout else udpTimeout)
      in map (\<lambda>(_, c). tcp_conn c) (tcpConnections m)
         @ filter (\<lambda>f. \<not> time_sub now (ac_LastSeenAt f) > timeout) (map snd (udpFlows m)))"

text \<open>\<open>abortiveClose\<close> of the user connection and, when there is one, of the work connection.\<close>

definition close_handles :: "activeTCPConnection \<Rightarrow> conn_handle list" where
  "close_handles c = tcp_userConn c # (case tcp_workConn c of Some w \<Rightarrow> [w] | None \<Rightarrow> [])"

definition TerminateTCPConnection :: "string \<Rightarrow> Manager \<Rightarrow> bool \<times> Manager" where
  "TerminateTCPConnection cid m =
     (case map_of (tcpConnections m) cid of
        None \<Rightarrow> (False, m\<lparr>tcpConnections := AList.delete cid (tcpConnections m)\<rparr>)
      | Some c \<Rightarrow> (True, m\<lparr>tcpConnections := AList.delete cid (tcpConnections m),
                         closedConns := closedConns m @ close_handles c\<rparr>))"

definition terminateConnections :: "(ActiveConnection \<Rightarrow> bool) \<Rightarrow> Manager \<Rightarrow> nat \<times> Manager" where
  "terminateConnections match m =
     (let victims = filter (\<lambda>(_, c). match (tcp_conn c)) (tcpConnections m);
          closed = length victims + map_count_where (\<lambda>_ f. match f) (udpFlows m)
      in (closed, m\<lparr>tcpConnections := map_delete_where (\<lambda>_ c. match (tcp_conn c)) (tcpConnections m),
                    udpFlows := map_delete_where (\<lambda>_ f. match f) (udpFlows m),
                    closedConns := closedConns m @ concat (map (\<lambda>(_, c). close_handles c) victims)\<rparr>))"

definition TerminateConnectionsForUser :: "int \<Rightarrow> Manager \<Rightarrow> nat \<times> Manager" where
  "TerminateConnectionsForUser userID m =
     (if userID \<le> 0 then (0, m)
      else terminateConnections (\<lambda>c. ac_UserID c = userID)
             (invalidateRuntime (\<lambda>l. lease_UserID l = userID) m))"

definition TerminateConnectionsForToken :: "int \<Rightarrow> Manager \<Rightarrow> nat \<times> Manager" where
  "TerminateConnectionsForToken tokenID m =
     (if tokenID \<le> 0 then (0, m)
      else terminateConnections (\<lambda>c. ac_TokenID c = tokenID)
             (invalidateRuntime (\<lambda>l. lease_TokenID l = tokenID) m))"

definition TerminateConnectionsForClient :: "int \<Rightarrow> string \<Rightarrow> Manager \<Rightarrow> nat \<times> Manager" where
  "TerminateConnectionsForClient tokenID clientID m =
     (let cid = TrimSpace clientID
      in if tokenID \<le> 0 \<or> cid = [] then (0, m)
         else terminateConnections (\<lambda>c. ac_TokenID c = tokenID \<and> ac_ClientID c = cid)
                (invalidateRuntime (\<lambda>l. lease_TokenID l = tokenID \<and> lease_ClientID l = cid) m))"

definition TerminateConnectionsForLease :: "string \<Rightarrow> Manager \<Rightarrow> nat \<times> Manager" where
  "TerminateConnectionsForLease leaseID m =
     (if leaseID = [] then (0, m)
      else terminateConnections (\<lambda>c. ac_LeaseID c = leaseID)
             (invalidateRuntime (\<lambda>l. lease_LeaseID l = leaseID) m))"

definition setBlockedInboundIP :: "BlockedInboundIP \<Rightarrow> bool \<Rightarrow> Manager \<Rightarrow> Manager" where
  "setBlockedInboundIP block closeExisting m =
     (let victims = (if closeExisting
            then filter (\<lambda>(_, c). ac_InboundIP (tcp_conn c) = bip_IP block) (tcpConnections m) else [])
      in m\<lparr>blockedInboundIPs := AList.update (bip_IP block) block (blockedInboundIPs m),
           tcpConnections := (if closeExisting
             then map_delete_where (\<lambda>_ c. ac_InboundIP (tcp_conn c) = bip_IP block) (tcpConnections m)
             else tcpConnections m),
           udpFlows := map_delete_where (\<lambda>_ f. ac_InboundIP f = bip_IP block) (udpFlows m),
           closedConns := closedConns m @ concat (map (\<lambda>(_, c). close_handles c) victims)\<rparr>)"

definition BlockInboundIP :: "go_time \<Rightarrow> string \<Rightarrow> string \<Rightarrow> Manager \<Rightarrow> BlockedInboundIP \<times> Manager" where
  "BlockInboundIP now ip reason m =
     (let block = \<lparr>bip_IP = TrimSpace ip, bip_Reason = TrimSpace reason, bip_CreatedAt = now\<rparr>
      in (block, setBlockedInboundIP block True m))"

definition stamp_block :: "go_time \<Rightarrow> BlockedInboundIP \<Rightarrow> BlockedInboundIP" where
  "stamp_block now block =
     (if time_is_zero (bip_CreatedAt block) then block\<lparr>bip_CreatedAt := now\<rparr> else block)"

definition SetBlockedInboundIP :: "go_time \<Rightarrow> BlockedInboundIP \<Rightarrow> Manager \<Rightarrow> Manager" where
  "SetBlockedInboundIP now block m = setBlockedInboundIP (stamp_block now block) False m"

definition EnforceBlockedInboundIP :: "go_time \<Rightarrow> BlockedInboundIP \<Rightarrow> Manager \<Rightarrow> Manager" where
  "EnforceBlockedInboundIP now block m = setBlockedInboundIP (stamp_block now block) True m"

definition UnblockInboundIP :: "string \<Rightarrow> Manager \<Rightarrow> Manager" where
  "UnblockInboundIP ip m =
     m\<lparr>blockedInboundIPs := AList.delete (TrimSpace ip) (blockedInboundIPs m)\<rparr>"

definition ListBlockedInboundIPs :: "Manager \<Rightarrow> BlockedInboundIP list" where
  "ListBlockedInboundIPs m = map snd (blockedInboundIPs m)"

definition cleanupExpiredUDPFlows :: "go_time \<Rightarrow> Manager \<Rightarrow> nat \<times> Manager" where
  "cleanupExpiredUDPFlows now m =
     (let timeout = (if udpFlowTimeout m \<le> 0 then defaultUDPFlowTimeout else udpFlowTimeout m);
          expired = (\<lambda>_ f. time_sub now (ac_LastSeenAt f) > timeout)
      in (map_count_where expired (udpFlows m),
          m\<lparr>udpFlows := map_delete_where expired (udpFlows m)\<rparr>))"

definition clearTrackedConnections :: "Manager \<Rightarrow> activeTCPConnection list \<times> Manager" where
  "clearTrackedConnections m =
     (map snd (tcpConnections m), m\<lparr>tcpConnections := [], udpFlows := []\<rparr>)"

section \<open>Traffic\<close>

text \<open>
  \<open>FeedTrafficSample\<close>. The inspector is the \<open>Inspector\<close> interface: a function on its own state,
  or none. A sample without a user is completed from the proxy binding before inspection.
\<close>

definition count_traffic :: "TrafficSample \<Rightarrow> TrafficSnapshot \<Rightarrow> TrafficSnapshot" where
  "count_traffic sample t =
     (let len = (if sample_PayloadLength sample \<le> 0 then int (length (sample_Payload sample))
                 else sample_PayloadLength sample)
      in if len > 0 then
           (if sample_Direction sample = DirectionInbound then
              t\<lparr>ts_BytesInbound := ts_BytesInbound t + word_of_int len,
                ts_SamplesInbound := ts_SamplesInbound t + 1\<rparr>
            else if sample_Direction sample = DirectionOutbound then
              t\<lparr>ts_BytesOutbound := ts_BytesOutbound t + word_of_int len,
                ts_SamplesOutbound := ts_SamplesOutbound t + 1\<rparr>
            else t)
         else t)"

definition complete_flow :: "Manager \<Rightarrow> FlowContext \<Rightarrow> FlowContext" where
  "complete_flow m f =
     (if flow_UserID f = 0 \<and> flow_LeaseID f \<noteq> [] \<and> flow_ProxyName f \<noteq> [] then
        (case map_of (bindings m) (bindingKey (flow_LeaseID f) (flow_ProxyName f)) of
           Some b \<Rightarrow>
             f\<lparr>flow_UserID := pb_UserID b, flow_TokenID := pb_TokenID b,
               flow_ClientID := pb_ClientID b, flow_RemotePort := pb_RemotePort b,
               flow_ProxyType := (if flow_ProxyType f = [] then pb_ProxyType b else flow_ProxyType f)\<rparr>
         | None \<Rightarrow> f)
      else f)"

definition FeedTrafficSample ::
  "('s \<Rightarrow> TrafficSample \<Rightarrow> Decision \<times> 's) option \<Rightarrow> TrafficSample \<Rightarrow> 's \<Rightarrow> Manager
     \<Rightarrow> Decision \<times> 's \<times> Manager" where
  "FeedTrafficSample inspector sample st m =
     (let m1 = m\<lparr>traffic := count_traffic sample (traffic m)\<rparr>;
          sample1 = sample\<lparr>sample_Flow := complete_flow m1 (sample_Flow sample)\<rparr>
      in case inspector of
           None \<Rightarrow> (Allow, st, m1)
         | Some inspect \<Rightarrow> (let (d, st1) = inspect st sample1 in (d, st1, m1)))"

definition TrafficSnapshot_of :: "go_time \<Rightarrow> Manager \<Rightarrow> TrafficSnapshot" where
  "TrafficSnapshot_of now m = (traffic m)\<lparr>ts_CapturedAt := now\<rparr>"

end
