(* ===== verification/Admission.thy ===== *)
theory Admission
  imports Frp_Core
begin

text \<open>
  The admission gate of \<open>internal/frpcore/admission.go\<close> as a state machine. A registration
  (\<open>Control.RegisterProxy\<close> of the embedded frps) calls \<open>Begin\<close>, then \<open>Opened\<close>, and gives the
  read lock back when it returns; \<open>readers\<close> holds the registrations that have the read lock. The
  operations that take the write lock of \<open>admissionMu\<close> run only when there is no reader.
\<close>

record adm_state =
  mgr :: Manager
  readers :: "UserInfo list"

text \<open>
  A lease is remembered from its database row, whose token and client never change: a second
  \<open>RememberRuntimeLease\<close> of the same identifier names the same client.
\<close>

definition lease_stable :: "Manager \<Rightarrow> RuntimeLease \<Rightarrow> bool" where
  "lease_stable m l \<longleftrightarrow>
     (case map_of (runtimeLeases m) (lease_LeaseID l) of Some l0 \<Rightarrow> lease_key l0 = lease_key l | None \<Rightarrow> True)"

text \<open>The operations of the manager that do not touch the admission fields.\<close>

definition same_admission :: "Manager \<Rightarrow> Manager \<Rightarrow> bool" where
  "same_admission m n \<longleftrightarrow>
     admissionClosed n = admissionClosed m \<and> drainingClients n = drainingClients m \<and>
     runtimeLeases n = runtimeLeases m \<and> registeredProxies n = registeredProxies m \<and>
     proxyCounts n = proxyCounts m \<and> leaseProxyCounts n = leaseProxyCounts m"

definition adm_init :: "adm_state \<Rightarrow> bool" where
  "adm_init s \<longleftrightarrow> readers s = [] \<and> (\<exists>now. mgr s = NewManager now)"

inductive adm_step :: "adm_state \<Rightarrow> adm_state \<Rightarrow> bool" where
  register_begin: "Begin (mgr s) user \<Longrightarrow> adm_step s (s\<lparr>readers := user # readers s\<rparr>)"
| register_opened: "user \<in> set (readers s) \<Longrightarrow> adm_step s (s\<lparr>mgr := Opened user name (mgr s)\<rparr>)"
| register_release: "user \<in> set (readers s) \<Longrightarrow> adm_step s (s\<lparr>readers := remove1 user (readers s)\<rparr>)"
| proxy_closed: "adm_step s (s\<lparr>mgr := Closed user name (mgr s)\<rparr>)"
| set_admission: "readers s = [] \<Longrightarrow> adm_step s (s\<lparr>mgr := SetAdmissionClosed b (mgr s)\<rparr>)"
| pause_admission: "readers s = [] \<Longrightarrow> adm_step s (s\<lparr>mgr := PauseAdmission (mgr s)\<rparr>)"
| finish_drain: "readers s = [] \<Longrightarrow> adm_step s (s\<lparr>mgr := FinishClientDrain tok cid (mgr s)\<rparr>)"
| invalidate: "readers s = [] \<Longrightarrow> adm_step s (s\<lparr>mgr := invalidateRuntime match (mgr s)\<rparr>)"
| remember: "lease_stable (mgr s) l \<Longrightarrow> adm_step s (s\<lparr>mgr := RememberRuntimeLease l (mgr s)\<rparr>)"
| data_op: "same_admission (mgr s) m \<Longrightarrow> adm_step s (s\<lparr>mgr := m\<rparr>)"

section \<open>Proxy counters agree with the registered proxies\<close>

definition client_regs :: "Manager \<Rightarrow> string \<Rightarrow> nat" where
  "client_regs m key = map_count_where (\<lambda>_ lid. lease_key (lease_of m lid) = key) (registeredProxies m)"

definition lease_regs :: "Manager \<Rightarrow> string \<Rightarrow> nat" where
  "lease_regs m lid = map_count_where (\<lambda>_ r. r = lid) (registeredProxies m)"

definition maps_ok :: "Manager \<Rightarrow> bool" where
  "maps_ok m \<longleftrightarrow> go_map_ok (registeredProxies m) \<and> go_map_ok (runtimeLeases m)"

definition regs_known :: "Manager \<Rightarrow> bool" where
  "regs_known m \<longleftrightarrow> (\<forall>lid \<in> snd ` set (registeredProxies m). map_has (runtimeLeases m) lid)"

definition counts_ok :: "Manager \<Rightarrow> bool" where
  "counts_ok m \<longleftrightarrow>
     (\<forall>key. map_get 0 (proxyCounts m) key = int (client_regs m key)) \<and>
     (\<forall>lid. map_get 0 (leaseProxyCounts m) lid = int (lease_regs m lid))"

definition readers_ok :: "adm_state \<Rightarrow> bool" where
  "readers_ok s \<longleftrightarrow>
     (admissionClosed (mgr s) \<longrightarrow> readers s = []) \<and>
     (\<forall>u \<in> set (readers s). map_has (runtimeLeases (mgr s)) (lease_id_of u) \<and>
        \<not> map_get False (drainingClients (mgr s)) (lease_key (lease_of (mgr s) (lease_id_of u))))"

definition adm_inv :: "adm_state \<Rightarrow> bool" where
  "adm_inv s \<longleftrightarrow> maps_ok (mgr s) \<and> regs_known (mgr s) \<and> counts_ok (mgr s) \<and> readers_ok s"

lemma count_where_update:
  assumes "go_map_ok m"
  shows "map_count_where P (AList.update k v m) = map_count_where P (AList.delete k m) + of_bool (P k v)"
  using assms
  by (induction m) (auto simp: map_count_where_def go_map_ok_def delete_notin_dom)

lemma count_where_delete:
  assumes "go_map_ok m" "map_of m k = Some v"
  shows "map_count_where P m = map_count_where P (AList.delete k m) + of_bool (P k v)"
  using assms
  by (induction m) (auto simp: map_count_where_def go_map_ok_def delete_notin_dom split: if_splits)

lemma count_where_delete_le: "map_count_where P (AList.delete k m) \<le> map_count_where P m"
  by (induction m) (auto simp: map_count_where_def)

lemma count_where_absent: "map_of m k = None \<Longrightarrow> AList.delete k m = m"
  by (simp add: delete_notin_dom map_of_eq_None_iff)

lemma get_decrement:
  "map_get 0 (decrement c k) k' =
     (if k' = k then (if map_get 0 c k \<le> 1 then 0 else map_get 0 c k - 1) else map_get 0 c k')"
  by (auto simp: decrement_def)

lemma lease_of_remove [simp]: "lease_of (removeProxyCountLocked r m) = lease_of m"
  by (simp add: removeProxyCountLocked_def lease_of_def fun_eq_iff)

lemma remove_fields [simp]:
  "registeredProxies (removeProxyCountLocked r m) = registeredProxies m"
  "runtimeLeases (removeProxyCountLocked r m) = runtimeLeases m"
  "drainingClients (removeProxyCountLocked r m) = drainingClients m"
  "admissionClosed (removeProxyCountLocked r m) = admissionClosed m"
  by (simp_all add: removeProxyCountLocked_def)

text \<open>After dropping the registration of \<open>key\<close>, the counters describe the remaining ones.\<close>

definition drop_reg :: "string \<Rightarrow> Manager \<Rightarrow> Manager" where
  "drop_reg key m =
     (case map_of (registeredProxies m) key of
        Some old \<Rightarrow> (removeProxyCountLocked old m)
            \<lparr>registeredProxies := AList.delete key (registeredProxies m)\<rparr>
      | None \<Rightarrow> m)"

lemma drop_reg_fields [simp]:
  "runtimeLeases (drop_reg key m) = runtimeLeases m"
  "drainingClients (drop_reg key m) = drainingClients m"
  "admissionClosed (drop_reg key m) = admissionClosed m"
  "registeredProxies (drop_reg key m) = AList.delete key (registeredProxies m)"
  by (cases "map_of (registeredProxies m) key"; simp add: drop_reg_def count_where_absent)+

lemma lease_of_drop_reg [simp]: "lease_of (drop_reg key m) = lease_of m"
  by (simp add: lease_of_def fun_eq_iff)

lemma counts_ok_drop_reg:
  assumes "maps_ok m" "counts_ok m"
  shows "counts_ok (drop_reg key m)"
proof (cases "map_of (registeredProxies m) key")
  case None
  then show ?thesis using assms by (simp add: drop_reg_def)
next
  case (Some old)
  have ok: "go_map_ok (registeredProxies m)" using assms(1) by (simp add: maps_ok_def)
  note del = count_where_delete [OF ok Some]
  have c: "client_regs m k = client_regs (drop_reg key m) k + of_bool (lease_key (lease_of m old) = k)" for k
    unfolding client_regs_def by (simp add: del)
  have l: "lease_regs m lid = lease_regs (drop_reg key m) lid + of_bool (old = lid)" for lid
    unfolding lease_regs_def by (simp add: del)
  have pc: "proxyCounts (drop_reg key m) = decrement (proxyCounts m) (lease_key (lease_of m old))"
    and lc: "leaseProxyCounts (drop_reg key m) = decrement (leaseProxyCounts m) old"
    using Some by (simp_all add: drop_reg_def removeProxyCountLocked_def)
  show ?thesis
    using assms(2) unfolding counts_ok_def pc lc get_decrement
    by (auto simp: c l)
qed

lemma Closed_drop_reg: "Closed user name m = drop_reg (proxy_key user name) m"
  by (auto simp: Closed_def drop_reg_def Let_def split: option.splits)

text \<open>\<open>Opened\<close> is a drop followed by one more registration.\<close>

lemma Opened_drop_reg:
  fixes user :: UserInfo and name :: string
  assumes "go_map_ok (registeredProxies m)"
  defines "n \<equiv> drop_reg (proxy_key user name) m"
  defines "ck \<equiv> lease_key (lease_of m (lease_id_of user))"
  shows "runtimeLeases (Opened user name m) = runtimeLeases m"
    and "drainingClients (Opened user name m) = drainingClients m"
    and "admissionClosed (Opened user name m) = admissionClosed m"
    and "registeredProxies (Opened user name m)
           = AList.update (proxy_key user name) (lease_id_of user) (registeredProxies m)"
    and "proxyCounts (Opened user name m) = AList.update ck (map_get 0 (proxyCounts n) ck + 1) (proxyCounts n)"
    and "leaseProxyCounts (Opened user name m)
           = AList.update (lease_id_of user) (map_get 0 (leaseProxyCounts n) (lease_id_of user) + 1)
               (leaseProxyCounts n)"
  unfolding n_def ck_def
  by (simp_all add: Opened_def drop_reg_def Let_def removeProxyCountLocked_def split: option.splits)
     (auto simp: lease_of_def)

section \<open>Every step keeps the invariant\<close>

lemma counts_ok_Opened:
  assumes "maps_ok m" "counts_ok m"
  shows "counts_ok (Opened user name m)"
proof -
  let ?key = "proxy_key user name" and ?n = "drop_reg (proxy_key user name) m"
  have ok: "go_map_ok (registeredProxies m)" using assms(1) by (simp add: maps_ok_def)
  note upd = count_where_update [OF ok, where k = ?key]
  have lo: "lease_of (Opened user name m) = lease_of m"
    by (simp add: lease_of_def fun_eq_iff Opened_drop_reg(1) [OF ok])
  have c: "client_regs (Opened user name m) k
      = client_regs ?n k + of_bool (lease_key (lease_of m (lease_id_of user)) = k)" for k
    unfolding client_regs_def lo Opened_drop_reg(4) [OF ok] by (simp add: upd)
  have l: "lease_regs (Opened user name m) lid = lease_regs ?n lid + of_bool (lease_id_of user = lid)" for lid
    unfolding lease_regs_def Opened_drop_reg(4) [OF ok] by (simp add: upd)
  show ?thesis
    using counts_ok_drop_reg [OF assms, of ?key]
    unfolding counts_ok_def Opened_drop_reg(5,6) [OF ok] by (auto simp: c l)
qed

lemma snd_set_delete: "snd ` set (AList.delete k m) \<subseteq> snd ` set m"
  by (auto simp: AList.delete_eq)

lemma snd_set_update: "snd ` set (AList.update k v m) \<subseteq> insert v (snd ` set m)"
  by (induction m) (auto split: if_splits)

lemma client_regs_zero:
  assumes "client_regs m key = 0" "lid \<in> snd ` set (registeredProxies m)"
  shows "lease_key (lease_of m lid) \<noteq> key"
  using assms by (auto simp: client_regs_def map_count_where_def filter_empty_conv)

text \<open>A change of the lease map that keeps the client of every registered lease.\<close>

lemma counts_ok_leases:
  assumes "counts_ok m" "registeredProxies n = registeredProxies m"
    and "proxyCounts n = proxyCounts m" "leaseProxyCounts n = leaseProxyCounts m"
    and "\<And>lid. lid \<in> snd ` set (registeredProxies m) \<Longrightarrow> lease_key (lease_of n lid) = lease_key (lease_of m lid)"
  shows "counts_ok n"
proof -
  have key: "lease_key (lease_of n b) = lease_key (lease_of m b)" if "(a, b) \<in> set (registeredProxies m)" for a b
    using assms(5) that by force
  have "client_regs n key = client_regs m key" for key
    unfolding client_regs_def map_count_where_def assms(2)
    by (intro arg_cong [where f = length] filter_cong) (auto simp: key)
  moreover have "lease_regs n lid = lease_regs m lid" for lid
    by (simp add: lease_regs_def assms(2))
  ultimately show ?thesis using assms(1,3,4) by (simp add: counts_ok_def)
qed

lemma lease_of_invalidate: "lease_key (lease_of (invalidateRuntime match m) lid) = lease_key (lease_of m lid)"
  by (auto simp: invalidateRuntime_def lease_of_def lease_key_def map_get_def split: option.splits)

lemma lease_of_remember:
  assumes "lease_stable m l" "map_has (runtimeLeases m) lid"
  shows "lease_key (lease_of (RememberRuntimeLease l m) lid) = lease_key (lease_of m lid)"
  using assms
  by (auto simp: RememberRuntimeLease_def lease_of_def lease_stable_def map_has_def map_get_def
      split: option.splits)

lemma FinishClientDrain_leases:
  assumes "go_map_ok (runtimeLeases m)" "\<not> 0 < map_get 0 (proxyCounts m) (clientKey tok cid)"
    and "map_has (runtimeLeases m) lid" "lease_key (lease_of m lid) \<noteq> clientKey tok cid"
  shows "map_of (runtimeLeases (FinishClientDrain tok cid m)) lid = map_of (runtimeLeases m) lid"
  using assms
  by (auto simp: FinishClientDrain_def Let_def map_of_delete_where lease_of_def map_has_def map_get_def
      split: option.splits)

lemma core_inv_FinishClientDrain:
  assumes "maps_ok m" "regs_known m" "counts_ok m"
  shows "maps_ok (FinishClientDrain tok cid m) \<and> regs_known (FinishClientDrain tok cid m)
       \<and> counts_ok (FinishClientDrain tok cid m)"
proof (cases "0 < map_get 0 (proxyCounts m) (clientKey tok cid)")
  case True
  then show ?thesis using assms by (simp add: FinishClientDrain_def)
next
  case False
  let ?n = "FinishClientDrain tok cid m"
  have same: "registeredProxies ?n = registeredProxies m" "proxyCounts ?n = proxyCounts m"
    "leaseProxyCounts ?n = leaseProxyCounts m"
    by (simp_all add: FinishClientDrain_def Let_def)
  from False assms(3) have zero: "client_regs m (clientKey tok cid) = 0"
    by (simp add: counts_ok_def)
  have keep: "map_of (runtimeLeases ?n) lid = map_of (runtimeLeases m) lid"
    if "lid \<in> snd ` set (registeredProxies m)" for lid
    using that assms(1,2) False client_regs_zero [OF zero that]
    by (intro FinishClientDrain_leases) (auto simp: maps_ok_def regs_known_def)
  have "maps_ok ?n" using assms(1) False by (simp add: maps_ok_def FinishClientDrain_def Let_def)
  moreover have "regs_known ?n" using assms(2) keep by (auto simp: regs_known_def same map_has_def)
  moreover have "counts_ok ?n"
    using assms(3) same
    by (rule counts_ok_leases) (simp add: keep lease_of_def map_get_def)
  ultimately show ?thesis by simp
qed

lemma core_inv_leases:
  assumes "maps_ok m" "regs_known m" "counts_ok m" "maps_ok n"
    and "registeredProxies n = registeredProxies m"
    and "proxyCounts n = proxyCounts m" "leaseProxyCounts n = leaseProxyCounts m"
    and "\<And>lid. map_has (runtimeLeases m) lid \<Longrightarrow> map_has (runtimeLeases n) lid
              \<and> lease_key (lease_of n lid) = lease_key (lease_of m lid)"
  shows "maps_ok n \<and> regs_known n \<and> counts_ok n"
  using assms by (auto simp: regs_known_def intro: counts_ok_leases)

lemma regs_known_mono:
  assumes "regs_known m" "runtimeLeases n = runtimeLeases m"
    and "snd ` set (registeredProxies n) \<subseteq> insert lid (snd ` set (registeredProxies m))"
    and "map_has (runtimeLeases m) lid"
  shows "regs_known n"
  unfolding regs_known_def
proof
  fix l assume "l \<in> snd ` set (registeredProxies n)"
  with assms(3) have "l = lid \<or> l \<in> snd ` set (registeredProxies m)" by blast
  then show "map_has (runtimeLeases n) l"
    using assms(1) [unfolded regs_known_def, rule_format, of l] assms(2,4) by auto
qed

lemma core_inv_Opened:
  assumes "maps_ok m" "regs_known m" "counts_ok m" "map_has (runtimeLeases m) (lease_id_of user)"
  shows "maps_ok (Opened user name m) \<and> regs_known (Opened user name m) \<and> counts_ok (Opened user name m)"
proof -
  have ok: "go_map_ok (registeredProxies m)" using assms(1) by (simp add: maps_ok_def)
  have "regs_known (Opened user name m)"
    using assms(2) _ _ assms(4)
    by (rule regs_known_mono) (simp_all add: Opened_drop_reg(1,4) [OF ok] snd_set_update)
  with assms show ?thesis
    by (simp add: counts_ok_Opened) (simp add: maps_ok_def Opened_drop_reg(1,4) [OF ok])
qed

lemma core_inv_drop_reg:
  assumes "maps_ok m" "regs_known m" "counts_ok m"
  shows "maps_ok (drop_reg key m) \<and> regs_known (drop_reg key m) \<and> counts_ok (drop_reg key m)"
proof -
  have "regs_known (drop_reg key m)"
    unfolding regs_known_def drop_reg_fields
    using assms(2) [unfolded regs_known_def] snd_set_delete [of key "registeredProxies m"] by blast
  with assms show ?thesis by (simp add: counts_ok_drop_reg) (simp add: maps_ok_def)
qed

lemma core_inv_step:
  assumes "adm_step s t" "adm_inv s"
  shows "maps_ok (mgr t) \<and> regs_known (mgr t) \<and> counts_ok (mgr t)"
  using assms
proof (induction rule: adm_step.induct)
  case (register_opened user s name)
  then have "map_has (runtimeLeases (mgr s)) (lease_id_of user)"
    by (simp add: adm_inv_def readers_ok_def)
  with register_opened show ?case by (simp add: adm_inv_def core_inv_Opened)
next
  case (proxy_closed s user name)
  then show ?case by (simp add: adm_inv_def Closed_drop_reg core_inv_drop_reg)
next
  case (finish_drain s tok cid)
  then show ?case by (simp add: adm_inv_def core_inv_FinishClientDrain)
next
  case (invalidate s match)
  then show ?case
    using lease_of_invalidate [of match "mgr s"]
    by (intro core_inv_leases [of "mgr s"]) (auto simp: adm_inv_def maps_ok_def invalidateRuntime_def map_has_def)
next
  case (remember s l)
  then show ?case
    using lease_of_remember [OF remember.hyps]
    by (intro core_inv_leases [of "mgr s"]) (auto simp: adm_inv_def maps_ok_def RememberRuntimeLease_def)
next
  case (data_op s m)
  then show ?case
    by (auto simp: adm_inv_def maps_ok_def regs_known_def same_admission_def lease_of_def
        intro: counts_ok_leases)
qed (auto simp: adm_inv_def maps_ok_def regs_known_def SetAdmissionClosed_def PauseAdmission_def Let_def
      lease_of_def intro: counts_ok_leases)

lemma readers_ok_same:
  assumes "readers_ok s" "readers t = readers s"
    and "admissionClosed (mgr t) = admissionClosed (mgr s)"
    and "drainingClients (mgr t) = drainingClients (mgr s)"
    and "\<And>lid. map_has (runtimeLeases (mgr s)) lid \<Longrightarrow> map_has (runtimeLeases (mgr t)) lid
           \<and> lease_key (lease_of (mgr t) lid) = lease_key (lease_of (mgr s) lid)"
  shows "readers_ok t"
  using assms by (simp add: readers_ok_def)

lemma readers_ok_step:
  assumes "adm_step s t" "adm_inv s"
  shows "readers_ok t"
  using assms
proof (induction rule: adm_step.induct)
  case (register_begin s user)
  then show ?case by (auto simp: adm_inv_def readers_ok_def Begin_def Let_def)
next
  case (register_opened user s name)
  then have "go_map_ok (registeredProxies (mgr s))" by (simp add: adm_inv_def maps_ok_def)
  from Opened_drop_reg(1-3) [OF this] register_opened show ?case
    by (auto simp: adm_inv_def lease_of_def intro: readers_ok_same [of s])
next
  case (register_release user s)
  then show ?case by (auto simp: adm_inv_def readers_ok_def dest: notin_set_remove1)
next
  case (proxy_closed s user name)
  then show ?case
    by (auto simp: adm_inv_def Closed_drop_reg lease_of_def intro: readers_ok_same [of s])
next
  case (remember s l)
  then show ?case
    using lease_of_remember [OF remember.hyps]
    by (auto simp: adm_inv_def RememberRuntimeLease_def intro!: readers_ok_same [of s])
next
  case (data_op s m)
  then show ?case
    by (auto simp: adm_inv_def same_admission_def lease_of_def intro: readers_ok_same [of s])
qed (simp_all add: readers_ok_def)

lemma adm_inv_step: "adm_inv s \<Longrightarrow> adm_step s t \<Longrightarrow> adm_inv t"
  using core_inv_step readers_ok_step by (simp add: adm_inv_def)

lemma adm_inv_init: "adm_init s \<Longrightarrow> adm_inv s"
  by (auto simp: adm_init_def adm_inv_def NewManager_def maps_ok_def regs_known_def counts_ok_def
      client_regs_def lease_regs_def map_count_where_def readers_ok_def)

interpretation adm: inductive_invariant adm_init adm_step adm_inv
  by unfold_locales (auto intro: adm_inv_init adm_inv_step)

section \<open>What the gate guarantees\<close>

lemma client_count_Closed:
  assumes "maps_ok m" "counts_ok m"
  shows "ClientProxyCount (Closed user name m) tok cid \<le> ClientProxyCount m tok cid"
proof -
  have "client_regs (drop_reg key m) k \<le> client_regs m k" for key k
    by (simp add: client_regs_def count_where_delete_le)
  then show ?thesis
    using assms counts_ok_drop_reg [OF assms]
    by (simp add: ClientProxyCount_def Closed_drop_reg counts_ok_def)
qed

lemma client_count_leases:
  "proxyCounts n = proxyCounts m \<Longrightarrow> ClientProxyCount n tok cid = ClientProxyCount m tok cid"
  by (simp add: ClientProxyCount_def)

text \<open>
  The only step that raises a client's counter is \<open>Opened\<close> in a registration whose lease belongs
  to that client.
\<close>

lemma count_step_cases:
  assumes "adm_step s t" "adm_inv s"
  shows "ClientProxyCount (mgr t) tok cid \<le> ClientProxyCount (mgr s) tok cid
    \<or> (\<exists>u \<in> set (readers s). lease_key (lease_of (mgr s) (lease_id_of u)) = clientKey tok cid)"
  using assms
proof (induction rule: adm_step.induct)
  case (register_opened user s name)
  let ?m = "mgr s"
  have ok: "maps_ok ?m" "counts_ok ?m" "go_map_ok (registeredProxies ?m)"
    using register_opened.prems by (auto simp: adm_inv_def maps_ok_def)
  note le = client_count_Closed [OF ok(1,2), of user name tok cid]
  show ?case
  proof (cases "lease_key (lease_of ?m (lease_id_of user)) = clientKey tok cid")
    case True
    with register_opened.hyps show ?thesis by blast
  next
    case False
    with le show ?thesis
      by (simp add: ClientProxyCount_def Closed_drop_reg Opened_drop_reg(5) [OF ok(3)])
  qed
next
  case (proxy_closed s user name)
  then show ?case using client_count_Closed by (simp add: adm_inv_def)
qed (auto simp: same_admission_def SetAdmissionClosed_def PauseAdmission_def FinishClientDrain_def
      invalidateRuntime_def RememberRuntimeLease_def Let_def intro!: disjI1 eq_refl client_count_leases)

lemma mark_draining_mono: "map_get False d k \<Longrightarrow> map_get False (mark_draining ls d) k"
  unfolding mark_draining_def by (induction ls arbitrary: d) auto

lemma count_nonneg: "counts_ok m \<Longrightarrow> 0 \<le> ClientProxyCount m tok cid"
  by (simp add: counts_ok_def ClientProxyCount_def)

lemma draining_step:
  assumes "adm_step s t" "adm_inv s" "ClientDraining (mgr s) tok cid"
  shows "ClientDraining (mgr t) tok cid \<or> ClientProxyCount (mgr s) tok cid = 0"
  using assms
proof (induction rule: adm_step.induct)
  case (register_opened user s name)
  then have "go_map_ok (registeredProxies (mgr s))" by (simp add: adm_inv_def maps_ok_def)
  from Opened_drop_reg(2) [OF this] register_opened show ?case by (simp add: ClientDraining_def)
next
  case (finish_drain s tok' cid')
  then have "0 \<le> ClientProxyCount (mgr s) tok cid" by (simp add: adm_inv_def count_nonneg)
  with finish_drain show ?case
    by (auto simp: FinishClientDrain_def Let_def ClientDraining_def ClientProxyCount_def)
qed (simp_all add: ClientDraining_def Closed_drop_reg SetAdmissionClosed_def PauseAdmission_def Let_def
      mark_draining_mono invalidateRuntime_def RememberRuntimeLease_def same_admission_def)

section \<open>A run of the gate\<close>

definition demo_lease :: RuntimeLease where
  "demo_lease = zero_RuntimeLease\<lparr>lease_LeaseID := ''L1'', lease_TokenID := 7, lease_ClientID := ''c1'',
     lease_UserID := 3, lease_Status := ''active''\<rparr>"

definition demo_user :: UserInfo where
  "demo_user = \<lparr>ui_User = ''u'', ui_Metas = [(''lease_id'', ''L1'')], ui_RunID = ''r1''\<rparr>"

text \<open>A node on which one client has logged in and registered one proxy.\<close>

definition demo_open :: adm_state where
  "demo_open = \<lparr>mgr = Opened demo_user ''web'' (RememberRuntimeLease demo_lease (NewManager 0)), readers = []\<rparr>"

definition demo_fault :: adm_state where
  "demo_fault = demo_open\<lparr>mgr := SetAdmissionClosed True (mgr demo_open)\<rparr>"

definition demo_closed :: adm_state where
  "demo_closed = demo_fault\<lparr>mgr := Closed demo_user ''web'' (mgr demo_fault)\<rparr>"

lemma demo_open_reach: "reach adm_init adm_step demo_open"
proof -
  let ?s0 = "\<lparr>mgr = NewManager 0, readers = []\<rparr>"
  let ?s1 = "?s0\<lparr>mgr := RememberRuntimeLease demo_lease (mgr ?s0)\<rparr>"
  let ?s2 = "?s1\<lparr>readers := demo_user # readers ?s1\<rparr>"
  let ?s3 = "?s2\<lparr>mgr := Opened demo_user ''web'' (mgr ?s2)\<rparr>"
  have "reach adm_init adm_step ?s0" by (rule reach_init) (auto simp: adm_init_def)
  then have "reach adm_init adm_step ?s1"
    by (rule reach_step) (rule adm_step.remember, simp add: lease_stable_def NewManager_def)
  then have "reach adm_init adm_step ?s2"
    by (rule reach_step) (rule adm_step.register_begin, code_simp)
  then have "reach adm_init adm_step ?s3"
    by (rule reach_step) (rule adm_step.register_opened, simp)
  then have "reach adm_init adm_step (?s3\<lparr>readers := remove1 demo_user (readers ?s3)\<rparr>)"
    by (rule reach_step) (rule adm_step.register_release, simp)
  then show ?thesis by (simp add: demo_open_def)
qed

lemma demo_fault_reach: "reach adm_init adm_step demo_fault"
  unfolding demo_fault_def
  by (rule reach_step [OF demo_open_reach], rule adm_step.set_admission) (simp add: demo_open_def)

lemma demo_closed_step: "adm_step demo_fault demo_closed"
  unfolding demo_closed_def by (rule adm_step.proxy_closed)

section \<open>Properties\<close>

text \<open>
  C4. In every reachable state of the admission gate the counter a node keeps for a client is
  exactly the number of proxies the embedded frps has registered under that client's leases: no
  interleaving of registrations, closures, duplicate notifications, faults, drains, revocations
  and logins makes it drift.
\<close>

theorem proxy_count_exact:
  assumes "reach adm_init adm_step s"
  shows "ClientProxyCount (mgr s) tok cid = int (client_regs (mgr s) (clientKey tok cid))"
  using adm.reach_inv [OF assms]
  by (simp add: adm_inv_def counts_ok_def ClientProxyCount_def)

theorem proxy_count_exact_witness:
  "reach adm_init adm_step demo_open \<and> client_regs (mgr demo_open) (clientKey 7 ''c1'') = 1
   \<and> ClientProxyCount (mgr demo_open) 7 ''c1'' = 1"
proof -
  have "client_regs (mgr demo_open) (clientKey 7 ''c1'') = 1" by code_simp
  with proxy_count_exact [OF demo_open_reach, of 7 "''c1''"] demo_open_reach show ?thesis by simp
qed

text \<open>
  C5. The write fence: once admission is closed, no step of the system raises the proxy count of
  any client, so a count of zero cannot race with a registration that is still on its way.
\<close>

theorem closed_admission_fence:
  assumes "reach adm_init adm_step s" "admissionClosed (mgr s)" "adm_step s t"
  shows "ClientProxyCount (mgr t) tok cid \<le> ClientProxyCount (mgr s) tok cid"
proof -
  from assms(1) have inv: "adm_inv s" by (rule adm.reach_inv)
  with assms(2) have "readers s = []" by (simp add: adm_inv_def readers_ok_def)
  with count_step_cases [OF assms(3) inv] show ?thesis by auto
qed

theorem closed_admission_fence_witness:
  "reach adm_init adm_step demo_fault \<and> admissionClosed (mgr demo_fault) \<and> adm_step demo_fault demo_closed
   \<and> ClientProxyCount (mgr demo_closed) 7 ''c1'' \<le> ClientProxyCount (mgr demo_fault) 7 ''c1''"
proof -
  have "admissionClosed (mgr demo_fault)" by code_simp
  with closed_admission_fence [OF demo_fault_reach _ demo_closed_step, of 7 "''c1''"]
    demo_fault_reach demo_closed_step show ?thesis by simp
qed

text \<open>
  C6. A draining client stays fenced even after admission reopens: no step raises its proxy count
  while it drains, and the drain only ends in a state in which the count is zero.
\<close>

theorem draining_client_fence:
  assumes "reach adm_init adm_step s" "ClientDraining (mgr s) tok cid" "adm_step s t"
  shows "ClientProxyCount (mgr t) tok cid \<le> ClientProxyCount (mgr s) tok cid
    \<and> (ClientDraining (mgr t) tok cid \<or> ClientProxyCount (mgr s) tok cid = 0)"
proof -
  from assms(1) have inv: "adm_inv s" by (rule adm.reach_inv)
  with assms(2) have "\<forall>u \<in> set (readers s). lease_key (lease_of (mgr s) (lease_id_of u)) \<noteq> clientKey tok cid"
    by (auto simp: adm_inv_def readers_ok_def ClientDraining_def)
  with count_step_cases [OF assms(3) inv] draining_step [OF assms(3) inv assms(2)]
  show ?thesis by blast
qed

theorem draining_client_fence_witness:
  "reach adm_init adm_step demo_fault \<and> ClientDraining (mgr demo_fault) 7 ''c1'' \<and> adm_step demo_fault demo_closed
   \<and> ClientProxyCount (mgr demo_fault) 7 ''c1'' = 1 \<and> ClientDraining (mgr demo_closed) 7 ''c1''"
proof -
  have "ClientDraining (mgr demo_fault) 7 ''c1''" and c: "ClientProxyCount (mgr demo_fault) 7 ''c1'' = 1"
    by code_simp+
  with draining_client_fence [OF demo_fault_reach _ demo_closed_step, of 7 "''c1''"]
    demo_fault_reach demo_closed_step show ?thesis by simp
qed

end
