(* ===== verification/Connections.thy ===== *)
theory Connections
  imports Admission
begin

text \<open>
  The connection table of \<open>internal/frpcore/manager.go\<close>: every operation on live TCP connections,
  UDP flows, proxy bindings and inbound bans as one operation language, the invariant of the table,
  and what termination, banning and expiry do to it.
\<close>

section \<open>Operations on the table\<close>

datatype conn_op =
    OpSetTimeout duration
  | OpBind ProxyBinding
  | OpUnbind string string
  | OpSetAddress string string
  | OpRegister go_time ConnectionInfo conn_handle "conn_handle option"
  | OpUnregister string
  | OpObserve go_time ConnectionInfo
  | OpTerminate string
  | OpTerminateUser int
  | OpTerminateToken int
  | OpTerminateClient int string
  | OpTerminateLease string
  | OpBlock go_time string string
  | OpSetBlocked go_time BlockedInboundIP
  | OpEnforceBlocked go_time BlockedInboundIP
  | OpUnblock string
  | OpCleanup go_time
  | OpClear

primrec conn_exec :: "conn_op \<Rightarrow> Manager \<Rightarrow> Manager" where
  "conn_exec (OpSetTimeout d) m = SetUDPFlowTimeout d m"
| "conn_exec (OpBind b) m = BindProxy b m"
| "conn_exec (OpUnbind l p) m = UnbindProxy l p m"
| "conn_exec (OpSetAddress l a) m = SetLeaseClientAddress l a m"
| "conn_exec (OpRegister now info u w) m = snd (RegisterTCPConnection now info u w m)"
| "conn_exec (OpUnregister cid) m = UnregisterTCPConnection cid m"
| "conn_exec (OpObserve now info) m = ObserveUDPFlow now info m"
| "conn_exec (OpTerminate cid) m = snd (TerminateTCPConnection cid m)"
| "conn_exec (OpTerminateUser u) m = snd (TerminateConnectionsForUser u m)"
| "conn_exec (OpTerminateToken t) m = snd (TerminateConnectionsForToken t m)"
| "conn_exec (OpTerminateClient t c) m = snd (TerminateConnectionsForClient t c m)"
| "conn_exec (OpTerminateLease l) m = snd (TerminateConnectionsForLease l m)"
| "conn_exec (OpBlock now ip reason) m = snd (BlockInboundIP now ip reason m)"
| "conn_exec (OpSetBlocked now b) m = SetBlockedInboundIP now b m"
| "conn_exec (OpEnforceBlocked now b) m = EnforceBlockedInboundIP now b m"
| "conn_exec (OpUnblock ip) m = UnblockInboundIP ip m"
| "conn_exec (OpCleanup now) m = snd (cleanupExpiredUDPFlows now m)"
| "conn_exec OpClear m = snd (clearTrackedConnections m)"

text \<open>
  A step is any operation while the 64-bit connection counter has not reached its last value; the
  counter would wrap only after \<open>2 ^ 64 - 1\<close> connections of one process.
\<close>

definition conn_init :: "Manager \<Rightarrow> bool" where
  "conn_init m \<longleftrightarrow> (\<exists>now. m = NewManager now)"

inductive conn_step :: "Manager \<Rightarrow> Manager \<Rightarrow> bool" where
  conn_op: "nextConnectionID m \<noteq> - 1 \<Longrightarrow> conn_step m (conn_exec op m)"

inductive_simps conn_step_simps: "conn_step m n"

section \<open>The invariant of the table\<close>

definition id_ok :: "Manager \<Rightarrow> string \<Rightarrow> string \<Rightarrow> bool" where
  "id_ok m pre cid \<longleftrightarrow> (\<exists>n > 0. n \<le> unat (nextConnectionID m) \<and> cid = pre @ nat_digits n)"

definition tcp_ok :: "Manager \<Rightarrow> bool" where
  "tcp_ok m \<longleftrightarrow> go_map_ok (tcpConnections m) \<and>
     (\<forall>(k, c) \<in> set (tcpConnections m). ac_ID (tcp_conn c) = k \<and> id_ok m ''tcp_'' k)"

definition udp_ok :: "Manager \<Rightarrow> bool" where
  "udp_ok m \<longleftrightarrow> go_map_ok (udpFlows m) \<and> distinct (map (ac_ID \<circ> snd) (udpFlows m)) \<and>
     (\<forall>(k, f) \<in> set (udpFlows m). id_ok m ''udp_'' (ac_ID f)) \<and>
     maxUDPFlows m = maxTrackedUDPFlows \<and> int (length (udpFlows m)) \<le> maxUDPFlows m"

definition conn_inv :: "Manager \<Rightarrow> bool" where
  "conn_inv m \<longleftrightarrow> tcp_ok m \<and> udp_ok m \<and> go_map_ok (blockedInboundIPs m)"

lemma update_absent: "map_of m k = None \<Longrightarrow> AList.update k v m = m @ [(k, v)]"
  by (induction m) (auto split: if_splits)

lemma map_update_present:
  assumes "map_of m k = Some v" "g v' = g v"
  shows "map (g \<circ> snd) (AList.update k v' m) = map (g \<circ> snd) m"
  using assms by (induction m) (auto split: if_splits)

lemma set_update_cases: "x \<in> set (AList.update k v m) \<Longrightarrow> x = (k, v) \<or> x \<in> set m"
  by (induction m) (auto split: if_splits)

lemma set_delete_subset: "set (AList.delete k m) \<subseteq> set m"
  by (auto simp: AList.delete_eq)

lemma map_delete_where_subset: "set (map_delete_where P m) \<subseteq> set m"
  by (auto simp: map_delete_where_def)

lemma distinct_snd_delete_where:
  "distinct (map (g \<circ> snd) m) \<Longrightarrow> distinct (map (g \<circ> snd) (map_delete_where P m))"
  by (simp add: map_delete_where_def distinct_map_filter)

lemma length_delete_where_le: "length (map_delete_where P m) \<le> length m"
  by (simp add: map_delete_where_def)

lemma id_ok_mono: "id_ok m pre cid \<Longrightarrow> nextConnectionID m \<le> nextConnectionID n \<Longrightarrow> id_ok n pre cid"
  by (auto simp: id_ok_def word_le_nat_alt)

lemma id_ok_cong: "nextConnectionID n = nextConnectionID m \<Longrightarrow> id_ok n = id_ok m"
  by (simp add: id_ok_def fun_eq_iff)

lemma next_id_less:
  assumes "nextConnectionID m \<noteq> (- 1 :: 64 word)"
  shows "nextConnectionID m < nextConnectionID m + 1" "unat (nextConnectionID m + 1) = Suc (unat (nextConnectionID m))"
proof -
  have "1 + nextConnectionID m \<noteq> 0"
    using assms by (simp add: add_eq_0_iff)
  then show s: "unat (nextConnectionID m + 1) = Suc (unat (nextConnectionID m))"
    using unatSuc [of "nextConnectionID m"] by (simp add: add.commute)
  show "nextConnectionID m < nextConnectionID m + 1" by (simp add: word_less_nat_alt s)
qed

text \<open>Operations that only drop or relabel entries keep both tables well formed.\<close>

lemma tcp_ok_shrink:
  assumes "tcp_ok m" "go_map_ok (tcpConnections n)" "set (tcpConnections n) \<subseteq> set (tcpConnections m)"
    and "nextConnectionID n = nextConnectionID m"
  shows "tcp_ok n"
  using assms(1-3) unfolding tcp_ok_def id_ok_cong [OF assms(4)] by blast

lemma udp_ok_shrink:
  assumes "udp_ok m" "udpFlows n = map_delete_where P (udpFlows m)"
    and "nextConnectionID n = nextConnectionID m" "maxUDPFlows n = maxUDPFlows m"
  shows "udp_ok n"
proof -
  have "int (length (udpFlows n)) \<le> int (length (udpFlows m))"
    by (simp add: assms(2) length_delete_where_le)
  moreover have "distinct (map (ac_ID \<circ> snd) (udpFlows n))" "go_map_ok (udpFlows n)"
    using assms(1) by (simp_all add: assms(2) udp_ok_def distinct_snd_delete_where del: map_map)
  moreover have "\<forall>(k, f) \<in> set (udpFlows n). id_ok n ''udp_'' (ac_ID f)"
    using assms(1) map_delete_where_subset [of P "udpFlows m"]
    unfolding udp_ok_def assms(2) id_ok_cong [OF assms(3)] by blast
  ultimately show ?thesis using assms(1,4) unfolding udp_ok_def by simp
qed

lemma tcp_ok_same:
  "tcp_ok m \<Longrightarrow> tcpConnections n = tcpConnections m \<Longrightarrow> nextConnectionID n = nextConnectionID m \<Longrightarrow> tcp_ok n"
  by (simp add: tcp_ok_def id_ok_def)

lemma udp_ok_same:
  "udp_ok m \<Longrightarrow> udpFlows n = udpFlows m \<Longrightarrow> nextConnectionID n = nextConnectionID m
     \<Longrightarrow> maxUDPFlows n = maxUDPFlows m \<Longrightarrow> udp_ok n"
  by (simp add: udp_ok_def id_ok_def)

lemma tcp_ok_RegisterTCPConnection:
  assumes "tcp_ok m" "nextConnectionID m \<noteq> - 1"
  shows "tcp_ok (snd (RegisterTCPConnection now info u w m))"
proof -
  let ?n = "snd (RegisterTCPConnection now info u w m)"
  have next': "nextConnectionID ?n = nextConnectionID m + 1"
    by (simp add: RegisterTCPConnection_def Let_def)
  have new: "id_ok ?n ''tcp_'' (''tcp_'' @ FormatUint (nextConnectionID ?n))"
    using next_id_less(2) [OF assms(2)] by (simp add: id_ok_def next' FormatUint_def)
  have old: "id_ok ?n pre k" if "id_ok m pre k" for pre k
    using that next_id_less(1) [OF assms(2)] by (simp add: next' id_ok_mono)
  show ?thesis
    unfolding tcp_ok_def
  proof (intro conjI ballI)
    show "go_map_ok (tcpConnections ?n)"
      using assms(1) by (simp add: RegisterTCPConnection_def Let_def tcp_ok_def)
    fix x assume x: "x \<in> set (tcpConnections ?n)"
    obtain c where upd: "tcpConnections ?n = AList.update (''tcp_'' @ FormatUint (nextConnectionID ?n)) c (tcpConnections m)"
      "ac_ID (tcp_conn c) = ''tcp_'' @ FormatUint (nextConnectionID ?n)"
      by (simp add: RegisterTCPConnection_def Let_def)
    from set_update_cases [OF x [unfolded upd(1)]]
    show "case x of (k, c) \<Rightarrow> ac_ID (tcp_conn c) = k \<and> id_ok ?n ''tcp_'' k"
      using assms(1) new old upd(2) by (auto simp: tcp_ok_def)
  qed
qed

text \<open>\<open>ObserveUDPFlow\<close> drops the datagram's record, refreshes a known flow, or appends a new one.\<close>

lemma ObserveUDPFlow_cases:
  assumes "udp_ok m"
  obtains (dropped) "ObserveUDPFlow now info m = m"
  | (seen) f g where "map_of (udpFlows m) (udp_key info) = Some f" "ac_ID g = ac_ID f"
      "ObserveUDPFlow now info m = m\<lparr>udpFlows := AList.update (udp_key info) g (udpFlows m)\<rparr>"
  | (new) g where "map_of (udpFlows m) (udp_key info) = None"
      "ac_ID g = ''udp_'' @ FormatUint (nextConnectionID m + 1)"
      "int (length (udpFlows m)) < maxUDPFlows m"
      "ObserveUDPFlow now info m
         = m\<lparr>nextConnectionID := nextConnectionID m + 1, udpFlows := udpFlows m @ [(udp_key info, g)]\<rparr>"
proof (cases "map_of (udpFlows m) (udp_key info)")
  case (Some f)
  then have "(udp_key info, f) \<in> set (udpFlows m)" by (rule map_of_SomeD)
  with assms have "ac_ID f \<noteq> []" by (auto simp: udp_ok_def id_ok_def)
  with Some show ?thesis
    by (intro seen [of f]) (simp_all add: ObserveUDPFlow_def Let_def map_get_def)
next
  case None
  from assms have "0 < maxUDPFlows m" by (simp add: udp_ok_def maxTrackedUDPFlows_def)
  note eq = ObserveUDPFlow_def Let_def map_get_def zero_ActiveConnection_def None
  show ?thesis
  proof (cases "maxUDPFlows m \<le> int (length (udpFlows m))")
    case True
    with \<open>0 < maxUDPFlows m\<close> show ?thesis by (intro dropped) (simp add: eq)
  next
    case False
    with None show ?thesis by (intro new) (simp_all add: eq update_absent)
  qed
qed

lemma udp_ok_seen:
  assumes "udp_ok m" "map_of (udpFlows m) k = Some f" "ac_ID g = ac_ID f"
  shows "udp_ok (m\<lparr>udpFlows := AList.update k g (udpFlows m)\<rparr>)"
proof -
  let ?n = "m\<lparr>udpFlows := AList.update k g (udpFlows m)\<rparr>"
  have "id_ok m ''udp_'' (ac_ID f)" using assms(1,2) by (auto simp: udp_ok_def dest: map_of_SomeD)
  with assms(1,3) have "\<forall>(k, f) \<in> set (udpFlows ?n). id_ok m ''udp_'' (ac_ID f)"
    by (auto simp: udp_ok_def dest!: set_update_cases)
  moreover have "id_ok ?n = id_ok m" by (rule id_ok_cong) simp
  moreover have "length (udpFlows ?n) = length (udpFlows m)"
    using assms(2) by (simp add: length_alist_update_present)
  ultimately show ?thesis
    using assms(1) map_update_present [OF assms(2,3)] unfolding udp_ok_def by simp
qed

lemma udp_ok_new:
  assumes "udp_ok m" "nextConnectionID m \<noteq> - 1" "map_of (udpFlows m) k = None"
    and "ac_ID g = ''udp_'' @ FormatUint (nextConnectionID m + 1)" "int (length (udpFlows m)) < maxUDPFlows m"
  shows "udp_ok (m\<lparr>nextConnectionID := nextConnectionID m + 1, udpFlows := udpFlows m @ [(k, g)]\<rparr>)"
    (is "udp_ok ?n")
proof -
  have old: "id_ok m ''udp_'' (ac_ID f)" if "(k', f) \<in> set (udpFlows m)" for k' f
    using assms(1) that by (auto simp: udp_ok_def)
  have fresh: "ac_ID f \<noteq> ac_ID g" if "(k', f) \<in> set (udpFlows m)" for k' f
    using old [OF that] next_id_less(2) [OF assms(2)] by (auto simp: id_ok_def assms(4) FormatUint_def)
  have "id_ok ?n ''udp_'' (ac_ID g)"
    using next_id_less(2) [OF assms(2)] by (simp add: id_ok_def assms(4) FormatUint_def)
  moreover have "id_ok ?n ''udp_'' (ac_ID f)" if "(k', f) \<in> set (udpFlows m)" for k' f
    using old [OF that] next_id_less(1) [OF assms(2)] by (simp add: id_ok_mono)
  moreover have "k \<notin> fst ` set (udpFlows m)" using assms(3) by (simp add: map_of_eq_None_iff)
  ultimately show ?thesis
    using assms(1,5) fresh unfolding udp_ok_def go_map_ok_def by fastforce
qed

text \<open>Every operation but four only drops entries of the two tables.\<close>

definition shrinks :: "Manager \<Rightarrow> Manager \<Rightarrow> bool" where
  "shrinks m n \<longleftrightarrow>
     (\<exists>P Q. tcpConnections n = map_delete_where P (tcpConnections m) \<and> udpFlows n = map_delete_where Q (udpFlows m)) \<and>
     nextConnectionID n = nextConnectionID m \<and> maxUDPFlows n = maxUDPFlows m \<and>
     (go_map_ok (blockedInboundIPs m) \<longrightarrow> go_map_ok (blockedInboundIPs n))"

lemma delete_where_False: "map_delete_where (\<lambda>_ _. False) m = m"
  by (simp add: map_delete_where_def)

lemma delete_where_True: "map_delete_where (\<lambda>_ _. True) m = []"
  by (simp add: map_delete_where_def)

lemma delete_conv_where: "AList.delete k m = map_delete_where (\<lambda>k' _. k' = k) m"
  by (induction m) (auto simp: map_delete_where_def)

lemma shrinksI:
  assumes "tcpConnections n = map_delete_where P (tcpConnections m)" "udpFlows n = map_delete_where Q (udpFlows m)"
    and "nextConnectionID n = nextConnectionID m" "maxUDPFlows n = maxUDPFlows m"
    and "go_map_ok (blockedInboundIPs m) \<Longrightarrow> go_map_ok (blockedInboundIPs n)"
  shows "shrinks m n"
  using assms unfolding shrinks_def by blast

lemma conn_inv_shrinks:
  assumes "conn_inv m" "shrinks m n"
  shows "conn_inv n"
proof -
  from assms(2) obtain P Q where n: "tcpConnections n = map_delete_where P (tcpConnections m)"
    "udpFlows n = map_delete_where Q (udpFlows m)" "nextConnectionID n = nextConnectionID m"
    "maxUDPFlows n = maxUDPFlows m" "go_map_ok (blockedInboundIPs m) \<longrightarrow> go_map_ok (blockedInboundIPs n)"
    unfolding shrinks_def by blast
  have "tcp_ok n"
    using assms(1) by - (rule tcp_ok_shrink [of m]; simp add: n map_delete_where_subset conn_inv_def tcp_ok_def)
  moreover have "udp_ok n" using assms(1) udp_ok_shrink [OF _ n(2-4)] by (simp add: conn_inv_def)
  ultimately show ?thesis using assms(1) n(5) by (simp add: conn_inv_def)
qed

lemma shrinks_same:
  assumes "tcpConnections n = tcpConnections m" "udpFlows n = udpFlows m"
    and "nextConnectionID n = nextConnectionID m" "maxUDPFlows n = maxUDPFlows m"
    and "go_map_ok (blockedInboundIPs m) \<Longrightarrow> go_map_ok (blockedInboundIPs n)"
  shows "shrinks m n"
  using assms by (intro shrinksI [where P = "\<lambda>_ _. False" and Q = "\<lambda>_ _. False"]) (simp_all add: delete_where_False)

lemma shrinks_setBlocked: "shrinks m (setBlockedInboundIP b close m)"
  by (cases close) (rule shrinksI; simp add: setBlockedInboundIP_def Let_def delete_where_False;
    rule refl delete_where_False [symmetric])+

lemma shrinks_terminate: "shrinks m (snd (terminateConnections P (invalidateRuntime Q m)))"
  by (rule shrinksI; simp add: terminateConnections_def invalidateRuntime_def Let_def)

lemma shrinks_refl: "shrinks m m"
  by (rule shrinks_same) simp_all

lemma shrinks_ops:
  "shrinks m (SetUDPFlowTimeout d m)" "shrinks m (BindProxy b m)" "shrinks m (UnbindProxy l p m)"
  "shrinks m (UnblockInboundIP ip m)"
  by (rule shrinks_same; simp add: SetUDPFlowTimeout_def BindProxy_def UnbindProxy_def UnblockInboundIP_def Let_def)+

lemma shrinks_unregister: "shrinks m (UnregisterTCPConnection cid m)"
  by (cases "cid = []")
    (simp add: UnregisterTCPConnection_def shrinks_refl,
     rule shrinksI [where Q = "\<lambda>_ _. False"],
     simp_all add: UnregisterTCPConnection_def delete_conv_where delete_where_False)

lemma shrinks_terminate_one: "shrinks m (snd (TerminateTCPConnection cid m))"
  by (rule shrinksI [where Q = "\<lambda>_ _. False" and P = "\<lambda>k _. k = cid"])
    (simp_all add: TerminateTCPConnection_def delete_conv_where delete_where_False split: option.splits)

lemma shrinks_clear: "shrinks m (snd (clearTrackedConnections m))"
  by (rule shrinksI [where P = "\<lambda>_ _. True" and Q = "\<lambda>_ _. True"])
    (simp_all add: clearTrackedConnections_def delete_where_True)

lemma shrinks_cleanup: "shrinks m (snd (cleanupExpiredUDPFlows now m))"
  by (rule shrinksI [where P = "\<lambda>_ _. False"])
    (simp_all add: cleanupExpiredUDPFlows_def Let_def delete_where_False)

lemma conn_inv_SetLeaseClientAddress:
  assumes "conn_inv m"
  shows "conn_inv (SetLeaseClientAddress l a m)"
proof -
  let ?n = "SetLeaseClientAddress l a m"
  have "id_ok ?n = id_ok m" by (rule id_ok_cong) (simp add: SetLeaseClientAddress_def Let_def)
  moreover have "map (ac_ID \<circ> snd) (udpFlows ?n) = map (ac_ID \<circ> snd) (udpFlows m)"
    by (auto simp: SetLeaseClientAddress_def Let_def map_rewrite_def)
  ultimately show ?thesis
    using assms unfolding conn_inv_def tcp_ok_def udp_ok_def
    by (auto simp: SetLeaseClientAddress_def Let_def) (auto simp: map_rewrite_def)
qed

lemma conn_inv_ObserveUDPFlow:
  assumes "conn_inv m" "nextConnectionID m \<noteq> - 1"
  shows "conn_inv (ObserveUDPFlow now info m)"
proof -
  from assms(1) have ok: "udp_ok m" "tcp_ok m" "go_map_ok (blockedInboundIPs m)" by (simp_all add: conn_inv_def)
  from ok(1) show ?thesis
  proof (cases rule: ObserveUDPFlow_cases [where now = now and info = info])
    case dropped
    then show ?thesis using assms(1) by simp
  next
    case (seen f g)
    then show ?thesis
      using udp_ok_seen [OF ok(1) seen(1,2)] ok by (auto simp: conn_inv_def intro: tcp_ok_same)
  next
    case (new g)
    have "tcp_ok (ObserveUDPFlow now info m)"
      using ok(2) next_id_less(1) [OF assms(2)]
      unfolding new(4) tcp_ok_def by (auto intro: id_ok_mono)
    then show ?thesis
      using udp_ok_new [OF ok(1) assms(2) new(1-3)] ok(3) by (simp add: conn_inv_def new(4))
  qed
qed

lemma conn_inv_RegisterTCPConnection:
  assumes "conn_inv m" "nextConnectionID m \<noteq> - 1"
  shows "conn_inv (snd (RegisterTCPConnection now info u w m))"
proof -
  let ?n = "snd (RegisterTCPConnection now info u w m)"
  have "udpFlows ?n = udpFlows m" "maxUDPFlows ?n = maxUDPFlows m" "blockedInboundIPs ?n = blockedInboundIPs m"
    "nextConnectionID ?n = nextConnectionID m + 1"
    by (simp_all add: RegisterTCPConnection_def Let_def)
  moreover have "udp_ok ?n"
    using assms next_id_less(1) [OF assms(2)] calculation
    unfolding conn_inv_def udp_ok_def by (auto intro: id_ok_mono)
  ultimately show ?thesis
    using assms tcp_ok_RegisterTCPConnection [OF _ assms(2)] by (simp add: conn_inv_def)
qed

lemma shrinks_kill:
  "shrinks m (snd (TerminateConnectionsForUser u m))" "shrinks m (snd (TerminateConnectionsForToken t m))"
  "shrinks m (snd (TerminateConnectionsForClient t c m))" "shrinks m (snd (TerminateConnectionsForLease l m))"
  by (simp_all add: TerminateConnectionsForUser_def TerminateConnectionsForToken_def
      TerminateConnectionsForClient_def TerminateConnectionsForLease_def Let_def shrinks_refl shrinks_terminate)

lemmas shrinks_all = shrinks_ops shrinks_unregister shrinks_terminate_one shrinks_kill shrinks_clear
  shrinks_cleanup shrinks_setBlocked

lemma shrinks_exec:
  "(\<exists>l a. op = OpSetAddress l a) \<or> (\<exists>now info u w. op = OpRegister now info u w)
    \<or> (\<exists>now info. op = OpObserve now info) \<or> shrinks m (conn_exec op m)"
  by (cases op) (simp_all add: shrinks_all BlockInboundIP_def SetBlockedInboundIP_def
      EnforceBlockedInboundIP_def Let_def)

lemma conn_inv_exec: "conn_inv m \<Longrightarrow> nextConnectionID m \<noteq> - 1 \<Longrightarrow> conn_inv (conn_exec op m)"
  using shrinks_exec [of op m]
  by (auto intro: conn_inv_shrinks conn_inv_SetLeaseClientAddress conn_inv_RegisterTCPConnection
      conn_inv_ObserveUDPFlow)

lemma conn_inv_init: "conn_init m \<Longrightarrow> conn_inv m"
  by (auto simp: conn_init_def conn_inv_def tcp_ok_def udp_ok_def NewManager_def maxTrackedUDPFlows_def)

interpretation conn: inductive_invariant conn_init conn_step conn_inv
  by unfold_locales (auto simp: conn_step_simps intro: conn_inv_init conn_inv_exec)

section \<open>What the operations do to the live connections\<close>

definition live :: "Manager \<Rightarrow> ActiveConnection list" where
  "live m = map (tcp_conn \<circ> snd) (tcpConnections m) @ map snd (udpFlows m)"

text \<open>
  The contract of a termination: exactly the matching connections go, their handles are closed,
  the matching leases are unusable and nothing else changes.
\<close>

definition severed :: "(ActiveConnection \<Rightarrow> bool) \<Rightarrow> (RuntimeLease \<Rightarrow> bool) \<Rightarrow> Manager \<Rightarrow> nat \<times> Manager \<Rightarrow> bool" where
  "severed match dead m r \<longleftrightarrow>
     fst r = length (filter match (live m)) \<and>
     live (snd r) = filter (\<lambda>c. \<not> match c) (live m) \<and>
     closedConns (snd r) = closedConns m @
       concat (map close_handles (filter (\<lambda>c. match (tcp_conn c)) (map snd (tcpConnections m)))) \<and>
     (\<forall>lid. dead (lease_of m lid) \<longrightarrow> map_has (runtimeLeases m) lid \<longrightarrow>
        (\<forall>hash. \<not> snd (ExistingRuntime (snd r) lid hash)) \<and>
        (\<forall>user. lease_id_of user = lid \<longrightarrow> \<not> Begin (snd r) user)) \<and>
     (\<forall>lid. \<not> dead (lease_of m lid) \<longrightarrow> map_of (runtimeLeases (snd r)) lid = map_of (runtimeLeases m) lid) \<and>
     registeredProxies (snd r) = registeredProxies m \<and> blockedInboundIPs (snd r) = blockedInboundIPs m"

lemma filter_live: "filter P (live m) = map (tcp_conn \<circ> snd) (filter (\<lambda>(_, c). P (tcp_conn c)) (tcpConnections m))
    @ map snd (filter (\<lambda>(_, f). P f) (udpFlows m))"
  by (simp add: live_def filter_map comp_def case_prod_unfold)

lemma invalidate_fields [simp]:
  "tcpConnections (invalidateRuntime Q m) = tcpConnections m" "udpFlows (invalidateRuntime Q m) = udpFlows m"
  "closedConns (invalidateRuntime Q m) = closedConns m" "blockedInboundIPs (invalidateRuntime Q m) = blockedInboundIPs m"
  "registeredProxies (invalidateRuntime Q m) = registeredProxies m" "live (invalidateRuntime Q m) = live m"
  by (simp_all add: invalidateRuntime_def live_def)

lemma lease_of_invalidated:
  "map_has (runtimeLeases m) lid \<Longrightarrow> lease_of (invalidateRuntime Q m) lid =
     (let l = lease_of m lid in if Q l then l\<lparr>lease_Status := ''revoked''\<rparr> else l)"
  by (auto simp: lease_of_def invalidateRuntime_def map_get_def map_has_def Let_def split: option.splits)

lemma terminate_fields:
  "runtimeLeases (snd (terminateConnections P m)) = runtimeLeases m"
  "registeredProxies (snd (terminateConnections P m)) = registeredProxies m"
  "blockedInboundIPs (snd (terminateConnections P m)) = blockedInboundIPs m"
  "live (snd (terminateConnections P m)) = filter (\<lambda>c. \<not> P c) (live m)"
  "fst (terminateConnections P m) = length (filter P (live m))"
  "closedConns (snd (terminateConnections P m)) = closedConns m @
     concat (map close_handles (filter (\<lambda>c. P (tcp_conn c)) (map snd (tcpConnections m))))"
  by (simp_all add: terminateConnections_def Let_def filter_live map_count_where_def)
     (simp_all add: live_def map_delete_where_def filter_map comp_def case_prod_unfold)

lemma severed_terminate: "severed P Q m (terminateConnections P (invalidateRuntime Q m))"
proof -
  let ?n = "snd (terminateConnections P (invalidateRuntime Q m))"
  have lo: "lease_of ?n = lease_of (invalidateRuntime Q m)" by (simp add: lease_of_def terminate_fields fun_eq_iff)
  have dead: "lease_Status (lease_of ?n lid) = ''revoked''"
    if "Q (lease_of m lid)" "map_has (runtimeLeases m) lid" for lid
    using that by (simp add: lo lease_of_invalidated Let_def)
  have keep: "map_of (runtimeLeases ?n) lid = map_of (runtimeLeases m) lid" if "\<not> Q (lease_of m lid)" for lid
    using that by (auto simp: terminate_fields invalidateRuntime_def lease_of_def map_get_def split: option.splits)
  show ?thesis
    unfolding severed_def
    by (simp add: terminate_fields(2-6) keep ExistingRuntime_def Begin_def Let_def dead)
qed

text \<open>
  C7. In every reachable state each live connection has its own identifier, so an operator's
  request to cut one connection can only ever hit that one, and the table of UDP flows never
  exceeds its bound of 32768 entries, however many sources send datagrams.
\<close>

theorem live_connections_wf:
  assumes "reach conn_init conn_step m"
  shows "distinct (map ac_ID (live m)) \<and> length (udpFlows m) \<le> 32768"
proof -
  have inv: "tcp_ok m" "udp_ok m" using conn.reach_inv [OF assms] by (simp_all add: conn_inv_def)
  have keys: "map (ac_ID \<circ> (tcp_conn \<circ> snd)) (tcpConnections m) = map fst (tcpConnections m)"
    using inv(1) by (auto simp: tcp_ok_def)
  have "ac_ID (tcp_conn c) \<noteq> ac_ID f" if "(k, c) \<in> set (tcpConnections m)" "(l, f) \<in> set (udpFlows m)" for k c l f
    using that inv unfolding tcp_ok_def udp_ok_def id_ok_def by fastforce
  then have "distinct (map ac_ID (live m))"
    using inv unfolding live_def map_append map_map keys
    by (auto simp: tcp_ok_def udp_ok_def go_map_ok_def comp_def)
  with inv(2) show ?thesis by (simp add: udp_ok_def maxTrackedUDPFlows_def)
qed

theorem live_connections_wf_witness:
  "\<exists>m. reach conn_init conn_step m \<and> length (live m) = 2 \<and> distinct (map ac_ID (live m))"
proof -
  let ?info = "\<lparr>ci_LeaseID = ''L1'', ci_ProxyName = ''web'', ci_ProxyType = ''tcp'',
     ci_LocalAddr = ''1.2.3.4:80'', ci_RemoteAddr = ''9.9.9.9:4000''\<rparr>"
  let ?m1 = "conn_exec (OpRegister 5 ?info 1 (Some 2)) (NewManager 0)"
  let ?m2 = "conn_exec (OpObserve 6 ?info) ?m1"
  have "reach conn_init conn_step (NewManager 0)" by (rule reach_init) (auto simp: conn_init_def)
  then have "reach conn_init conn_step ?m1"
    by (rule reach_step) (rule conn_step.conn_op, simp add: NewManager_def)
  then have r: "reach conn_init conn_step ?m2"
    by (rule reach_step) (rule conn_step.conn_op, code_simp)
  moreover have "length (live ?m2) = 2" by code_simp
  ultimately show ?thesis using live_connections_wf [OF r] by blast
qed

text \<open>
  C8. Termination by user, by token, by client and by lease each does what it says: the number
  returned is the number of connections cut, exactly the matching TCP connections and UDP flows
  disappear and their sockets are closed, every matching runtime lease stops admitting logins and
  proxies on this node, and other leases, registrations and bans are untouched. A non-positive or
  empty key changes nothing.
\<close>

theorem terminations_exact:
  "(0 < uid \<longrightarrow> severed (\<lambda>c. ac_UserID c = uid) (\<lambda>l. lease_UserID l = uid) m (TerminateConnectionsForUser uid m)) \<and>
   (0 < tok \<longrightarrow> severed (\<lambda>c. ac_TokenID c = tok) (\<lambda>l. lease_TokenID l = tok) m (TerminateConnectionsForToken tok m)) \<and>
   (0 < tok \<and> TrimSpace cid \<noteq> [] \<longrightarrow>
      severed (\<lambda>c. ac_TokenID c = tok \<and> ac_ClientID c = TrimSpace cid)
        (\<lambda>l. lease_TokenID l = tok \<and> lease_ClientID l = TrimSpace cid) m (TerminateConnectionsForClient tok cid m)) \<and>
   (lid \<noteq> [] \<longrightarrow> severed (\<lambda>c. ac_LeaseID c = lid) (\<lambda>l. lease_LeaseID l = lid) m (TerminateConnectionsForLease lid m)) \<and>
   (uid \<le> 0 \<longrightarrow> TerminateConnectionsForUser uid m = (0, m)) \<and>
   (tok \<le> 0 \<longrightarrow> TerminateConnectionsForToken tok m = (0, m)) \<and>
   (tok \<le> 0 \<or> TrimSpace cid = [] \<longrightarrow> TerminateConnectionsForClient tok cid m = (0, m)) \<and>
   TerminateConnectionsForLease [] m = (0, m)"
  by (simp add: TerminateConnectionsForUser_def TerminateConnectionsForToken_def
      TerminateConnectionsForClient_def TerminateConnectionsForLease_def Let_def severed_terminate)

text \<open>A node with one live connection, of user 3 through lease L1.\<close>

definition demo_info :: "string \<Rightarrow> ConnectionInfo" where
  "demo_info addr = \<lparr>ci_LeaseID = ''L1'', ci_ProxyName = ''web'', ci_ProxyType = ''tcp'',
     ci_LocalAddr = ''1.2.3.4:80'', ci_RemoteAddr = addr\<rparr>"

definition demo_binding :: ProxyBinding where
  "demo_binding = \<lparr>pb_UserID = 3, pb_TokenID = 7, pb_ClientID = ''c1'', pb_ClientAddr = [], pb_LeaseID = ''L1'',
     pb_ProxyName = ''web'', pb_ProxyType = ''tcp'', pb_RemotePort = 8080\<rparr>"

definition demo_live :: Manager where
  "demo_live = snd (RegisterTCPConnection 5 (demo_info ''9.9.9.9:4000'') 1 (Some 2)
     (BindProxy demo_binding (mgr demo_open)))"

theorem terminations_exact_witness:
  "severed (\<lambda>c. ac_UserID c = 3) (\<lambda>l. lease_UserID l = 3) demo_live (TerminateConnectionsForUser 3 demo_live)
   \<and> fst (TerminateConnectionsForUser 3 demo_live) = 1 \<and> TerminateConnectionsForToken 0 demo_live = (0, demo_live)"
proof -
  have "fst (TerminateConnectionsForUser 3 demo_live) = 1" by code_simp
  then show ?thesis
    using terminations_exact [of 3 demo_live 0 "[]" "''L1''"] by simp
qed

section \<open>Inbound bans\<close>


















section \<open>Expiry of UDP flows\<close>

text \<open>
  C11. The cleanup loop is invisible to readers: it removes exactly the flows that have been silent
  for longer than the configured timeout, returns their number, leaves the listing of connections
  at that moment unchanged and touches no TCP connection.
\<close>

theorem udp_cleanup_exact:
  "let m' = snd (cleanupExpiredUDPFlows now m) in
    ListConnections now (udpFlowTimeout m) m' = ListConnections now (udpFlowTimeout m) m \<and>
    tcpConnections m' = tcpConnections m \<and>
    fst (cleanupExpiredUDPFlows now m) + length (udpFlows m') = length (udpFlows m) \<and>
    set (map snd (udpFlows m')) = {f \<in> set (map snd (udpFlows m)). time_sub now (ac_LastSeenAt f) \<le>
      (if udpFlowTimeout m \<le> 0 then defaultUDPFlowTimeout else udpFlowTimeout m)}"
proof -
  let ?m = "snd (cleanupExpiredUDPFlows now m)"
  let ?dead = "\<lambda>_ f. (if udpFlowTimeout m \<le> 0 then defaultUDPFlowTimeout else udpFlowTimeout m) < time_sub now (ac_LastSeenAt f)"
  have flows: "udpFlows ?m = map_delete_where ?dead (udpFlows m)" "tcpConnections ?m = tcpConnections m"
    "fst (cleanupExpiredUDPFlows now m) = map_count_where ?dead (udpFlows m)"
    by (simp_all add: cleanupExpiredUDPFlows_def Let_def)
  have "filter (\<lambda>f. \<not> ?dead () f) (map snd (udpFlows ?m)) = filter (\<lambda>f. \<not> ?dead () f) (map snd (udpFlows m))"
    unfolding flows(1) map_delete_where_def by (simp add: filter_map comp_def case_prod_unfold)
  then have "ListConnections now (udpFlowTimeout m) ?m = ListConnections now (udpFlowTimeout m) m"
    by (simp add: ListConnections_def Let_def flows(2))
  moreover have "set (map snd (udpFlows ?m)) = {f \<in> set (map snd (udpFlows m)). \<not> ?dead () f}"
    by (force simp: flows(1) set_map_delete_where)
  ultimately show ?thesis
    using length_map_delete_where [of ?dead "udpFlows m"] flows by (simp add: not_less Let_def)
qed

section \<open>Clients are kept apart\<close>

lemma clientKey_inj: "clientKey t c = clientKey t' c' \<longleftrightarrow> t = t' \<and> c = c'"
  by (simp add: clientKey_def sep_append_inj)

text \<open>
  C12. Ending the drain of one client cannot end the drain or drop the lease of another: the string
  key built from token number and client name is unambiguous, also for names that contain colons.
\<close>

theorem drain_isolated:
  assumes "go_map_ok (runtimeLeases m)" "(tok', cid') \<noteq> (tok, cid)"
  shows "ClientDraining (FinishClientDrain tok cid m) tok' cid' = ClientDraining m tok' cid' \<and>
    (map_of (runtimeLeases m) lid = Some l \<and> lease_TokenID l = tok' \<and> lease_ClientID l = cid' \<longrightarrow>
       map_of (runtimeLeases (FinishClientDrain tok cid m)) lid = Some l)"
  using assms
  by (auto simp: FinishClientDrain_def Let_def ClientDraining_def map_of_delete_where lease_key_def clientKey_inj)

theorem drain_isolated_witness:
  "ClientDraining (FinishClientDrain 7 ''c2'' (mgr demo_fault)) 7 ''c1''
   \<and> map_has (runtimeLeases (FinishClientDrain 7 ''c2'' (mgr demo_fault))) ''L1''"
proof -
  have "go_map_ok (runtimeLeases (mgr demo_fault))" "ClientDraining (mgr demo_fault) 7 ''c1''"
    "map_of (runtimeLeases (mgr demo_fault)) ''L1'' = Some demo_lease" "lease_TokenID demo_lease = 7"
    "lease_ClientID demo_lease = ''c1''" by code_simp+
  then show ?thesis
    using drain_isolated [of "mgr demo_fault" 7 "''c1''" 7 "''c2''" "''L1''" demo_lease] by (simp add: map_has_def)
qed

end
