(* ===== verification/Dpi_Engine.thy ===== *)
theory Dpi_Engine
  imports Dpi_Types Go_Strings "HOL-Library.Monad_Syntax"
begin

text \<open>
  \<open>internal/dpiengine/composite.go\<close>: the packet inspector. Every index and slice expression of the
  source is a checked access that yields \<open>None\<close> where Go would panic, so that a result \<open>Some x\<close> means
  that the code ran through. An empty string result is the empty list.
\<close>

section \<open>Byte access\<close>

definition byte_at :: "byte list \<Rightarrow> nat \<Rightarrow> byte option" where
  "byte_at data i = (if i < length data then Some (data ! i) else None)"

definition slice :: "byte list \<Rightarrow> nat \<Rightarrow> nat \<Rightarrow> byte list option" where
  "slice data i j = (if i \<le> j \<and> j \<le> length data then Some (take (j - i) (drop i data)) else None)"

definition bytes_of :: "string \<Rightarrow> byte list" where
  "bytes_of s = map (\<lambda>c. of_nat (byte_val c)) s"

definition has_prefix :: "byte list \<Rightarrow> byte list \<Rightarrow> bool" where
  "has_prefix data p \<longleftrightarrow> take (length p) data = p"

text \<open>\<open>bytes.Index\<close>.\<close>

fun bytes_index :: "byte list \<Rightarrow> byte list \<Rightarrow> nat option" where
  "bytes_index [] p = (if p = [] then Some 0 else None)"
| "bytes_index (x # xs) p = (if has_prefix (x # xs) p then Some 0 else map_option Suc (bytes_index xs p))"

text \<open>\<open>binary.BigEndian.Uint16\<close> and \<open>Uint32\<close>.\<close>

definition Uint16 :: "byte list \<Rightarrow> nat option" where
  "Uint16 b = (case b of x # y # _ \<Rightarrow> Some (unat x * 256 + unat y) | _ \<Rightarrow> None)"

definition Uint32 :: "byte list \<Rightarrow> nat option" where
  "Uint32 b = (case b of w # x # y # z # _ \<Rightarrow>
       Some (((unat w * 256 + unat x) * 256 + unat y) * 256 + unat z) | _ \<Rightarrow> None)"

definition uint16_at :: "byte list \<Rightarrow> nat \<Rightarrow> nat option" where
  "uint16_at data i = do { b \<leftarrow> slice data i (i + 2); Uint16 b }"

section \<open>HTTP\<close>

definition equalFoldByte :: "byte \<Rightarrow> byte \<Rightarrow> bool" where
  "equalFoldByte actual expectedLower =
     ((if 0x41 \<le> actual \<and> actual \<le> 0x5A then actual + 0x20 else actual) = expectedLower)"

definition looksLikeHTTP :: "byte list \<Rightarrow> bool" where
  "looksLikeHTTP data =
     list_ex (\<lambda>p. has_prefix data (bytes_of p))
       [''GET '', ''POST '', ''PUT '', ''HEAD '', ''DELETE '', ''PATCH '', ''OPTIONS '', ''CONNECT '']"

text \<open>The scanning loops: \<open>lineEnd\<close>, \<open>valueEnd\<close> and the skipping of blanks after \<open>Host:\<close>.\<close>

function scan_while :: "(byte \<Rightarrow> bool) \<Rightarrow> byte list \<Rightarrow> nat \<Rightarrow> nat \<Rightarrow> nat option" where
  "scan_while P data limit i =
     (if i < limit then
        do { b \<leftarrow> byte_at data i; if P b then scan_while P data limit (i + 1) else Some i }
      else Some i)"
  by pat_completeness auto
termination by (relation "measure (\<lambda>(_, _, limit, i). limit - i)") auto

declare scan_while.simps [simp del]

definition line_byte :: "byte \<Rightarrow> bool" where
  "line_byte b \<longleftrightarrow> b \<noteq> 0x0D \<and> b \<noteq> 0x0A"

definition blank_byte :: "byte \<Rightarrow> bool" where
  "blank_byte b \<longleftrightarrow> b = 0x20 \<or> b = 0x09"

definition host_byte :: "byte \<Rightarrow> bool" where
  "host_byte b \<longleftrightarrow> \<not> (b = 0x20 \<or> b = 0x09 \<or> b = 0x3A)"

text \<open>
  \<open>hostValueStart\<close>: the outer option is the panic, the inner \<open>None\<close> is the result \<open>-1\<close>. The bytes are
  read one after the other, each only if the previous ones matched.
\<close>

fun match_fold :: "byte list \<Rightarrow> nat \<Rightarrow> byte list \<Rightarrow> bool option" where
  "match_fold data i [] = Some True"
| "match_fold data i (e # es) =
     do { b \<leftarrow> byte_at data i; if equalFoldByte b e then match_fold data (i + 1) es else Some False }"

definition hostValueStart :: "byte list \<Rightarrow> nat \<Rightarrow> nat \<Rightarrow> nat option option" where
  "hostValueStart data lineStart lineEnd =
     (if lineEnd < lineStart + 5 then Some None
      else do {
        word \<leftarrow> match_fold data lineStart (bytes_of ''host'');
        if \<not> word then Some None
        else do {
          colon \<leftarrow> byte_at data (lineStart + 4);
          if colon \<noteq> 0x3A then Some None
          else map_option Some (scan_while blank_byte data lineEnd (lineStart + 5))
        }
      })"

lemma scan_while_ge: "scan_while P data limit i = Some j \<Longrightarrow> i \<le> j"
proof (induction P data limit i rule: scan_while.induct)
  case (1 P data limit i)
  then show ?case
    by (subst (asm) (2) scan_while.simps) (fastforce split: if_splits bind_splits)
qed

function host_lines :: "byte list \<Rightarrow> nat \<Rightarrow> nat \<Rightarrow> byte list option" where
  "host_lines data limit lineStart =
     (if lineStart < limit then
        do {
          lineEnd \<leftarrow> scan_while line_byte data limit lineStart;
          value \<leftarrow> hostValueStart data lineStart lineEnd;
          case value of
            Some valueStart \<Rightarrow> do {
              valueEnd \<leftarrow> scan_while host_byte data lineEnd valueStart;
              if valueStart < valueEnd then slice data valueStart valueEnd else Some []
            }
          | None \<Rightarrow>
              if lineEnd + 1 < limit then do {
                b \<leftarrow> byte_at data lineEnd;
                if b = 0x0D then do {
                  c \<leftarrow> byte_at data (lineEnd + 1);
                  host_lines data limit (if c = 0x0A then lineEnd + 2 else lineEnd + 1)
                } else host_lines data limit (lineEnd + 1)
              } else host_lines data limit (lineEnd + 1)
        }
      else Some [])"
  by pat_completeness auto
termination
  by (relation "measure (\<lambda>(_, limit, lineStart). limit - lineStart)") (auto dest!: scan_while_ge)

declare host_lines.simps [simp del]

definition ParseHTTPHost :: "byte list \<Rightarrow> byte list option" where
  "ParseHTTPHost data =
     (if length data < 16 \<or> \<not> looksLikeHTTP data then Some []
      else let limit = min (length data) 4096;
               limit = (case bytes_index (take limit data) [0x0D, 0x0A, 0x0D, 0x0A] of
                          Some stop \<Rightarrow> stop | None \<Rightarrow> limit)
           in host_lines data limit 0)"

section \<open>TLS\<close>

definition parseSNIExtension :: "byte list \<Rightarrow> byte list option" where
  "parseSNIExtension data =
     (if length data < 5 then Some []
      else do {
        listLen \<leftarrow> uint16_at data 0;
        let stop = min (2 + listLen) (length data);
        if stop < 2 + 3 then Some []
        else do {
          nameType \<leftarrow> byte_at data 2;
          nameLen \<leftarrow> uint16_at data 3;
          if nameType = 0x00 \<and> 0 < nameLen \<and> 5 + nameLen \<le> stop then slice data 5 (5 + nameLen)
          else Some []
        }
      })"

text \<open>The loop over the extensions of a ClientHello.\<close>

function sni_extensions :: "byte list \<Rightarrow> nat \<Rightarrow> nat \<Rightarrow> byte list option" where
  "sni_extensions record stop pos =
     (if pos + 4 \<le> stop then
        do {
          extType \<leftarrow> uint16_at record pos;
          extDataLen \<leftarrow> uint16_at record (pos + 2);
          if stop < pos + 4 + extDataLen then Some []
          else if extType = 0 then
            do { d \<leftarrow> slice record (pos + 4) (pos + 4 + extDataLen); parseSNIExtension d }
          else sni_extensions record stop (pos + 4 + extDataLen)
        }
      else Some [])"
  by pat_completeness auto
termination by (relation "measure (\<lambda>(_, stop, pos). stop - pos)") auto

declare sni_extensions.simps [simp del]

definition parseClientHelloRecord :: "byte list \<Rightarrow> byte list option" where
  "parseClientHelloRecord record =
     (if length record < 4 then Some []
      else do {
        kind \<leftarrow> byte_at record 0;
        if kind \<noteq> 0x01 then Some []
        else do {
          h1 \<leftarrow> byte_at record 1;
          h2 \<leftarrow> byte_at record 2;
          h3 \<leftarrow> byte_at record 3;
          let hsLen = unat h1 * 65536 + unat h2 * 256 + unat h3;
          if length record - 4 < hsLen then Some []
          else if 4 + hsLen < 4 + 34 then Some []
          else if length record \<le> 38 then Some []
          else do {
            sidLen \<leftarrow> byte_at record 38;
            let pos = 39 + unat sidLen;
            if length record < pos + 2 then Some []
            else do {
              csLen \<leftarrow> uint16_at record pos;
              let pos = pos + 2 + csLen;
              if length record \<le> pos then Some []
              else do {
                compLen \<leftarrow> byte_at record pos;
                let pos = pos + 1 + unat compLen;
                if length record < pos + 2 then Some []
                else do {
                  extLen \<leftarrow> uint16_at record pos;
                  sni_extensions record (min (pos + 2 + extLen) (length record)) (pos + 2)
                }
              }
            }
          }
        }
      })"

text \<open>The loop over the records in the buffer.\<close>

function tls_records :: "byte list \<Rightarrow> nat \<Rightarrow> byte list option" where
  "tls_records buffer offset =
     (if offset + 5 \<le> length buffer then
        do {
          b \<leftarrow> byte_at buffer offset;
          if b \<noteq> 0x16 then tls_records buffer (offset + 1)
          else do {
            version \<leftarrow> uint16_at buffer (offset + 1);
            if version < 0x0301 then tls_records buffer (offset + 1)
            else do {
              recordLen \<leftarrow> uint16_at buffer (offset + 3);
              if recordLen = 0 \<or> 16384 < recordLen then tls_records buffer (offset + 1)
              else if length buffer < offset + 5 + recordLen then Some []
              else do {
                record \<leftarrow> slice buffer (offset + 5) (offset + 5 + recordLen);
                sni \<leftarrow> parseClientHelloRecord record;
                if sni \<noteq> [] then Some sni else tls_records buffer (offset + 5 + recordLen)
              }
            }
          }
        }
      else Some [])"
  by pat_completeness auto
termination by (relation "measure (\<lambda>(buffer, offset). length buffer - offset)") auto

declare tls_records.simps [simp del]

definition parseTLSClientHelloSNI :: "byte list \<Rightarrow> byte list option" where
  "parseTLSClientHelloSNI buffer = tls_records buffer 0"

record flowState =
  tlsBuffer :: "byte list"
  inspectedBytes :: int
  ssPackets :: int
  ssDetected :: bool
  lastSeen :: go_time

definition new_flowState :: flowState where
  "new_flowState = \<lparr>tlsBuffer = [], inspectedBytes = 0, ssPackets = 0, ssDetected = False, lastSeen = 0\<rparr>"

definition maxInspectBytes :: nat where
  "maxInspectBytes = 8192"

definition maxFlowStates :: nat where
  "maxFlowStates = 8192"

definition flowStateTTL :: duration where
  "flowStateTTL = 180 * second"

definition feedTLSClientHello :: "byte list \<Rightarrow> flowState \<Rightarrow> (byte list \<times> flowState) option" where
  "feedTLSClientHello data st =
     (if data = [] then Some ([], st)
      else do {
        b \<leftarrow> byte_at data 0;
        if tlsBuffer st = [] \<and> b \<noteq> 0x16 then Some ([], st)
        else if length (tlsBuffer st) + length data > maxInspectBytes then Some ([], st\<lparr>tlsBuffer := []\<rparr>)
        else do {
          let st = st\<lparr>tlsBuffer := tlsBuffer st @ data\<rparr>;
          sni \<leftarrow> parseTLSClientHelloSNI (tlsBuffer st);
          if sni \<noteq> [] then Some (sni, st\<lparr>tlsBuffer := []\<rparr>) else Some ([], st)
        }
      })"

section \<open>QUIC and the encrypted-tunnel heuristic\<close>

unbundle bit_operations_syntax

definition IsQUICInitial :: "byte list \<Rightarrow> bool option" where
  "IsQUICInitial data =
     (if length data < 20 then Some False
      else do {
        first \<leftarrow> byte_at data 0;
        if first AND 0x80 = 0 \<or> first AND 0x40 = 0 then Some False
        else if drop_bit 4 (first AND 0x30) \<noteq> 0 then Some False
        else do { v \<leftarrow> slice data 1 5; version \<leftarrow> Uint32 v; Some (version = 1) }
      })"

lemma unat_drop_bit_less: "v \<noteq> 0 \<Longrightarrow> unat (drop_bit 1 v) < unat (v :: byte)"
  using unat_gt_0 [of v] by (simp add: drop_bit_Suc unat_div)

function bits_loop :: "byte \<Rightarrow> nat \<Rightarrow> nat" where
  "bits_loop v count = (if v \<noteq> 0 then bits_loop (drop_bit 1 v) (count + unat (v AND 1)) else count)"
  by pat_completeness auto

termination by (relation "measure (\<lambda>(v, _). unat v)") (auto dest: unat_drop_bit_less)

declare bits_loop.simps [simp del]

definition bitsInByte :: "byte \<Rightarrow> nat" where
  "bitsInByte b = bits_loop b 0"

text \<open>
  The float comparisons of the source are comparisons of exact fractions here. A correctly rounded
  quotient of two integers below \<open>2 ^ 40\<close> lies on the same side of the rounded constants 3.4, 4.6
  and 0.3 as the exact quotient does of 17/5, 23/5 and 3/10, and the same holds of the percentage
  against 35, so the two agree on every payload a Go slice of that length can hold.
\<close>

definition popcount_total :: "byte list \<Rightarrow> nat" where
  "popcount_total data = fold (\<lambda>b total. total + bitsInByte b) data 0"

definition printable_count :: "byte list \<Rightarrow> nat" where
  "printable_count data = fold (\<lambda>b count. if 0x20 \<le> b \<and> b \<le> 0x7e then count + 1 else count) data 0"

definition calcAvgPopcount_between :: "byte list \<Rightarrow> bool" where
  "calcAvgPopcount_between data \<longleftrightarrow>
     17 * length data \<le> 5 * popcount_total data \<and> 5 * popcount_total data \<le> 23 * length data"

definition calcPrintableRatio_le :: "byte list \<Rightarrow> bool" where
  "calcPrintableRatio_le data \<longleftrightarrow> 100 * printable_count data \<le> 35 * length data"

definition byte_counter :: "byte list \<Rightarrow> nat list" where
  "byte_counter data = fold (\<lambda>b c. c[unat b := c ! unat b + 1]) data (replicate 256 0)"

definition isUniformDistribution :: "byte list \<Rightarrow> bool" where
  "isUniformDistribution data =
     (if length data < 20 then False
      else let unique = length (filter (\<lambda>count. 0 < count) (byte_counter data))
           in 15 \<le> unique \<and> 3 * length data < 10 * unique)"

definition hasProtocolStructure :: "byte list \<Rightarrow> bool option" where
  "hasProtocolStructure data =
     (if length data < 4 then Some False
      else do {
        d0 \<leftarrow> byte_at data 0;
        d1 \<leftarrow> byte_at data 1;
        d2 \<leftarrow> byte_at data 2;
        d3 \<leftarrow> byte_at data 3;
        if 2 \<le> length (filter (\<lambda>d. d = d0) [d1, d2, d3]) then Some True
        else Some (d1 = d0 + 1 \<and> d2 = d1 + 1)
      })"

definition isKnownProtocol :: "byte list \<Rightarrow> bool option" where
  "isKnownProtocol data =
     (if length data < 5 then Some False
      else if has_prefix data (bytes_of ''SSH-'') then Some True
      else do {
        d0 \<leftarrow> byte_at data 0;
        d1 \<leftarrow> byte_at data 1;
        d4 \<leftarrow> byte_at data 4;
        if d0 = 0x03 \<and> d1 = 0x00 then Some True
        else if has_prefix data [0x4a, 0x00, 0x00, 0x00, 0x0a] then Some True
        else if 8 \<le> length data \<and> d0 = 0x12 \<and> d1 = 0x01 then Some True
        else Some (8 \<le> length data \<and> d0 = 0x00 \<and> d4 = 0x00)
      })"

definition looksLikeTLS :: "byte list \<Rightarrow> bool option" where
  "looksLikeTLS data =
     (if length data < 3 then Some False
      else do {
        d0 \<leftarrow> byte_at data 0;
        d1 \<leftarrow> byte_at data 1;
        d2 \<leftarrow> byte_at data 2;
        Some (0x14 \<le> d0 \<and> d0 \<le> 0x17 \<and> d1 = 0x03 \<and> d2 \<le> 0x04)
      })"

definition isLikelyEncryptedTunnel :: "byte list \<Rightarrow> bool option" where
  "isLikelyEncryptedTunnel data =
     (if calcAvgPopcount_between data \<and> calcPrintableRatio_le data \<and> isUniformDistribution data then
        do {
          d0 \<leftarrow> byte_at data 0;
          if d0 = 0x00 then Some False
          else do {
            structured \<leftarrow> hasProtocolStructure data;
            known \<leftarrow> isKnownProtocol data;
            Some (\<not> structured \<and> \<not> known)
          }
        }
      else Some False)"

definition detectEncryptedTunnel :: "byte list \<Rightarrow> flowState \<Rightarrow> (bool \<times> flowState) option" where
  "detectEncryptedTunnel data st =
     (if ssDetected st \<or> length data < 20 then Some (False, st)
      else let st = st\<lparr>ssPackets := ssPackets st + 1\<rparr>
           in if 3 < ssPackets st then Some (False, st)
              else do {
                tls \<leftarrow> looksLikeTLS data;
                quic \<leftarrow> IsQUICInitial data;
                known \<leftarrow> isKnownProtocol data;
                if tls \<or> looksLikeHTTP data \<or> quic \<or> known then Some (False, st)
                else do {
                  likely \<leftarrow> isLikelyEncryptedTunnel data;
                  if likely then Some (True, st\<lparr>ssDetected := True\<rparr>) else Some (False, st)
                }
              })"

section \<open>The engine\<close>

type_synonym CompositeEngine = "(string, flowState) go_map"

definition zero_Finding :: Finding where
  "zero_Finding = \<lparr>finding_Detector = [], finding_Protocol = [], finding_Host = [], finding_SNI = [],
     finding_TargetIP = [], finding_ConfidencePercent = 0, finding_Summary = []\<rparr>"

definition findings_of :: "byte list \<Rightarrow> byte list \<Rightarrow> bool \<Rightarrow> bool \<Rightarrow> Finding list" where
  "findings_of host sni quic tunnel =
     (if host \<noteq> [] then [zero_Finding\<lparr>finding_Detector := ''http'', finding_Protocol := ''HTTP'',
        finding_Host := host, finding_Summary := ''http host detected''\<rparr>] else [])
     @ (if sni \<noteq> [] then [zero_Finding\<lparr>finding_Detector := ''tls'', finding_Protocol := ''TLS'',
        finding_SNI := sni, finding_Summary := ''tls sni detected''\<rparr>] else [])
     @ (if quic then [zero_Finding\<lparr>finding_Detector := ''quic'', finding_Protocol := ''QUIC'',
        finding_Summary := ''quic initial detected''\<rparr>] else [])
     @ (if tunnel then [zero_Finding\<lparr>finding_Detector := ''encrypted_tunnel'', finding_Protocol := ''SS'',
        finding_ConfidencePercent := 72, finding_Summary := ''encrypted tunnel heuristic matched''\<rparr>] else [])"

definition inspectLocked :: "TrafficSample \<Rightarrow> flowState \<Rightarrow> (Finding list \<times> flowState) option" where
  "inspectLocked sample st = do {
     let payload = sample_Payload sample;
     host \<leftarrow> ParseHTTPHost payload;
     (sni, st) \<leftarrow> feedTLSClientHello payload st;
     quic \<leftarrow> IsQUICInitial payload;
     (tunnel, st) \<leftarrow> detectEncryptedTunnel payload st;
     Some (findings_of host sni quic tunnel, st)
   }"

definition cleanupLocked :: "go_time \<Rightarrow> CompositeEngine \<Rightarrow> CompositeEngine" where
  "cleanupLocked now states = map_delete_where (\<lambda>_ st. flowStateTTL < time_sub now (lastSeen st)) states"

definition flowKey :: "FlowContext \<Rightarrow> string \<Rightarrow> string" where
  "flowKey flow direction =
     Join [flow_LeaseID flow, flow_ProxyName flow, flow_ProxyType flow, flow_RemoteAddr flow, direction] ''|''"

definition Inspect_engine ::
  "go_time \<Rightarrow> TrafficSample \<Rightarrow> CompositeEngine \<Rightarrow> (Finding list \<times> CompositeEngine) option" where
  "Inspect_engine clock sample states =
     (if sample_Payload sample = [] then Some ([], states)
      else
        let now = (if time_is_zero (sample_ObservedAt sample) then clock else sample_ObservedAt sample);
            key = flowKey (sample_Flow sample) (sample_Direction sample);
            states = (if \<not> map_has states key \<and> maxFlowStates \<le> length states
                      then cleanupLocked now states else states);
            st = (map_get new_flowState states key)\<lparr>lastSeen := now\<rparr>
        in if int maxInspectBytes \<le> inspectedBytes st then Some ([], AList.update key st states)
           else do {
             (findings, st) \<leftarrow> inspectLocked sample
                (st\<lparr>inspectedBytes := inspectedBytes st + int (length (sample_Payload sample))\<rparr>);
             Some (findings, AList.update key st states)
           })"

end
