(* ===== verification/Dpi_Parsers.thy ===== *)
theory Dpi_Parsers
  imports Dpi_Engine
begin

text \<open>
  The parsers of the packet inspector never leave their input, always terminate, and find what they
  look for: the host of an HTTP request and the server name of a TLS ClientHello, however the
  stream is cut into packets.
\<close>

section \<open>No panic\<close>

lemma byte_at_Some [simp]: "i < length data \<Longrightarrow> byte_at data i = Some (data ! i)"
  by (simp add: byte_at_def)

lemma slice_Some [simp]: "i \<le> j \<Longrightarrow> j \<le> length data \<Longrightarrow> slice data i j = Some (take (j - i) (drop i data))"
  by (simp add: slice_def)

lemma uint16_at_Some [simp]:
  assumes "i + 2 \<le> length data"
  shows "uint16_at data i = Some (unat (data ! i) * 256 + unat (data ! (i + 1)))"
proof -
  have "drop i data = data ! i # data ! (i + 1) # drop (i + 2) data"
    using assms by (simp add: Cons_nth_drop_Suc)
  then show ?thesis using assms by (simp add: uint16_at_def Uint16_def)
qed

lemma scan_while_spec:
  assumes "limit \<le> length data" "i \<le> limit"
  shows "\<exists>j. scan_while P data limit i = Some j \<and> i \<le> j \<and> j \<le> limit \<and>
    (\<forall>k. i \<le> k \<and> k < j \<longrightarrow> P (data ! k)) \<and> (j < limit \<longrightarrow> \<not> P (data ! j))"
  using assms
proof (induction P data limit i rule: scan_while.induct)
  case (1 P data limit i)
  show ?case
  proof (cases "i < limit \<and> P (data ! i)")
    case True
    with "1.prems" have "byte_at data i = Some (data ! i)" by simp
    with 1 True obtain j where j: "scan_while P data limit (i + 1) = Some j" "i + 1 \<le> j" "j \<le> limit"
      "\<forall>k. i + 1 \<le> k \<and> k < j \<longrightarrow> P (data ! k)" "j < limit \<longrightarrow> \<not> P (data ! j)"
      by fastforce
    have "\<forall>k. i \<le> k \<and> k < j \<longrightarrow> P (data ! k)"
    proof (intro allI impI)
      fix k assume "i \<le> k \<and> k < j"
      then show "P (data ! k)" using j(4) True by (cases "k = i") auto
    qed
    moreover have "scan_while P data limit i = Some j"
      using True "1.prems" j(1) by (subst scan_while.simps) simp
    ultimately show ?thesis using j by auto
  next
    case False
    with "1.prems" show ?thesis by (subst scan_while.simps) auto
  qed
qed

lemma match_fold_total: "i + length es \<le> length data \<Longrightarrow> \<exists>b. match_fold data i es = Some b"
  by (induction es arbitrary: i) auto

lemma length_bytes_of [simp]: "length (bytes_of s) = length s"
  by (simp add: bytes_of_def)

lemma hostValueStart_spec:
  assumes "lineEnd \<le> length data" "lineStart \<le> lineEnd"
  obtains "hostValueStart data lineStart lineEnd = Some None"
  | start where "hostValueStart data lineStart lineEnd = Some (Some start)"
      "lineStart + 5 \<le> start" "start \<le> lineEnd" "\<forall>k. lineStart + 5 \<le> k \<and> k < start \<longrightarrow> blank_byte (data ! k)"
proof (cases "lineEnd < lineStart + 5")
  case True
  then show ?thesis using that(1) by (simp add: hostValueStart_def)
next
  case False
  with assms obtain w where w: "match_fold data lineStart (bytes_of ''host'') = Some w"
    using match_fold_total [of lineStart "bytes_of ''host''" data] by auto
  from False assms obtain j where j: "scan_while blank_byte data lineEnd (lineStart + 5) = Some j"
    "lineStart + 5 \<le> j" "j \<le> lineEnd" "\<forall>k. lineStart + 5 \<le> k \<and> k < j \<longrightarrow> blank_byte (data ! k)"
    using scan_while_spec [of lineEnd data "lineStart + 5" blank_byte] by auto
  have "byte_at data (lineStart + 4) = Some (data ! (lineStart + 4))" using False assms by simp
  with False w j show ?thesis
    using that by (cases "w \<and> data ! (lineStart + 4) = 0x3A") (auto simp: hostValueStart_def)
qed

lemma host_lines_total:
  assumes "limit \<le> length data"
  shows "\<exists>h. host_lines data limit lineStart = Some h"
  using assms
proof (induction data limit lineStart rule: host_lines.induct)
  case (1 data limit lineStart)
  show ?case
  proof (cases "lineStart < limit")
    case False
    then show ?thesis by (subst host_lines.simps) simp
  next
    case True
    with "1.prems" obtain e where e: "scan_while line_byte data limit lineStart = Some e" "lineStart \<le> e" "e \<le> limit"
      using scan_while_spec [of limit data lineStart line_byte] by auto
    with "1.prems" have el: "e \<le> length data" by simp
    from el e(2) show ?thesis
    proof (cases rule: hostValueStart_spec)
      case 1
      then show ?thesis
        using "1.IH" True e "1.prems" by (subst host_lines.simps) (auto)
    next
      case (2 start)
      then obtain v where v: "scan_while host_byte data e start = Some v" "v \<le> e"
        using scan_while_spec [of e data start host_byte] el by auto
      with 2 True e el show ?thesis by (subst host_lines.simps) auto
    qed
  qed
qed

lemma bytes_index_le: "bytes_index xs p = Some e \<Longrightarrow> e \<le> length xs"
  by (induction xs arbitrary: e) (auto split: if_splits)

lemma ParseHTTPHost_runs: "\<exists>h. ParseHTTPHost data = Some h"
proof -
  have "(case bytes_index (take l data) p of Some e \<Rightarrow> e | None \<Rightarrow> l) \<le> length data"
    if "l \<le> length data" for l p
    using that bytes_index_le [of "take l data" p] by (auto split: option.splits)
  then show ?thesis by (simp add: ParseHTTPHost_def Let_def host_lines_total)
qed

text \<open>A computation that runs through, and the rules that take it apart.\<close>

definition runs :: "'a option \<Rightarrow> bool" where
  "runs x \<longleftrightarrow> (\<exists>y. x = Some y)"

lemma runs_Some: "runs (Some x)"
  by (simp add: runs_def)

lemma runs_bind: "runs a \<Longrightarrow> (\<And>x. a = Some x \<Longrightarrow> runs (f x)) \<Longrightarrow> runs (a \<bind> f)"
  by (auto simp: runs_def)

lemma runs_if: "(b \<Longrightarrow> runs x) \<Longrightarrow> (\<not> b \<Longrightarrow> runs y) \<Longrightarrow> runs (if b then x else y)"
  by simp

lemma runs_let: "runs (f a) \<Longrightarrow> runs (let x = a in f x)"
  by simp

lemma runs_byte_at: "i < length data \<Longrightarrow> runs (byte_at data i)"
  by (simp add: runs_def)

lemma runs_uint16_at: "i + 2 \<le> length data \<Longrightarrow> runs (uint16_at data i)"
  by (simp add: runs_def)

lemma runs_slice: "i \<le> j \<Longrightarrow> j \<le> length data \<Longrightarrow> runs (slice data i j)"
  by (simp add: runs_def)

lemma ParseHTTPHost_total: "runs (ParseHTTPHost data)"
  unfolding runs_def by (rule ParseHTTPHost_runs)

lemmas runs_rules = runs_Some runs_bind runs_if runs_let runs_byte_at runs_uint16_at runs_slice

lemma parseSNIExtension_total: "runs (parseSNIExtension data)"
  unfolding parseSNIExtension_def by (intro runs_rules) (auto simp: min_def split: if_splits)

lemma sni_extensions_total: "stop \<le> length rcd \<Longrightarrow> runs (sni_extensions rcd stop pos)"
proof (induction "stop - pos" arbitrary: pos rule: less_induct)
  case less
  show ?case
    by (subst sni_extensions.simps)
      (intro runs_rules parseSNIExtension_total less; use less.prems in \<open>simp add: not_less\<close>)
qed

lemma parseClientHelloRecord_total: "runs (parseClientHelloRecord rcd)"
  unfolding parseClientHelloRecord_def
  by (intro runs_rules sni_extensions_total) (auto simp: not_less not_le)

lemma tls_records_total: "runs (tls_records buffer offset)"
proof (induction "length buffer - offset" arbitrary: offset rule: less_induct)
  case less
  show ?case
    by (subst tls_records.simps)
      (intro runs_rules parseClientHelloRecord_total less; simp add: not_less)
qed

lemma feedTLSClientHello_total: "runs (feedTLSClientHello data st)"
  unfolding feedTLSClientHello_def parseTLSClientHelloSNI_def
  by (intro runs_rules tls_records_total) simp_all

lemma runs_Uint32: "4 \<le> length b \<Longrightarrow> runs (Uint32 b)"
  by (cases "b = [] \<or> tl b = [] \<or> tl (tl b) = [] \<or> tl (tl (tl b)) = []")
    (auto simp: Uint32_def runs_def split: list.splits)

lemma IsQUICInitial_total: "runs (IsQUICInitial data)"
  unfolding IsQUICInitial_def by (intro runs_rules runs_Uint32) (auto simp: slice_def split: if_splits)

lemma isKnownProtocol_total: "runs (isKnownProtocol data)"
  unfolding isKnownProtocol_def by (intro runs_rules) auto

lemma hasProtocolStructure_total: "runs (hasProtocolStructure data)"
  unfolding hasProtocolStructure_def by (intro runs_rules) auto

lemma looksLikeTLS_total: "runs (looksLikeTLS data)"
  unfolding looksLikeTLS_def by (intro runs_rules) auto

lemma isLikelyEncryptedTunnel_total: "runs (isLikelyEncryptedTunnel data)"
  unfolding isLikelyEncryptedTunnel_def
  by (intro runs_rules hasProtocolStructure_total isKnownProtocol_total)
    (auto simp: isUniformDistribution_def split: if_splits)

lemmas detector_total = IsQUICInitial_total isKnownProtocol_total looksLikeTLS_total isLikelyEncryptedTunnel_total

lemma detectEncryptedTunnel_total: "runs (detectEncryptedTunnel data st)"
  unfolding detectEncryptedTunnel_def by (intro runs_rules detector_total)

lemma runs_case_prod: "(\<And>a b. p = (a, b) \<Longrightarrow> runs (f a b)) \<Longrightarrow> runs (case p of (a, b) \<Rightarrow> f a b)"
  by (cases p) simp

lemma inspectLocked_total: "runs (inspectLocked sample st)"
  unfolding inspectLocked_def
  by (intro runs_rules runs_case_prod ParseHTTPHost_total feedTLSClientHello_total detector_total
      detectEncryptedTunnel_total)

lemma Inspect_engine_total: "runs (Inspect_engine clock sample states)"
  unfolding Inspect_engine_def by (intro runs_rules runs_case_prod inspectLocked_total)

text \<open>
  C13. No packet can crash the inspector: on every payload and every state of the flow table the
  engine terminates and none of its index or slice expressions leaves its bounds.
\<close>

theorem engine_never_panics: "\<exists>findings states'. Inspect_engine clock sample states = Some (findings, states')"
  using Inspect_engine_total [of clock sample states] by (auto simp: runs_def)

section \<open>The server name of a ClientHello\<close>

text \<open>The wire format of RFC 8446, section 4.1.2, and of the server-name extension, RFC 6066, section 3.\<close>

definition u16 :: "nat \<Rightarrow> byte list" where
  "u16 n = [of_nat (n div 256), of_nat n]"

definition sni_ext :: "byte list \<Rightarrow> byte list" where
  "sni_ext name = u16 0 @ u16 (length name + 5) @ u16 (length name + 3) @ [0] @ u16 (length name) @ name"

definition other_ext :: "nat \<times> byte list \<Rightarrow> byte list" where
  "other_ext e = u16 (fst e) @ u16 (length (snd e)) @ snd e"

record hello =
  h_version :: nat
  h_random :: "byte list"
  h_session :: "byte list"
  h_ciphers :: "byte list"
  h_compression :: "byte list"
  h_before :: "(nat \<times> byte list) list"
  h_name :: "byte list"
  h_after :: "byte list"

definition hello_exts :: "hello \<Rightarrow> byte list" where
  "hello_exts h = concat (map other_ext (h_before h)) @ sni_ext (h_name h) @ h_after h"

definition hello_body :: "hello \<Rightarrow> byte list" where
  "hello_body h = h_random h @ [of_nat (length (h_session h))] @ h_session h
     @ u16 (length (h_ciphers h)) @ h_ciphers h @ [of_nat (length (h_compression h))] @ h_compression h
     @ u16 (length (hello_exts h)) @ hello_exts h"

definition hello_message :: "hello \<Rightarrow> byte list" where
  "hello_message h = [1, of_nat (length (hello_body h) div 65536)] @ u16 (length (hello_body h)) @ hello_body h"

definition hello_record :: "hello \<Rightarrow> byte list" where
  "hello_record h = [0x16] @ u16 (h_version h) @ u16 (length (hello_message h)) @ hello_message h"

definition hello_ok :: "hello \<Rightarrow> bool" where
  "hello_ok h \<longleftrightarrow> 0x0301 \<le> h_version h \<and> h_version h < 65536 \<and> length (h_random h) = 34 \<and>
     length (h_session h) < 256 \<and> length (h_compression h) < 256 \<and>
     (\<forall>e \<in> set (h_before h). 0 < fst e \<and> fst e < 65536) \<and>
     h_name h \<noteq> [] \<and> length (hello_message h) \<le> 16384"

lemma length_u16 [simp]: "length (u16 n) = 2"
  by (simp add: u16_def)

lemma byte_at_append: "i = length a \<Longrightarrow> byte_at (a @ x # b) i = Some x"
  by (simp add: byte_at_def)

lemma slice_append: "i = length a \<Longrightarrow> j = length a + length b \<Longrightarrow> slice (a @ b @ c) i j = Some b"
  by (simp add: slice_def)

lemma uint16_at_append:
  assumes "i = length a" "n < 65536"
  shows "uint16_at (a @ u16 n @ b) i = Some n"
  using assms slice_append [of i a "i + 2" "u16 n" b]
  by (simp add: uint16_at_def u16_def Uint16_def unat_of_nat)

lemma parseSNIExtension_sni:
  assumes "name \<noteq> []" "length name + 3 < 65536"
  shows "parseSNIExtension (u16 (length name + 3) @ [0] @ u16 (length name) @ name) = Some name"
proof -
  let ?d = "u16 (length name + 3) @ [0] @ u16 (length name) @ name"
  have "uint16_at ?d 0 = Some (length name + 3)"
    using uint16_at_append [of 0 "[]"] assms by simp
  moreover have "byte_at ?d 2 = Some 0" using byte_at_append [of 2 "u16 (length name + 3)"] by simp
  moreover have "uint16_at ?d 3 = Some (length name)"
    using uint16_at_append [of 3 "u16 (length name + 3) @ [0]" "length name" name] assms by simp
  moreover have "slice ?d 5 (5 + length name) = Some name"
    using slice_append [of 5 "u16 (length name + 3) @ [0] @ u16 (length name)" "5 + length name" name "[]"] by simp
  moreover have "5 \<le> length ?d" "length ?d = 5 + length name" by simp_all
  ultimately show ?thesis using assms(1) by (simp add: parseSNIExtension_def Let_def del: length_append)
qed

lemma sni_extensions_find:
  assumes "\<forall>e \<in> set es. 0 < fst e \<and> fst e < 65536 \<and> length (snd e) < 65536" "name \<noteq> []" "length name + 5 < 65536"
  shows "sni_extensions (pre @ concat (map other_ext es) @ sni_ext name @ post)
           (length (pre @ concat (map other_ext es) @ sni_ext name @ post)) (length pre) = Some name"
  using assms(1)
proof (induction es arbitrary: pre)
  case Nil
  let ?r = "pre @ sni_ext name @ post"
  let ?body = "u16 (length name + 3) @ [0] @ u16 (length name) @ name"
  have "uint16_at ?r (length pre) = Some 0"
    unfolding sni_ext_def append_assoc by (rule uint16_at_append) simp_all
  moreover have "uint16_at ?r (length pre + 2) = Some (length name + 5)"
    using uint16_at_append [of "length pre + 2" "pre @ u16 0" "length name + 5" "?body @ post"] assms(3)
    by (simp add: sni_ext_def)
  moreover have "slice ?r (length pre + 4) (length pre + 4 + (length name + 5)) = Some ?body"
    using slice_append [of "length pre + 4" "pre @ u16 0 @ u16 (length name + 5)"
        "length pre + 4 + (length name + 5)" ?body post] by (simp add: sni_ext_def)
  moreover have "length pre + 4 + (length name + 5) \<le> length ?r" by (simp add: sni_ext_def)
  ultimately show ?case
    using parseSNIExtension_sni [OF assms(2)] assms(3)
    by (subst sni_extensions.simps) (simp del: length_append)
next
  case (Cons e es)
  let ?rest = "concat (map other_ext es) @ sni_ext name @ post"
  let ?r = "pre @ other_ext e @ ?rest"
  have "uint16_at ?r (length pre) = Some (fst e)"
    unfolding other_ext_def append_assoc using Cons.prems by (intro uint16_at_append) simp_all
  moreover have "uint16_at ?r (length pre + 2) = Some (length (snd e))"
    using uint16_at_append [of "length pre + 2" "pre @ u16 (fst e)" "length (snd e)" "snd e @ ?rest"] Cons.prems
    by (simp add: other_ext_def)
  moreover have "length pre + 4 + length (snd e) \<le> length ?r" by (simp add: other_ext_def)
  moreover have pos: "length pre + 4 + length (snd e) = length (pre @ other_ext e)"
    by (simp add: other_ext_def)
  moreover have "sni_extensions ?r (length ?r) (length pre + 4 + length (snd e)) = Some name"
    unfolding pos using Cons.IH [of "pre @ other_ext e"] Cons.prems by (simp add: add.assoc)
  ultimately show ?case
    using Cons.prems by (subst sni_extensions.simps) (simp del: length_append)
qed

lemma hello_lengths:
  assumes "hello_ok h"
  shows "length (hello_body h) < 65536" "length (hello_exts h) < 65536" "length (h_ciphers h) < 65536"
    "length (h_name h) + 5 < 65536" "\<forall>e \<in> set (h_before h). length (snd e) < 65536"
    "34 \<le> length (hello_body h)" "length (hello_message h) = 4 + length (hello_body h)"
proof -
  show m: "length (hello_message h) = 4 + length (hello_body h)" by (simp add: hello_message_def)
  with assms show b: "length (hello_body h) < 65536" by (simp add: hello_ok_def)
  then show x: "length (hello_exts h) < 65536" and "length (h_ciphers h) < 65536"
    by (simp_all add: hello_body_def)
  then show "length (h_name h) + 5 < 65536" by (simp add: hello_exts_def sni_ext_def)
  show "34 \<le> length (hello_body h)" using assms by (simp add: hello_body_def hello_ok_def)
  show "\<forall>e \<in> set (h_before h). length (snd e) < 65536"
  proof
    fix e assume "e \<in> set (h_before h)"
    then have "length (other_ext e) \<le> length (concat (map other_ext (h_before h)))"
      by (simp add: length_concat member_le_sum_list comp_def)
    with x show "length (snd e) < 65536" by (simp add: hello_exts_def other_ext_def)
  qed
qed

lemma parseClientHelloRecord_hello:
  assumes "hello_ok h"
  shows "parseClientHelloRecord (hello_message h) = Some (h_name h)"
proof -
  note len = hello_lengths [OF assms]
  let ?m = "hello_message h"
  define hd4 where "hd4 = [1, of_nat (length (hello_body h) div 65536)] @ u16 (length (hello_body h))"
  define p1 where "p1 = hd4 @ h_random h"
  define p2 where "p2 = p1 @ of_nat (length (h_session h)) # h_session h"
  define p3 where "p3 = p2 @ u16 (length (h_ciphers h)) @ h_ciphers h"
  define p4 where "p4 = p3 @ of_nat (length (h_compression h)) # h_compression h"
  define p5 where "p5 = p4 @ u16 (length (hello_exts h))"
  have lens: "length hd4 = 4" "length p1 = 38" "length p2 = 39 + length (h_session h)"
    "length p3 = length p2 + 2 + length (h_ciphers h)" "length p4 = length p3 + 1 + length (h_compression h)"
    "length p5 = length p4 + 2"
    using assms by (simp_all add: hd4_def p1_def p2_def p3_def p4_def p5_def hello_ok_def)
  have m: "?m = p5 @ hello_exts h"
    by (simp add: hello_message_def hello_body_def p5_def p4_def p3_def p2_def p1_def hd4_def)
  have m4: "?m = p4 @ u16 (length (hello_exts h)) @ hello_exts h" by (simp add: m p5_def)
  have m3: "?m = p3 @ of_nat (length (h_compression h)) # h_compression h @ u16 (length (hello_exts h)) @ hello_exts h"
    by (simp add: m4 p4_def)
  have m2: "\<exists>r. ?m = p2 @ u16 (length (h_ciphers h)) @ r" by (simp add: m3 p3_def)
  have m1: "\<exists>r. ?m = p1 @ of_nat (length (h_session h)) # r" by (simp add: m3 p3_def p2_def)
  have body: "?m = hd4 @ hello_body h" by (simp add: hello_message_def hd4_def)
  have hs: "unat (?m ! 1) * 65536 + unat (?m ! 2) * 256 + unat (?m ! 3) = length (hello_body h)" "?m ! 0 = 1"
    using len(1) unfolding body hd4_def u16_def by (simp_all add: unat_of_nat)
  have "byte_at ?m 38 = Some (of_nat (length (h_session h)))"
    using m1 lens(2) byte_at_append by metis
  moreover have "uint16_at ?m (39 + length (h_session h)) = Some (length (h_ciphers h))"
    using m2 lens(3) uint16_at_append len(3) by metis
  moreover have "byte_at ?m (length p3) = Some (of_nat (length (h_compression h)))"
    unfolding m3 by (rule byte_at_append) simp
  moreover have "uint16_at ?m (length p4) = Some (length (hello_exts h))"
    unfolding m4 by (rule uint16_at_append) (simp_all add: len(2))
  moreover have "sni_extensions ?m (length ?m) (length p5) = Some (h_name h)"
    unfolding m hello_exts_def
    using assms len(4,5) by (intro sni_extensions_find) (auto simp: hello_ok_def)
  moreover have "length ?m = length p5 + length (hello_exts h)" by (simp add: m)
  moreover have "length (h_session h) < 256" "length (h_compression h) < 256" using assms by (simp_all add: hello_ok_def)
  ultimately show ?thesis
    using hs len(6,7) lens
    by (simp add: parseClientHelloRecord_def Let_def unat_of_nat add.assoc)
qed

lemma length_hello_record: "length (hello_record h) = 5 + length (hello_message h)"
  by (simp add: hello_record_def)

lemma hello_record_header:
  assumes "hello_ok h" "5 \<le> length buf" "take 5 buf = take 5 (hello_record h)"
  shows "byte_at buf 0 = Some 0x16" "uint16_at buf 1 = Some (h_version h)"
    "uint16_at buf 3 = Some (length (hello_message h))"
proof -
  define hdr where "hdr = [0x16] @ u16 (h_version h) @ u16 (length (hello_message h))"
  have "take 5 (hello_record h) = hdr" by (simp add: hello_record_def hdr_def)
  then obtain r where buf: "buf = hdr @ r" using assms(2,3) by (metis append_take_drop_id)
  have lens: "h_version h < 65536" "length (hello_message h) < 65536" using assms(1) by (simp_all add: hello_ok_def)
  show "byte_at buf 0 = Some 0x16" by (simp add: buf hdr_def byte_at_def)
  show "uint16_at buf 1 = Some (h_version h)"
    using uint16_at_append [of 1 "[0x16]", OF _ lens(1)] by (simp add: buf hdr_def)
  show "uint16_at buf 3 = Some (length (hello_message h))"
    using uint16_at_append [of 3 "[0x16] @ u16 (h_version h)", OF _ lens(2)] by (simp add: buf hdr_def)
qed

lemma parseTLS_complete:
  assumes "hello_ok h"
  shows "parseTLSClientHelloSNI (hello_record h @ rest) = Some (h_name h)"
proof -
  let ?buf = "hello_record h @ rest"
  have "5 \<le> length ?buf" "take 5 ?buf = take 5 (hello_record h)" by (simp_all add: length_hello_record)
  note hdr = hello_record_header [OF assms this]
  have "slice ?buf 5 (5 + length (hello_message h)) = Some (hello_message h)"
    using slice_append [of 5 "[0x16] @ u16 (h_version h) @ u16 (length (hello_message h))"
        "5 + length (hello_message h)" "hello_message h" rest] by (simp add: hello_record_def)
  with hdr assms show ?thesis
    using parseClientHelloRecord_hello [OF assms] hello_lengths(7) [OF assms]
    unfolding parseTLSClientHelloSNI_def
    by (subst tls_records.simps) (simp add: hello_ok_def length_hello_record del: byte_at_Some uint16_at_Some slice_Some)
qed

lemma parseTLS_incomplete:
  assumes "hello_ok h" "n < length (hello_record h)"
  shows "parseTLSClientHelloSNI (take n (hello_record h)) = Some []"
proof (cases "5 \<le> n")
  case True
  let ?buf = "take n (hello_record h)"
  have "5 \<le> length ?buf" "take 5 ?buf = take 5 (hello_record h)" using True assms(2) by simp_all
  note hdr = hello_record_header [OF assms(1) this]
  have "length ?buf < 5 + length (hello_message h)" using assms(2) by (simp add: length_hello_record)
  with hdr assms \<open>5 \<le> length ?buf\<close> show ?thesis
    using hello_lengths(7) [OF assms(1)] unfolding parseTLSClientHelloSNI_def
    by (subst tls_records.simps) (simp add: hello_ok_def del: byte_at_Some uint16_at_Some slice_Some length_take)
next
  case False
  then show ?thesis unfolding parseTLSClientHelloSNI_def by (subst tls_records.simps) simp
qed

text \<open>Feeding the payloads of a stream one after the other.\<close>

fun feed_stream :: "byte list list \<Rightarrow> flowState \<Rightarrow> (byte list list \<times> flowState) option" where
  "feed_stream [] st = Some ([], st)"
| "feed_stream (c # cs) st = do {
     (sni, st) \<leftarrow> feedTLSClientHello c st;
     (snis, st) \<leftarrow> feed_stream cs st;
     Some (sni # snis, st)
   }"

lemma feed_more:
  assumes "hello_ok h" "length (hello_record h) + length rest \<le> maxInspectBytes"
    and "tlsBuffer st = take n (hello_record h)" "n < length (hello_record h)" "c \<noteq> []"
    and "take n (hello_record h) @ c @ later = hello_record h @ rest"
  shows "feedTLSClientHello c st =
    (if n + length c < length (hello_record h)
     then Some ([], st\<lparr>tlsBuffer := take (n + length c) (hello_record h)\<rparr>)
     else Some (h_name h, st\<lparr>tlsBuffer := []\<rparr>))"
proof -
  let ?R = "hello_record h"
  have c: "take n ?R @ c = take (n + length c) (?R @ rest)"
    using arg_cong [OF assms(6), of "take (n + length c)"] assms(4) by simp
  have len: "n + length c \<le> length ?R + length rest"
    using arg_cong [OF assms(6), of length] assms(4) by simp
  have b: "byte_at c 0 = Some (c ! 0)" using assms(5) by simp
  have first: "c ! 0 = 0x16" if "tlsBuffer st = []"
  proof -
    have "n = 0" using that assms(3,4) by auto
    then have "c @ later = hello_record h @ rest" using assms(6) by simp
    then have "(c @ later) ! 0 = 0x16" by (simp add: hello_record_def)
    then show ?thesis using assms(5) by (simp add: nth_append)
  qed
  have fed: "feedTLSClientHello c st = do {
      sni \<leftarrow> parseTLSClientHelloSNI (take (n + length c) (?R @ rest));
      if sni \<noteq> [] then Some (sni, st\<lparr>tlsBuffer := []\<rparr>)
      else Some ([], st\<lparr>tlsBuffer := take (n + length c) (?R @ rest)\<rparr>) }"
    using assms(2-5) len b first by (auto simp: feedTLSClientHello_def c Let_def simp del: take_append cong: if_cong)
  show ?thesis
  proof (cases "n + length c < length ?R")
    case True
    then show ?thesis using parseTLS_incomplete [OF assms(1) True] by (simp add: fed)
  next
    case False
    then have "take (n + length c) (?R @ rest) = ?R @ take (n + length c - length ?R) rest" by simp
    then show ?thesis
      using False parseTLS_complete [OF assms(1)] assms(1) by (simp add: fed hello_ok_def)
  qed
qed

lemma feed_stream_hello:
  assumes "hello_ok h" "length (hello_record h) + length rest \<le> maxInspectBytes"
    and "tlsBuffer st = take n (hello_record h)" "n + length (concat cs) < length (hello_record h)"
    and "take n (hello_record h) @ concat (cs @ [c]) = hello_record h @ rest" "[] \<notin> set (cs @ [c])"
  shows "feed_stream (cs @ [c]) st = Some (replicate (length cs) [] @ [h_name h], st\<lparr>tlsBuffer := []\<rparr>)"
  using assms(3-)
proof (induction cs arbitrary: n st)
  case Nil
  have "length (take n (hello_record h) @ c) = length (hello_record h @ rest)" using Nil.prems(3) by simp
  then have "\<not> n + length c < length (hello_record h)" using Nil.prems(2) by simp
  with feed_more [OF assms(1,2) Nil.prems(1), of c "[]"] Nil.prems show ?case by simp
next
  case (Cons d cs)
  let ?st = "st\<lparr>tlsBuffer := take (n + length d) (hello_record h)\<rparr>"
  have d: "n + length d < length (hello_record h)" using Cons.prems(2) by simp
  have eq: "take n (hello_record h) @ d @ concat (cs @ [c]) = hello_record h @ rest" using Cons.prems(3) by simp
  have pre: "take n (hello_record h) @ d = take (n + length d) (hello_record h)"
    using arg_cong [OF eq, of "take (n + length d)"] d by simp
  have "take (n + length d) (hello_record h) @ concat (cs @ [c]) = hello_record h @ rest"
    using eq unfolding pre [symmetric] by simp
  then have "feed_stream (cs @ [c]) ?st = Some (replicate (length cs) [] @ [h_name h], ?st\<lparr>tlsBuffer := []\<rparr>)"
    using Cons.prems(2,4) by (intro Cons.IH [of ?st "n + length d"]) auto
  moreover have "n < length (hello_record h)" "d \<noteq> []" using d Cons.prems(4) by auto
  ultimately show ?case
    using feed_more [OF assms(1,2) Cons.prems(1) _ _ eq] d by simp
qed

text \<open>
  C14. A ClientHello cannot be hidden by cutting it into packets: whatever non-empty pieces the
  client sends, as long as the stream up to the end of the piece that completes the record fits the
  inspection limit of 8192 bytes, the engine reports exactly the server name the client sent, on that
  piece, reports nothing before it, and starts afresh afterwards. This holds for every session
  identifier, cipher list, compression list and set of other extensions.
\<close>

theorem sni_found_in_fragments:
  assumes "hello_ok h" "length (hello_record h) + length rest \<le> maxInspectBytes" "tlsBuffer st = []"
    and "concat (cs @ [c]) = hello_record h @ rest" "length (concat cs) < length (hello_record h)"
    and "[] \<notin> set (cs @ [c])"
  shows "feed_stream (cs @ [c]) st = Some (replicate (length cs) [] @ [h_name h], st)"
  using feed_stream_hello [OF assms(1,2), of st 0 cs c] assms(3-) by simp

definition demo_hello :: hello where
  "demo_hello = \<lparr>h_version = 0x0301, h_random = replicate 34 7, h_session = [], h_ciphers = [0x13, 1],
     h_compression = [0], h_before = [(10, [0, 2])], h_name = bytes_of ''a.io'', h_after = []\<rparr>"

theorem sni_found_in_fragments_witness:
  "let r = hello_record demo_hello in
   feed_stream [take 3 r, take 40 (drop 3 r), drop 43 r] new_flowState = Some ([[], [], bytes_of ''a.io''], new_flowState)"
proof -
  let ?r = "hello_record demo_hello" and ?cs = "[take 3 (hello_record demo_hello), take 40 (drop 3 (hello_record demo_hello))]"
  note defs = demo_hello_def hello_record_def hello_message_def hello_body_def hello_exts_def sni_ext_def other_ext_def
  have len: "length ?r = 71" by (simp add: defs)
  have ok: "hello_ok demo_hello" by (simp add: hello_ok_def defs bytes_of_def)
  have split: "concat (?cs @ [drop 43 ?r]) = ?r @ []"
    using append_take_drop_id [of 3 ?r] append_take_drop_id [of 40 "drop 3 ?r"] by simp
  have "length ?r + length ([] :: byte list) \<le> maxInspectBytes" "tlsBuffer new_flowState = []"
    "length (concat ?cs) < length ?r" "[] \<notin> set (?cs @ [drop 43 ?r])"
    by (use len in \<open>auto simp: maxInspectBytes_def new_flowState_def simp flip: length_greater_0_conv\<close>)
  from sni_found_in_fragments [OF ok this(1,2) split this(3,4)] show ?thesis by (simp add: demo_hello_def)
qed

section \<open>The host of an HTTP request\<close>

text \<open>A reference definition on lines: a line ends at CR LF, at a lone CR or at a lone LF.\<close>

function http_lines :: "byte list \<Rightarrow> byte list list" where
  "http_lines xs =
     (if xs = [] then []
      else takeWhile line_byte xs #
        (case dropWhile line_byte xs of
           c # d # r \<Rightarrow> if c = 0x0D \<and> d = 0x0A then http_lines r else http_lines (d # r)
         | _ \<Rightarrow> []))"
  by pat_completeness auto
termination
proof (relation "measure length", goal_cases)
  case (2 xs c _ d r)
  then have "length (dropWhile line_byte xs) = Suc (Suc (length r))" by simp
  then show ?case using length_dropWhile_le [of line_byte xs] by simp
next
  case (3 xs c _ d r)
  then have "length (dropWhile line_byte xs) = Suc (Suc (length r))" by simp
  then show ?case using length_dropWhile_le [of line_byte xs] by simp
qed simp

declare http_lines.simps [simp del]

definition is_host_line :: "byte list \<Rightarrow> bool" where
  "is_host_line l \<longleftrightarrow> 5 \<le> length l \<and> list_all2 equalFoldByte (take 4 l) (bytes_of ''host'') \<and> l ! 4 = 0x3A"

definition host_value :: "byte list \<Rightarrow> byte list" where
  "host_value l = takeWhile host_byte (dropWhile blank_byte (drop 5 l))"

definition first_host :: "byte list list \<Rightarrow> byte list" where
  "first_host ls = (case find is_host_line ls of Some l \<Rightarrow> host_value l | None \<Rightarrow> [])"

lemma scan_while_takeWhile:
  assumes "limit \<le> length data" "i \<le> limit"
  shows "scan_while P data limit i = Some (i + length (takeWhile P (drop i (take limit data))))"
  using assms(2)
proof (induction "limit - i" arbitrary: i)
  case 0
  then show ?case by (subst scan_while.simps) simp
next
  case (Suc n)
  then have "i < limit" by simp
  then have "drop i (take limit data) = data ! i # drop (i + 1) (take limit data)"
    using assms(1) by (simp add: Cons_nth_drop_Suc [symmetric])
  with Suc \<open>i < limit\<close> assms(1) show ?case by (subst scan_while.simps) simp
qed

lemma match_fold_eq:
  "i + length es \<le> length data \<Longrightarrow>
     match_fold data i es = Some (list_all2 equalFoldByte (take (length es) (drop i data)) es)"
proof (induction es arbitrary: i)
  case (Cons e es)
  then have "drop i data = data ! i # drop (i + 1) data" by (simp add: Cons_nth_drop_Suc)
  with Cons show ?case by simp
qed simp

lemma hostValueStart_eq:
  assumes "e \<le> length data" "i \<le> e"
  defines "l \<equiv> take (e - i) (drop i data)"
  shows "hostValueStart data i e =
    Some (if is_host_line l then Some (i + 5 + length (takeWhile blank_byte (drop 5 l))) else None)"
proof (cases "e < i + 5")
  case True
  then show ?thesis by (simp add: hostValueStart_def is_host_line_def l_def)
next
  case False
  then have len: "5 \<le> length l" "l ! 4 = data ! (i + 4)" "take 4 l = take 4 (drop i data)"
    using assms by (simp_all add: l_def)
  have drop: "drop (i + 5) (take e data) = drop 5 l" using False by (simp add: l_def drop_take add.commute)
  have h4: "length (bytes_of ''host'') = 4" by simp
  have "match_fold data i (bytes_of ''host'') = Some (list_all2 equalFoldByte (take 4 l) (bytes_of ''host''))"
    using match_fold_eq [of i "bytes_of ''host''" data, unfolded h4] False assms(1) len(3) by simp
  with False assms(1) len show ?thesis
    using scan_while_takeWhile [OF assms(1), of "i + 5" blank_byte]
    by (simp add: hostValueStart_def is_host_line_def drop)
qed

text \<open>On a host line the code cuts out exactly the value of the reference definition.\<close>

lemma host_line_value:
  assumes "e \<le> length data" "i \<le> e"
  defines "l \<equiv> take (e - i) (drop i data)"
  defines "v \<equiv> i + 5 + length (takeWhile blank_byte (drop 5 l))"
  assumes host: "is_host_line l"
  shows "(do { w \<leftarrow> scan_while host_byte data e v; if v < w then slice data v w else Some [] }) = Some (host_value l)"
proof -
  have "length (takeWhile blank_byte (drop 5 l)) \<le> length (drop 5 l)" by (rule length_takeWhile_le)
  moreover have len: "5 \<le> length l" "length l = e - i" using host assms by (simp_all add: is_host_line_def)
  ultimately have ve: "v \<le> e" using assms(2) by (simp add: v_def)
  have val: "drop v (take e data) = dropWhile blank_byte (drop 5 l)"
  proof -
    have te: "drop i (take e data) = l" by (simp add: l_def drop_take)
    define k where "k = length (takeWhile blank_byte (drop 5 l))"
    have "drop (i + 5 + k) (take e data) = drop k (drop 5 (drop i (take e data)))"
      by (simp only: drop_drop ac_simps)
    then show ?thesis unfolding te v_def k_def by (simp add: dropWhile_eq_drop)
  qed
  have scan: "scan_while host_byte data e v = Some (v + length (host_value l))"
    using scan_while_takeWhile [OF assms(1) ve] by (simp only: val host_value_def)
  have hv: "host_value l = take (length (host_value l)) (drop v (take e data))"
    unfolding val host_value_def by (rule takeWhile_eq_take)
  have "length (host_value l) \<le> length (drop v (take e data))"
    unfolding val host_value_def by (rule length_takeWhile_le)
  then have "length (host_value l) \<le> e - v" using assms(1) by simp
  then have "take (length (host_value l)) (drop v (take e data)) = take (length (host_value l)) (drop v data)"
    by (simp add: drop_take)
  with hv \<open>length (host_value l) \<le> e - v\<close> show ?thesis
    using ve assms(1) by (cases "host_value l = []") (simp_all add: scan slice_def)
qed

text \<open>After any other line it goes on behind the line's end.\<close>

lemma http_lines_next:
  assumes "limit \<le> length data" "i < limit"
  defines "e \<equiv> i + length (takeWhile line_byte (drop i (take limit data)))"
  shows "http_lines (drop i (take limit data)) = takeWhile line_byte (drop i (take limit data)) #
    http_lines (drop (if e + 1 < limit \<and> data ! e = 0x0D \<and> data ! (e + 1) = 0x0A then e + 2 else e + 1) (take limit data))"
proof -
  let ?s = "drop i (take limit data)"
  have rest: "dropWhile line_byte ?s = drop e (take limit data)"
    by (simp add: dropWhile_eq_drop e_def add.commute)
  have ne: "?s \<noteq> []" using assms by simp
  show ?thesis
  proof (cases "e + 1 < limit")
    case True
    then have two: "drop e (take limit data) = data ! e # data ! (e + 1) # drop (e + 2) (take limit data)"
      "drop (Suc e) (take limit data) = data ! Suc e # drop (e + 2) (take limit data)"
      using assms(1) by (simp_all add: Cons_nth_drop_Suc [symmetric])
    show ?thesis using ne True by (subst http_lines.simps) (simp add: rest two)
  next
    case False
    then have short: "length (drop e (take limit data)) < 2" and "drop (e + 1) (take limit data) = []"
      using assms(1) by simp_all
    moreover have "drop e (take limit data) \<noteq> c # d # r" for c d r
    proof
      assume "drop e (take limit data) = c # d # r"
      from short [unfolded this] show False by simp
    qed
    moreover have "http_lines [] = []" by (subst http_lines.simps) simp
    ultimately show ?thesis using ne False
      by (subst http_lines.simps) (auto simp: rest split: list.splits)
  qed
qed

lemma host_lines_eq:
  assumes "limit \<le> length data"
  shows "host_lines data limit i = Some (first_host (http_lines (drop i (take limit data))))"
proof (induction "limit - i" arbitrary: i rule: less_induct)
  case less
  show ?case
  proof (cases "i < limit")
    case False
    then show ?thesis by (subst host_lines.simps, subst http_lines.simps) (simp add: first_host_def)
  next
    case True
    define l where "l = takeWhile line_byte (drop i (take limit data))"
    define e where "e = i + length l"
    have "length l \<le> length (drop i (take limit data))" unfolding l_def by (rule length_takeWhile_le)
    then have e: "e \<le> limit" "e \<le> length data" "i \<le> e" using True assms by (simp_all add: e_def)
    have "l = take (length l) (drop i (take limit data))" unfolding l_def by (rule takeWhile_eq_take)
    then have l: "take (e - i) (drop i data) = l" using e(1) by (simp add: e_def drop_take)
    have scan: "scan_while line_byte data limit i = Some e"
      using scan_while_takeWhile [OF assms, of i] True by (simp add: e_def l_def)
    note unfold = http_lines_next [OF assms True, folded l_def, folded e_def]
    show ?thesis
    proof (cases "is_host_line l")
      case True
      then show ?thesis
        using \<open>i < limit\<close> scan hostValueStart_eq [OF e(2,3), unfolded l] host_line_value [OF e(2,3), unfolded l]
        by (subst host_lines.simps) (simp add: unfold first_host_def)
    next
      case False
      have "host_lines data limit j = Some (first_host (http_lines (drop j (take limit data))))" if "e < j" for j
        using that True e by (intro less) simp
      then show ?thesis
        using True False scan hostValueStart_eq [OF e(2,3), unfolded l] assms
        by (subst host_lines.simps) (simp add: unfold first_host_def)
    qed
  qed
qed

text \<open>
  C15. The hand-written HTTP scanner agrees on every payload with a definition in terms of lines:
  it returns the value of the first \<open>Host\<close> header, in any letter case, within the header block of a
  request (at most 4096 bytes, up to the first empty line), cut at a blank or a colon, and the empty
  string when there is none.
\<close>

theorem ParseHTTPHost_correct:
  "ParseHTTPHost data = Some
     (if 16 \<le> length data \<and> looksLikeHTTP data then
        first_host (http_lines (take
          (case bytes_index (take 4096 data) [0x0D, 0x0A, 0x0D, 0x0A] of Some n \<Rightarrow> n | None \<Rightarrow> 4096) data))
      else [])"
proof -
  define limit where "limit = min (length data) 4096"
  have t: "take limit data = take 4096 data" by (simp add: limit_def min_def)
  define n where "n = (case bytes_index (take 4096 data) [0x0D, 0x0A, 0x0D, 0x0A] of Some n \<Rightarrow> n | None \<Rightarrow> limit)"
  have "n \<le> length data"
    using bytes_index_le [of "take 4096 data"] by (auto simp: n_def limit_def split: option.splits)
  then have "host_lines data n 0 = Some (first_host (http_lines (take n data)))"
    using host_lines_eq [of n data 0] by simp
  moreover have "take n data = take (case bytes_index (take 4096 data) [0x0D, 0x0A, 0x0D, 0x0A] of Some n \<Rightarrow> n | None \<Rightarrow> 4096) data"
    by (simp add: n_def t split: option.split)
  ultimately show ?thesis
    by (simp add: ParseHTTPHost_def Let_def t flip: limit_def n_def)
qed

end
