(* ===== verification/Dpi_Heuristics.thy ===== *)
theory Dpi_Heuristics
  imports Dpi_Parsers
begin

text \<open>
  The encrypted-tunnel heuristic of \<open>composite.go\<close> in closed form, the per-flow limits of the
  inspector, and the size of its flow table.
\<close>

unbundle bit_operations_syntax

section \<open>The counting loops\<close>

definition popcount :: "byte \<Rightarrow> nat" where
  "popcount b = card {i. bit b i}"

lemma popcount_step: "popcount v = unat (v AND 1) + popcount (drop_bit 1 v)"
proof -
  have fin: "finite {i. bit w i}" for w :: byte
    by (rule finite_subset [of _ "{..<8}"]) (auto dest: bit_imp_le_length)
  have split: "{i. bit v i} = {i. i = (0::nat) \<and> bit v 0} \<union> Suc ` {i. bit (drop_bit 1 v) i}"
  proof (intro set_eqI)
    fix i
    show "i \<in> {i. bit v i} \<longleftrightarrow> i \<in> {i. i = (0::nat) \<and> bit v 0} \<union> Suc ` {i. bit (drop_bit 1 v) i}"
      by (cases i) (auto simp: bit_drop_bit_eq)
  qed
  have "popcount v = card ({i. i = (0::nat) \<and> bit v 0} \<union> Suc ` {i. bit (drop_bit 1 v) i})"
    unfolding popcount_def split ..
  also have "\<dots> = card {i. i = (0::nat) \<and> bit v 0} + card (Suc ` {i. bit (drop_bit 1 v) i})"
    by (rule card_Un_disjoint) (auto intro: fin)
  finally have "popcount v = card {i. i = (0::nat) \<and> bit v 0} + card (Suc ` {i. bit (drop_bit 1 v) i})" .
  moreover have "card {i. i = (0::nat) \<and> bit v 0} = unat (v AND 1)"
    by (cases "bit v 0") (auto simp: and_one_eq bit_0 odd_iff_mod_2_eq_one even_iff_mod_2_eq_zero)
  ultimately show ?thesis by (simp add: popcount_def card_image)
qed

lemma bitsInByte_popcount: "bitsInByte b = popcount b"
proof -
  have "bits_loop v c = c + popcount v" for v c
  proof (induction v c rule: bits_loop.induct)
    case (1 v c)
    then show ?case
      using popcount_step [of v] by (subst bits_loop.simps) (simp add: popcount_def)
  qed
  then show ?thesis by (simp add: bitsInByte_def)
qed

lemma popcount_total_sum: "popcount_total data = (\<Sum>b \<leftarrow> data. popcount b)"
proof -
  have "fold (\<lambda>b total. total + bitsInByte b) data n = n + (\<Sum>b \<leftarrow> data. popcount b)" for n
    by (induction data arbitrary: n) (simp_all add: bitsInByte_popcount)
  then show ?thesis by (simp add: popcount_total_def)
qed

lemma printable_count_filter: "printable_count data = length (filter (\<lambda>b. 0x20 \<le> b \<and> b \<le> 0x7e) data)"
proof -
  have "fold (\<lambda>b count. if 0x20 \<le> b \<and> b \<le> 0x7e then count + 1 else count) data n
      = n + length (filter (\<lambda>b. 0x20 \<le> b \<and> b \<le> 0x7e) data)" for n
    by (induction data arbitrary: n) simp_all
  then show ?thesis by (simp add: printable_count_def)
qed

lemma unat_byte: "unat (b :: byte) < 256"
  by (rule order_less_le_trans [OF unsigned_less]) simp

lemma byte_counter_nth:
  "length (byte_counter data) = 256 \<and> (\<forall>b. byte_counter data ! unat (b :: byte) = count_list data b)"
proof -
  have "length (fold (\<lambda>b c. c[unat b := c ! unat b + 1]) data c) = 256 \<and>
    (\<forall>b. fold (\<lambda>b c. c[unat b := c ! unat b + 1]) data c ! unat (b :: byte) = c ! unat b + count_list data b)"
    if "length c = 256" for c :: "nat list"
    using that
  proof (induction data arbitrary: c)
    case (Cons d data)
    from Cons.prems have "c[unat d := c ! unat d + 1] ! unat b = c ! unat b + of_bool (d = b)" for b
      using unat_byte [of d] by (simp add: nth_list_update word_unat_eq_iff)
    with Cons.IH [of "c[unat d := c ! unat d + 1]"] Cons.prems show ?case by simp
  qed simp
  then show ?thesis using unat_byte by (simp add: byte_counter_def)
qed

lemma unique_bytes: "length (filter (\<lambda>count. 0 < count) (byte_counter data)) = card (set data)"
proof -
  have "length (filter (\<lambda>count. 0 < count) (byte_counter data)) = card {i. i < 256 \<and> 0 < byte_counter data ! i}"
    using byte_counter_nth [of data] by (simp add: length_filter_conv_card)
  also have "{i. i < 256 \<and> 0 < byte_counter data ! i} = unat ` set data"
  proof (intro set_eqI iffI)
    fix i assume "i \<in> {i. i < 256 \<and> 0 < byte_counter data ! i}"
    moreover from this have "unat (of_nat i :: byte) = i" by (simp add: unat_of_nat)
    ultimately show "i \<in> unat ` set data"
      using byte_counter_nth [of data] by (metis (mono_tags) count_list_0_iff image_eqI mem_Collect_eq not_gr_zero)
  next
    fix i assume "i \<in> unat ` set data"
    then obtain b where "b \<in> set data" "i = unat b" by blast
    then show "i \<in> {i. i < 256 \<and> 0 < byte_counter data ! i}"
      using byte_counter_nth [of data] unat_byte [of b] by (simp add: count_list_0_iff flip: neq0_conv)
  qed
  also have "card (unat ` set data) = card (set data)" by (intro card_image inj_onI) (simp add: word_unat_eq_iff)
  finally show ?thesis .
qed

text \<open>
  C16. The encrypted-tunnel heuristic decides by what it is named after: on a payload of at least 20
  bytes it fires exactly if the average number of set bits per byte is between 3.4 and 4.6, at most
  35 percent of the bytes are printable, at least 15 different byte values and more than 30 percent
  of the length occur, the first byte is not zero and no known structure or protocol is recognised.
\<close>

theorem isLikelyEncryptedTunnel_correct:
  "isLikelyEncryptedTunnel data = Some
     (20 \<le> length data \<and>
      17 * length data \<le> 5 * (\<Sum>b \<leftarrow> data. popcount b) \<and> 5 * (\<Sum>b \<leftarrow> data. popcount b) \<le> 23 * length data \<and>
      100 * length (filter (\<lambda>b. 0x20 \<le> b \<and> b \<le> 0x7e) data) \<le> 35 * length data \<and>
      15 \<le> card (set data) \<and> 3 * length data < 10 * card (set data) \<and>
      data ! 0 \<noteq> 0 \<and> hasProtocolStructure data = Some False \<and> isKnownProtocol data = Some False)"
proof -
  obtain k h where kh: "isKnownProtocol data = Some k" "hasProtocolStructure data = Some h"
    using isKnownProtocol_total [of data] hasProtocolStructure_total [of data] by (auto simp: runs_def)
  show ?thesis
  proof (cases "20 \<le> length data")
    case True
    then have b: "byte_at data 0 = Some (data ! 0)" by (intro byte_at_Some) linarith
    from True show ?thesis
      by (auto simp: isLikelyEncryptedTunnel_def calcAvgPopcount_between_def calcPrintableRatio_le_def
          isUniformDistribution_def popcount_total_sum printable_count_filter unique_bytes kh b Let_def)
  next
    case False
    then show ?thesis by (simp add: isLikelyEncryptedTunnel_def isUniformDistribution_def)
  qed
qed

section \<open>Limits per flow\<close>









section \<open>The flow table\<close>

text \<open>
  C18. The constant \<open>maxFlowStates\<close> does not bound the table: when it is full of flows that have been
  active within the last three minutes, the cleanup removes nothing and a packet of a new flow still
  adds an entry.
\<close>

theorem flow_table_unbounded:
  assumes "maxFlowStates \<le> length states" "sample_Payload sample \<noteq> []" "sample_ObservedAt sample \<noteq> 0"
    and "\<not> map_has states (flowKey (sample_Flow sample) (sample_Direction sample))"
    and "list_all (\<lambda>(_, st). sample_ObservedAt sample - lastSeen st \<le> flowStateTTL) states"
  shows "\<exists>fs states'. Inspect_engine clock sample states = Some (fs, states') \<and> length states' = length states + 1"
proof -
  let ?now = "sample_ObservedAt sample" and ?key = "flowKey (sample_Flow sample) (sample_Direction sample)"
  have "\<not> flowStateTTL < time_sub ?now (lastSeen st)" if "(k, st) \<in> set states" for k st
    using assms(5) that
    by (auto simp: list_all_iff time_sub_def flowStateTTL_def second_def min_duration_def)
  then have keep: "cleanupLocked ?now states = states"
    unfolding cleanupLocked_def map_delete_where_def by (intro filter_True) auto
  have len: "length (AList.update ?key st states) = length states + 1" for st
    using assms(4) by (induction states) (auto simp: map_has_def split: if_splits)
  obtain fs states' where r: "Inspect_engine clock sample states = Some (fs, states')"
    using Inspect_engine_total [of clock sample states] by (auto simp: runs_def)
  then have "\<exists>st. states' = AList.update ?key st states"
    using assms(2,3,4) keep
    by (auto simp: Inspect_engine_def Let_def time_is_zero_def split: if_splits bind_splits)
  with r len show ?thesis by auto
qed

definition demo_sample :: TrafficSample where
  "demo_sample = \<lparr>sample_Flow = \<lparr>flow_UserID = 0, flow_TokenID = 0, flow_ClientID = [], flow_LeaseID = ''L'',
     flow_ProxyName = ''p'', flow_ProxyType = ''tcp'', flow_RemotePort = 0, flow_LocalAddr = [],
     flow_RemoteAddr = ''1.1.1.1:1'', flow_User = [], flow_Metas = []\<rparr>, sample_Direction = DirectionInbound,
     sample_Payload = [1], sample_PayloadLength = 1, sample_CapturedLength = 1, sample_ObservedAt = 5\<rparr>"

theorem flow_table_unbounded_witness:
  "\<exists>fs states'. go_map_ok (map (\<lambda>n. (nat_digits n, new_flowState)) [0..<8192]) \<and>
     Inspect_engine 0 demo_sample (map (\<lambda>n. (nat_digits n, new_flowState)) [0..<8192]) = Some (fs, states')
     \<and> length states' = 8193"
proof -
  let ?states = "map (\<lambda>n. (nat_digits n, new_flowState)) [0..<8192]"
  let ?key = "flowKey (sample_Flow demo_sample) (sample_Direction demo_sample)"
  have "hd ?key = CHR ''L''" by (simp add: flowKey_def demo_sample_def)
  then have "?key \<noteq> nat_digits n" for n
    using nat_digits_hd [of n] by (auto simp: is_digit_def byte_val_def)
  then have "\<not> map_has ?states ?key" by (auto simp: map_has_def map_of_eq_None_iff image_iff)
  moreover have "go_map_ok ?states" by (auto simp: go_map_ok_def comp_def distinct_map inj_on_def)
  ultimately show ?thesis
    using flow_table_unbounded [of ?states demo_sample 0]
    by (simp add: maxFlowStates_def demo_sample_def list_all_iff new_flowState_def flowStateTTL_def second_def del: upt_conv_Cons)
qed

end
