(* ===== verification/Dpi_Service.thy ===== *)
theory Dpi_Service
  imports Dpi_Heuristics
begin

text \<open>
  \<open>internal/dpi/service.go\<close>: policy lookup, inspection and the decision on a sample. The engine is
  the interface \<open>dpiengine.Engine\<close>, a function on a state of its own; the policy provider is the
  interface \<open>PolicyProvider\<close>. Events handed to the sink are collected in \<open>events\<close>.
\<close>

section \<open>The service\<close>

datatype policy_error = ErrPolicySynchronizing | OtherError string

type_synonym policy_provider = "FlowContext \<Rightarrow> policy_error + Policy"
type_synonym 'e engine = "TrafficSample \<Rightarrow> 'e \<Rightarrow> (string + Finding list) \<times> 'e"

record 'e Service =
  providerUnavailable :: bool
  eventsPaused :: bool
  leasePolicies :: "(string, Policy) go_map"
  policyProvider :: policy_provider
  engineState :: 'e
  eventSink :: bool
  events :: "Event list"

definition StaticPolicyProvider :: "Policy \<Rightarrow> policy_provider" where
  "StaticPolicyProvider policy _ = Inr
     (if dpi_MaxInspectBytes policy = 0
      then policy\<lparr>dpi_MaxInspectBytes := dpi_MaxInspectBytes DefaultPolicy,
                  dpi_TemporaryBlockTTL := dpi_TemporaryBlockTTL DefaultPolicy\<rparr>
      else policy)"

definition NewService :: "'e \<Rightarrow> policy_provider option \<Rightarrow> bool \<Rightarrow> 'e Service" where
  "NewService e provider sink =
     \<lparr>providerUnavailable = False, eventsPaused = False, leasePolicies = [],
      policyProvider = (case provider of Some p \<Rightarrow> p | None \<Rightarrow> StaticPolicyProvider DefaultPolicy),
      engineState = e, eventSink = sink, events = []\<rparr>"

definition SetPolicyProvider :: "policy_provider option \<Rightarrow> 'e Service \<Rightarrow> 'e Service" where
  "SetPolicyProvider provider s = (case provider of Some p \<Rightarrow> s\<lparr>policyProvider := p\<rparr> | None \<Rightarrow> s)"

definition PrimeLease :: "FlowContext \<Rightarrow> 'e Service \<Rightarrow> 'e Service" where
  "PrimeLease flow s =
     (if flow_LeaseID flow = [] then s
      else case policyProvider s flow of
             Inr p \<Rightarrow> s\<lparr>leasePolicies := AList.update (flow_LeaseID flow) p (leasePolicies s)\<rparr>
           | Inl _ \<Rightarrow> s)"

definition SetProviderUnavailable :: "bool \<Rightarrow> bool \<Rightarrow> 'e Service \<Rightarrow> 'e Service" where
  "SetProviderUnavailable unavailable pauseEvents s =
     s\<lparr>providerUnavailable := unavailable, eventsPaused := unavailable \<and> pauseEvents\<rparr>"

definition SetEventSink :: "bool \<Rightarrow> 'e Service \<Rightarrow> 'e Service" where
  "SetEventSink sink s = s\<lparr>eventSink := sink\<rparr>"

definition blockedByFinding :: "Policy \<Rightarrow> Finding \<Rightarrow> string option" where
  "blockedByFinding policy finding =
     (let d = ToLower (finding_Detector finding)
      in if d = ''http'' then (if \<not> dpi_AllowHTTP policy then Some ''http is blocked by user dpi policy'' else None)
         else if d = ''tls'' then (if \<not> dpi_AllowTLS policy then Some ''tls is blocked by user dpi policy'' else None)
         else if d = ''quic'' then (if \<not> dpi_AllowQUIC policy then Some ''quic is blocked by user dpi policy'' else None)
         else if d = ''encrypted_tunnel'' then
           (if \<not> dpi_AllowEncryptedTunnel policy then Some ''encrypted tunnel is blocked by user dpi policy'' else None)
         else None)"

fun blockedByPolicy :: "Policy \<Rightarrow> Finding list \<Rightarrow> (string \<times> Finding) option" where
  "blockedByPolicy policy [] = None"
| "blockedByPolicy policy (f # fs) =
     (case blockedByFinding policy f of Some reason \<Rightarrow> Some (reason, f) | None \<Rightarrow> blockedByPolicy policy fs)"

definition enabled_set :: "string list \<Rightarrow> string list" where
  "enabled_set ds = filter (\<lambda>d. d \<noteq> []) (map (\<lambda>d. ToLower (TrimSpace d)) ds)"

definition filterFindings :: "Finding list \<Rightarrow> string list \<Rightarrow> Finding list" where
  "filterFindings findings enabledDetectors =
     (if findings = [] then []
      else let enabled = enabled_set enabledDetectors
           in if enabled = [] then []
              else filter (\<lambda>f. ToLower (finding_Detector f) \<in> set enabled) findings)"

definition record_event :: "TrafficSample \<Rightarrow> Decision \<Rightarrow> Finding \<Rightarrow> 'e Service \<Rightarrow> 'e Service" where
  "record_event sample decision finding s =
     (if eventsPaused s then s
      else if \<not> eventSink s then s
      else s\<lparr>events := events s @ [\<lparr>event_Flow = sample_Flow sample, event_Direction = sample_Direction sample,
               event_Action = decision_Action decision, event_Reason = decision_Reason decision,
               event_Finding = finding, event_ObservedAt = sample_ObservedAt sample\<rparr>]\<rparr>)"

section \<open>Inspect\<close>

definition complete_sample :: "go_time \<Rightarrow> TrafficSample \<Rightarrow> TrafficSample" where
  "complete_sample now sample =
     (let s1 = (if time_is_zero (sample_ObservedAt sample) then sample\<lparr>sample_ObservedAt := now\<rparr> else sample);
          s2 = (if sample_PayloadLength s1 = 0 then s1\<lparr>sample_PayloadLength := int (length (sample_Payload s1))\<rparr> else s1)
      in if sample_CapturedLength s2 = 0 then s2\<lparr>sample_CapturedLength := int (length (sample_Payload s2))\<rparr> else s2)"

text \<open>The policy that applies to a flow: fresh from the provider, or the one frozen for its lease.\<close>

definition resolve_policy :: "FlowContext \<Rightarrow> 'e Service \<Rightarrow> (policy_error + Policy) \<times> 'e Service" where
  "resolve_policy flow s =
     (let got = (if providerUnavailable s then Inl ErrPolicySynchronizing else policyProvider s flow)
      in case got of
           Inr p \<Rightarrow> (Inr p, if flow_LeaseID flow \<noteq> []
                            then s\<lparr>leasePolicies := AList.update (flow_LeaseID flow) p (leasePolicies s)\<rparr> else s)
         | Inl e \<Rightarrow> (if flow_LeaseID flow \<noteq> []
                     then (case map_of (leasePolicies s) (flow_LeaseID flow) of Some p \<Rightarrow> Inr p | None \<Rightarrow> Inl e)
                     else Inl e, s))"

definition decide :: "Policy \<Rightarrow> Finding list \<Rightarrow> Decision" where
  "decide policy findings =
     (let d0 = \<lparr>decision_Action = ActionMonitor, decision_Reason = ''dpi finding observed'',
                decision_Finding = Some (hd findings), decision_Findings = findings\<rparr>;
          d1 = (if dpi_Mode policy = ModeBlock then
                  (case blockedByPolicy policy findings of
                     Some (reason, f) \<Rightarrow> d0\<lparr>decision_Action := ActionBlock, decision_Reason := reason,
                                            decision_Finding := Some f\<rparr>
                   | None \<Rightarrow> d0)
                else d0)
      in if decision_Action d1 \<noteq> ActionBlock \<and> dpi_Mode policy = ModeBlock \<and> dpi_BlockOnAnyFinding policy
         then d1\<lparr>decision_Action := ActionBlock, decision_Reason := ''blocked by dpi policy''\<rparr>
         else d1)"

definition Inspect :: "'e engine \<Rightarrow> go_time \<Rightarrow> TrafficSample \<Rightarrow> 'e Service \<Rightarrow> Decision \<times> 'e Service" where
  "Inspect engine now sample s =
     (let sample = complete_sample now sample;
          (policy, s) = resolve_policy (sample_Flow sample) s
      in case policy of
           Inl ErrPolicySynchronizing \<Rightarrow>
             (Allow\<lparr>decision_Action := ActionBlock,
                    decision_Reason := ''identity policy synchronization in progress''\<rparr>, s)
         | Inl (OtherError _) \<Rightarrow> (Allow, s)
         | Inr policy \<Rightarrow>
             if \<not> dpi_Enabled policy \<or> dpi_EnabledDetectors policy = [] then (Allow, s)
             else
               let (result, e) = engine sample (engineState s); s = s\<lparr>engineState := e\<rparr>
               in case result of
                    Inl err \<Rightarrow>
                      let d = Allow\<lparr>decision_Action := ActionMonitor, decision_Reason := ''dpi engine error: '' @ err\<rparr>
                      in (d, record_event sample d
                            (zero_Finding\<lparr>finding_Detector := ''engine'', finding_Summary := decision_Reason d\<rparr>) s)
                  | Inr found \<Rightarrow>
                      let findings = filterFindings found (dpi_EnabledDetectors policy)
                      in if findings = [] then (Allow, s)
                         else let d = decide policy findings
                              in (d, fold (\<lambda>f s. record_event sample d f s) findings s))"

section \<open>The contract of an engine, and what the service makes of it\<close>








lemma complete_sample_fields [simp]:
  "sample_Flow (complete_sample now sample) = sample_Flow sample"
  "sample_Payload (complete_sample now sample) = sample_Payload sample"
  by (simp_all add: complete_sample_def Let_def)

lemma resolve_engineState [simp]: "engineState (snd (resolve_policy flow s)) = engineState s"
  by (auto simp: resolve_policy_def Let_def split: sum.splits)



section \<open>The composite engine meets the contract\<close>

definition composite_engine :: "go_time \<Rightarrow> CompositeEngine engine" where
  "composite_engine clock sample states =
     (case Inspect_engine clock sample states of Some (fs, st) \<Rightarrow> (Inr fs, st) | None \<Rightarrow> (Inl ''panic'', states))"








section \<open>Outages\<close>

lemma Inspect_resolved:
  assumes "fst (resolve_policy (sample_Flow sample) s) = fst (resolve_policy (sample_Flow sample) t)"
    and "engineState s = engineState t"
  shows "fst (Inspect engine now sample s) = fst (Inspect engine now sample t)"
proof -
  obtain r s1 t1 where rs: "resolve_policy (sample_Flow sample) s = (r, s1)" "resolve_policy (sample_Flow sample) t = (r, t1)"
    using assms(1) by (metis prod.collapse)
  then have "engineState s1 = engineState t1" using assms(2) by (metis resolve_engineState snd_conv)
  with rs show ?thesis
    by (auto simp: Inspect_def Let_def split: sum.splits policy_error.splits prod.splits)
qed

text \<open>
  C20. During an outage of the policy source, traffic of a lease that was primed is judged exactly as
  the policy in force when it was primed judges it, and traffic of a lease without a frozen policy is
  blocked, never let through.
\<close>

theorem outage_keeps_policy:
  assumes "flow_LeaseID flow \<noteq> []" "policyProvider s flow = Inr p" "flow_LeaseID (sample_Flow sample) = flow_LeaseID flow"
  shows "fst (Inspect engine now sample (SetProviderUnavailable True pause (PrimeLease flow s)))
       = fst (Inspect engine now sample (s\<lparr>providerUnavailable := False, policyProvider := \<lambda>_. Inr p\<rparr>))
    \<and> (map_of (leasePolicies t) (flow_LeaseID (sample_Flow sample)) = None \<longrightarrow>
         Inspect engine now sample (SetProviderUnavailable True pause t)
           = (Allow\<lparr>decision_Action := ActionBlock,
                     decision_Reason := ''identity policy synchronization in progress''\<rparr>, SetProviderUnavailable True pause t))"
proof (intro conjI impI)
  show "fst (Inspect engine now sample (SetProviderUnavailable True pause (PrimeLease flow s)))
      = fst (Inspect engine now sample (s\<lparr>providerUnavailable := False, policyProvider := \<lambda>_. Inr p\<rparr>))"
    using assms
    by (intro Inspect_resolved) (simp_all add: resolve_policy_def SetProviderUnavailable_def PrimeLease_def Let_def)
next
  assume "map_of (leasePolicies t) (flow_LeaseID (sample_Flow sample)) = None"
  then show "Inspect engine now sample (SetProviderUnavailable True pause t)
      = (Allow\<lparr>decision_Action := ActionBlock,
               decision_Reason := ''identity policy synchronization in progress''\<rparr>, SetProviderUnavailable True pause t)"
    by (simp add: resolve_policy_def SetProviderUnavailable_def Inspect_def Let_def)
qed

definition demo_service :: "CompositeEngine Service" where
  "demo_service = NewService [] (Some (StaticPolicyProvider
     (DefaultPolicy\<lparr>dpi_Enabled := True, dpi_Mode := ModeBlock, dpi_AllowQUIC := False\<rparr>))) True"

definition demo_quic :: TrafficSample where
  "demo_quic = demo_sample\<lparr>sample_Payload := [0xC0, 0, 0, 0, 1] @ replicate 20 0\<rparr>"

theorem outage_keeps_policy_witness:
  "decision_Action (fst (Inspect (composite_engine 5) 5 demo_quic
      (SetProviderUnavailable True True (PrimeLease (sample_Flow demo_quic) demo_service)))) = ActionBlock
   \<and> decision_Reason (fst (Inspect (composite_engine 5) 5 demo_quic
      (SetProviderUnavailable True True (PrimeLease (sample_Flow demo_quic) demo_service))))
     = ''quic is blocked by user dpi policy''"
proof -
  let ?p = "DefaultPolicy\<lparr>dpi_Enabled := True, dpi_Mode := ModeBlock, dpi_AllowQUIC := False\<rparr>"
  have h: "flow_LeaseID (sample_Flow demo_quic) \<noteq> []" "policyProvider demo_service (sample_Flow demo_quic) = Inr ?p"
    by (simp_all add: demo_quic_def demo_sample_def demo_service_def NewService_def StaticPolicyProvider_def DefaultPolicy_def)
  have "(let d = fst (Inspect (composite_engine 5) 5 demo_quic
      (demo_service\<lparr>providerUnavailable := False, policyProvider := \<lambda>_. Inr ?p\<rparr>))
     in decision_Action d = ActionBlock \<and> decision_Reason d = ''quic is blocked by user dpi policy'')"
    by code_simp
  then show ?thesis
    using outage_keeps_policy [OF h refl, of "composite_engine 5" 5 True] by (simp add: Let_def)
qed

section \<open>Events\<close>

lemma record_event_fields [simp]:
  "eventsPaused (record_event sample d f s) = eventsPaused s"
  "eventSink (record_event sample d f s) = eventSink s"
  "length (events (record_event sample d f s)) = length (events s) + (if eventsPaused s \<or> \<not> eventSink s then 0 else 1)"
  by (simp_all add: record_event_def)




text \<open>
  C22. The policy fields \<open>MaxInspectBytes\<close>, \<open>TemporaryBlockTTL\<close> and \<open>EncryptedTunnelMode\<close>, which
  the administration interface stores per user, have no influence on any decision, with any engine.
\<close>

theorem policy_limits_ignored:
  "fst (Inspect engine now sample (s\<lparr>policyProvider := \<lambda>_. Inr (p\<lparr>dpi_MaxInspectBytes := n,
       dpi_TemporaryBlockTTL := ttl, dpi_EncryptedTunnelMode := mode\<rparr>), providerUnavailable := False\<rparr>))
   = fst (Inspect engine now sample (s\<lparr>policyProvider := \<lambda>_. Inr p, providerUnavailable := False\<rparr>))"
proof -
  let ?q = "p\<lparr>dpi_MaxInspectBytes := n, dpi_TemporaryBlockTTL := ttl, dpi_EncryptedTunnelMode := mode\<rparr>"
  have b: "blockedByPolicy ?q fs = blockedByPolicy p fs" for fs
    by (induction fs) (simp_all add: blockedByFinding_def Let_def split: option.split)
  have "decide ?q fs = decide p fs" for fs unfolding decide_def b by simp
  then show ?thesis
    by (simp add: Inspect_def resolve_policy_def Let_def split: prod.split sum.split)
qed

end
