(* ===== verification/Store.thy ===== *)
theory Store
  imports Db_Types Dpi_Types Go_Strings
begin

text \<open>
  The relational state of the controller (\<open>internal/db\<close>): the tables of \<open>schema.go\<close> and the
  operations of \<open>store.go\<close>, \<open>client_control.go\<close>, \<open>lease_release.go\<close>, \<open>user_node_cache.go\<close>,
  \<open>user_nodes.go\<close> and the policy part of \<open>dpi.go\<close>.

  An operation maps the store to \<open>Inl\<close> of the error it returns, in which case its transaction was
  rolled back and nothing changed, or to \<open>Inr\<close> of its result and the new store. Two things of the
  database server are parameters. \<open>coll\<close> maps a text value to its sort key: two texts are equal
  for SQL when their keys are, which a case-insensitive collation does for different spellings.
  \<open>db_now\<close> is \<open>CURRENT_TIMESTAMP(3)\<close> read as the driver reads a \<open>DATETIME\<close>, that is as a UTC
  time: on a server whose session time zone is not UTC it differs from \<open>time.Now()\<close> by the offset
  of the zone. The status and role columns only hold constants of the program and are compared
  exactly. Connection failures, column widths and the \<open>audit_logs\<close> table are left out.
\<close>

section \<open>Tables\<close>

type_synonym collation = "string \<Rightarrow> string"

datatype db_error =
    ErrNotFound
  | ErrLastAdmin
  | ErrAdminExists
  | ErrDuplicateKey
  | ErrForeignKey
  | ErrNoRows
  | ErrSuperseded
  | ErrRevisionCounter

record PolicyRow =
  prow_UserID :: int
  prow_PortStart :: int
  prow_PortEnd :: int
  prow_MaxPorts :: int
  prow_AllowedProtocols :: string
  prow_Enabled :: bool

record ProxySession =
  sess_LeaseID :: string
  sess_UserID :: int
  sess_TokenID :: int
  sess_ClientID :: string
  sess_ProxyName :: string
  sess_ProxyType :: string
  sess_RemotePort :: int
  sess_Domain :: string
  sess_Subdomain :: string
  sess_RunID :: string
  sess_Status :: string
  sess_CloseReason :: string
  sess_ClosedAt :: "go_time option"

record ClientCommand =
  cmd_ID :: int
  cmd_ClientID :: int
  cmd_Command :: string
  cmd_Message :: string
  cmd_Status :: string
  cmd_CreatedBy :: int
  cmd_CreatedAt :: go_time
  cmd_DeliveredAt :: "go_time option"
  cmd_AcknowledgedAt :: "go_time option"

record CacheRow =
  cache_UserID :: int
  cache_NodeID :: string
  cache_SessionID :: string
  cache_Applied :: int
  cache_Desired :: int
  cache_CachedAt :: "go_time option"

record CacheSession =
  csess_NodeID :: string
  csess_SessionID :: string
  csess_BootID :: string

text \<open>
  A row of \<open>dpi_user_policies\<close> is a policy without its detectors next to the text of its
  \<open>enabled_detectors\<close> column; \<open>edgeNodes\<close> holds the key column of \<open>edge_nodes\<close>. The counters
  are the next \<open>AUTO_INCREMENT\<close> values.
\<close>

record Store =
  settings :: "(string, string) go_map"
  users :: "User list"
  accessTokens :: "AccessToken list"
  adminTokens :: "AdminAPIToken list"
  portGrants :: "PortGrant list"
  userPolicies :: "PolicyRow list"
  clients :: "Client list"
  clientCommands :: "ClientCommand list"
  runtimeLeases :: "RuntimeLease list"
  leaseAllocations :: "ProxyAllocation list"
  proxySessions :: "ProxySession list"
  dpiPolicies :: "(Policy \<times> string) list"
  dpiEvents :: "(string \<times> Event) list"
  nodeAccess :: "(int \<times> string) list"
  edgeNodes :: "string list"
  identityRevision :: "int option"
  cacheSessions :: "CacheSession list"
  userNodeCache :: "CacheRow list"
  nextUserID :: int
  nextTokenID :: int
  nextGrantID :: int
  nextClientID :: int
  nextCommandID :: int
  nextLeaseID :: int
  nextAllocationID :: int

type_synonym 'a db_result = "db_error + 'a \<times> Store"

text \<open>A query for one row, and a query ordered by descending identifier.\<close>

definition query_row :: "('r \<Rightarrow> bool) \<Rightarrow> 'r list \<Rightarrow> db_error + 'r" where
  "query_row P rows = (case find P rows of None \<Rightarrow> Inl ErrNotFound | Some r \<Rightarrow> Inr r)"

definition order_by_desc :: "('r \<Rightarrow> int) \<Rightarrow> 'r list \<Rightarrow> 'r list" where
  "order_by_desc key rows = rev (sort_key key rows)"

section \<open>Protocol lists\<close>

definition allowed_protocol_names :: "string list" where
  "allowed_protocol_names =
     [''tcp'', ''udp'', ''http'', ''https'', ''tcpmux'', ''stcp'', ''xtcp'']"

fun normalize_protocols :: "string list \<Rightarrow> string list \<Rightarrow> string list" where
  "normalize_protocols seen [] = []"
| "normalize_protocols seen (p # ps) =
     (let protocol = ToLower (TrimSpace p) in
      if protocol \<notin> set allowed_protocol_names \<or> protocol \<in> set seen
      then normalize_protocols seen ps
      else protocol # normalize_protocols (protocol # seen) ps)"

definition normalizeProtocolList :: "string list \<Rightarrow> string list" where
  "normalizeProtocolList protocols = normalize_protocols [] protocols"

definition JoinProtocols :: "string list \<Rightarrow> string" where
  "JoinProtocols protocols = Join (normalizeProtocolList protocols) '',''"

definition SplitProtocols :: "string \<Rightarrow> string list" where
  "SplitProtocols s = normalizeProtocolList (Split s CHR '','')"

section \<open>Identity revisions and the per-node outbox\<close>

definition NextIdentityRevision :: "Store \<Rightarrow> int db_result" where
  "NextIdentityRevision s =
     (case identityRevision s of
        None \<Rightarrow> Inl ErrRevisionCounter
      | Some r \<Rightarrow> if r + 1 \<le> 0 then Inl ErrRevisionCounter
                  else Inr (r + 1, s\<lparr>identityRevision := Some (r + 1)\<rparr>))"

definition session_of :: "collation \<Rightarrow> string \<Rightarrow> CacheSession list \<Rightarrow> string option" where
  "session_of coll node rows =
     map_option csess_SessionID (find (\<lambda>c. coll (csess_NodeID c) = coll node) rows)"

text \<open>\<open>INSERT ... ON DUPLICATE KEY UPDATE desired_revision=GREATEST(...)\<close>.\<close>

definition upsert_desired ::
  "collation \<Rightarrow> int \<Rightarrow> string \<Rightarrow> string \<Rightarrow> int \<Rightarrow> CacheRow list \<Rightarrow> CacheRow list" where
  "upsert_desired coll userID node sid revision rows =
     (let same = (\<lambda>c. cache_UserID c = userID \<and> coll (cache_NodeID c) = coll node) in
      if list_ex same rows
      then update_where same (\<lambda>c. c\<lparr>cache_Desired := max (cache_Desired c) revision\<rparr>) rows
      else rows @ [\<lparr>cache_UserID = userID, cache_NodeID = node, cache_SessionID = sid,
                    cache_Applied = 0, cache_Desired = revision, cache_CachedAt = None\<rparr>])"

text \<open>
  The nodes a change of a user is addressed to: those that cache the user and those the user may
  use, as far as they are registered; a \<open>UNION\<close> keeps one node of each key.
\<close>

definition dirty_targets :: "collation \<Rightarrow> int \<Rightarrow> Store \<Rightarrow> string list" where
  "dirty_targets coll userID s =
     (let cached = map cache_NodeID (filter (\<lambda>c. cache_UserID c = userID) (userNodeCache s));
          granted = map snd (filter (\<lambda>g. fst g = userID) (nodeAccess s));
          union = fold (\<lambda>n acc. if coll n \<in> set (map coll acc) then acc else acc @ [n])
                    (cached @ granted) []
      in filter (\<lambda>n. coll n \<in> set (map coll (edgeNodes s))) union)"

definition markUserIdentityDirtyTx :: "collation \<Rightarrow> int \<Rightarrow> Store \<Rightarrow> unit db_result" where
  "markUserIdentityDirtyTx coll userID s =
     (case NextIdentityRevision s of
        Inl e \<Rightarrow> Inl e
      | Inr (revision, s1) \<Rightarrow>
          Inr ((), s1\<lparr>userNodeCache :=
            fold (\<lambda>node. upsert_desired coll userID node
                    (case session_of coll node (cacheSessions s1) of None \<Rightarrow> [] | Some sid \<Rightarrow> sid) revision)
              (dirty_targets coll userID s1) (userNodeCache s1)\<rparr>))"

definition MarkUserIdentityDirty :: "collation \<Rightarrow> int \<Rightarrow> Store \<Rightarrow> unit db_result" where
  "MarkUserIdentityDirty coll userID s = markUserIdentityDirtyTx coll userID s"

definition execUserIdentityChange ::
  "collation \<Rightarrow> int \<Rightarrow> (Store \<Rightarrow> 'a db_result) \<Rightarrow> Store \<Rightarrow> 'a db_result" where
  "execUserIdentityChange coll userID query s =
     (case query s of
        Inl e \<Rightarrow> Inl e
      | Inr (result, s1) \<Rightarrow>
          (case markUserIdentityDirtyTx coll userID s1 of
             Inl e \<Rightarrow> Inl e
           | Inr (_, s2) \<Rightarrow> Inr (result, s2)))"

definition PendingNodeIdentityUsers :: "collation \<Rightarrow> string \<Rightarrow> string \<Rightarrow> Store \<Rightarrow> int list" where
  "PendingNodeIdentityUsers coll node sid s =
     take 64 (sort (map cache_UserID (filter (\<lambda>c. coll (cache_NodeID c) = coll node \<and>
       coll (cache_SessionID c) = coll sid \<and> cache_Applied c < cache_Desired c) (userNodeCache s))))"

text \<open>The session identifiers are compared in Go, hence exactly.\<close>

definition lockCacheSession :: "collation \<Rightarrow> string \<Rightarrow> string \<Rightarrow> Store \<Rightarrow> db_error option" where
  "lockCacheSession coll node sid s =
     (case session_of coll node (cacheSessions s) of
        None \<Rightarrow> Some ErrNoRows
      | Some current \<Rightarrow> if current \<noteq> sid then Some ErrSuperseded else None)"

definition ResetNodeIdentityCache ::
  "collation \<Rightarrow> string \<Rightarrow> string \<Rightarrow> string \<Rightarrow> Store \<Rightarrow> unit db_result" where
  "ResetNodeIdentityCache coll node sid boot s =
     (let same = (\<lambda>c. coll (csess_NodeID c) = coll node);
          rows = (if list_ex same (cacheSessions s)
                  then update_where same (\<lambda>c. c\<lparr>csess_SessionID := sid, csess_BootID := boot\<rparr>) (cacheSessions s)
                  else cacheSessions s @
                    [\<lparr>csess_NodeID = node, csess_SessionID = sid, csess_BootID = boot\<rparr>])
      in Inr ((), s\<lparr>cacheSessions := rows,
                     userNodeCache := delete_where (\<lambda>c. coll (cache_NodeID c) = coll node) (userNodeCache s)\<rparr>))"

definition PrepareNodeIdentityCache ::
  "collation \<Rightarrow> string \<Rightarrow> string \<Rightarrow> int \<Rightarrow> int list \<Rightarrow> Store \<Rightarrow> unit db_result" where
  "PrepareNodeIdentityCache coll node sid revision userIDs s =
     (case lockCacheSession coll node sid s of
        Some e \<Rightarrow> Inl e
      | None \<Rightarrow> Inr ((), s\<lparr>userNodeCache :=
          fold (\<lambda>u. upsert_desired coll u node sid revision) userIDs (userNodeCache s)\<rparr>))"

definition cache_row_of :: "collation \<Rightarrow> int \<Rightarrow> string \<Rightarrow> string \<Rightarrow> CacheRow \<Rightarrow> bool" where
  "cache_row_of coll u node sid c \<longleftrightarrow>
     cache_UserID c = u \<and> coll (cache_NodeID c) = coll node \<and> coll (cache_SessionID c) = coll sid"

definition confirm_user ::
  "collation \<Rightarrow> go_time \<Rightarrow> string \<Rightarrow> string \<Rightarrow> int \<Rightarrow> int \<Rightarrow> CacheRow list \<Rightarrow> CacheRow list" where
  "confirm_user coll db_now node sid revision u rows =
     update_where (cache_row_of coll u node sid)
       (\<lambda>c. c\<lparr>cache_Applied := max (cache_Applied c) revision, cache_CachedAt := Some db_now\<rparr>) rows"

definition confirm_removed ::
  "collation \<Rightarrow> string \<Rightarrow> string \<Rightarrow> int \<Rightarrow> int \<Rightarrow> CacheRow list \<Rightarrow> CacheRow list" where
  "confirm_removed coll node sid revision u rows =
     delete_where (\<lambda>c. cache_row_of coll u node sid c \<and> cache_Desired c \<le> revision)
       (update_where (cache_row_of coll u node sid)
          (\<lambda>c. c\<lparr>cache_CachedAt := None, cache_Applied := max (cache_Applied c) revision\<rparr>) rows)"

definition confirm_full ::
  "collation \<Rightarrow> string \<Rightarrow> string \<Rightarrow> int \<Rightarrow> CacheRow list \<Rightarrow> CacheRow list" where
  "confirm_full coll node sid revision rows =
     (let here = (\<lambda>c. coll (cache_NodeID c) = coll node \<and> coll (cache_SessionID c) = coll sid) in
      delete_where (\<lambda>c. here c \<and> cache_Desired c \<le> revision \<and> cache_CachedAt c = None)
        (update_where (\<lambda>c. here c \<and> cache_Applied c < revision)
           (\<lambda>c. c\<lparr>cache_CachedAt := None, cache_Applied := revision\<rparr>) rows))"

definition ConfirmNodeIdentityCache ::
  "collation \<Rightarrow> go_time \<Rightarrow> string \<Rightarrow> string \<Rightarrow> int \<Rightarrow> int list \<Rightarrow> int list \<Rightarrow> bool \<Rightarrow> Store \<Rightarrow> unit db_result" where
  "ConfirmNodeIdentityCache coll db_now node sid revision us removed full s =
     (case lockCacheSession coll node sid s of
        Some e \<Rightarrow> Inl e
      | None \<Rightarrow>
          (let rows1 = fold (confirm_user coll db_now node sid revision) us (userNodeCache s);
               rows2 = fold (confirm_removed coll node sid revision) removed rows1;
               rows3 = (if full then confirm_full coll node sid revision rows2 else rows2)
           in Inr ((), s\<lparr>userNodeCache := rows3\<rparr>)))"

section \<open>Node access of users\<close>

definition ListNodeUserAccess :: "collation \<Rightarrow> string \<Rightarrow> Store \<Rightarrow> (int, bool) go_map" where
  "ListNodeUserAccess coll node s =
     fold (\<lambda>g m. if coll (snd g) = coll node then AList.update (fst g) True m else m) (nodeAccess s) []"

definition CanAccessNode :: "collation \<Rightarrow> int \<Rightarrow> string \<Rightarrow> Store \<Rightarrow> bool" where
  "CanAccessNode coll userID node s \<longleftrightarrow>
     0 < count_where (\<lambda>g. fst g = userID \<and> coll (snd g) = coll node) (nodeAccess s)"

text \<open>\<open>INSERT IGNORE\<close> skips a row whose key is taken.\<close>

definition insert_access :: "collation \<Rightarrow> int \<Rightarrow> string \<Rightarrow> (int \<times> string) list \<Rightarrow> (int \<times> string) list" where
  "insert_access coll userID node rows =
     (if list_ex (\<lambda>g. fst g = userID \<and> coll (snd g) = coll node) rows then rows
      else rows @ [(userID, node)])"

definition SaveUserNodeAccess :: "collation \<Rightarrow> int \<Rightarrow> string list \<Rightarrow> Store \<Rightarrow> unit db_result" where
  "SaveUserNodeAccess coll userID nodes s =
     (let s1 = s\<lparr>nodeAccess := fold (insert_access coll userID) nodes
                   (delete_where (\<lambda>g. fst g = userID) (nodeAccess s))\<rparr>;
          keeps = list_ex (\<lambda>g. fst g = userID \<and> coll (snd g) = coll ''controller'') (nodeAccess s1);
          s2 = s1\<lparr>runtimeLeases := update_where
                   (\<lambda>l. lease_UserID l = userID \<and> lease_Status l = ''active'' \<and> \<not> keeps)
                   (\<lambda>l. l\<lparr>lease_Status := ''revoked''\<rparr>) (runtimeLeases s1)\<rparr>
      in markUserIdentityDirtyTx coll userID s2)"

section \<open>Settings and users\<close>

definition IsInitialized :: "Store \<Rightarrow> bool" where
  "IsInitialized s = (case map_of (settings s) ''initialized'' of None \<Rightarrow> False | Some v \<Rightarrow> v = ''true'')"

definition SetSetting :: "string \<Rightarrow> string \<Rightarrow> Store \<Rightarrow> unit db_result" where
  "SetSetting key v s = Inr ((), s\<lparr>settings := AList.update key v (settings s)\<rparr>)"

text \<open>\<open>INSERT INTO users\<close>: the user name is a unique key.\<close>

definition insert_user ::
  "collation \<Rightarrow> go_time \<Rightarrow> string \<Rightarrow> string \<Rightarrow> string \<Rightarrow> string \<Rightarrow> Store \<Rightarrow> int db_result" where
  "insert_user coll db_now username displayName passwordHash role s =
     (if list_ex (\<lambda>u. coll (user_Username u) = coll username) (users s) then Inl ErrDuplicateKey
      else Inr (nextUserID s,
        s\<lparr>users := users s @ [\<lparr>user_ID = nextUserID s, user_Username = username,
            user_DisplayName = displayName, user_PasswordHash = passwordHash, user_Role = role,
            user_Status = ''active'', user_BanReason = [], user_CreatedAt = db_now,
            user_UpdatedAt = db_now\<rparr>],
          nextUserID := nextUserID s + 1\<rparr>))"

definition GetUserByID :: "int \<Rightarrow> Store \<Rightarrow> db_error + User" where
  "GetUserByID uid s = query_row (\<lambda>u. user_ID u = uid) (users s)"

definition GetUserByUsername :: "collation \<Rightarrow> string \<Rightarrow> Store \<Rightarrow> db_error + User" where
  "GetUserByUsername coll username s = query_row (\<lambda>u. coll (user_Username u) = coll username) (users s)"

definition ListUsers :: "Store \<Rightarrow> User list" where
  "ListUsers s = order_by_desc user_ID (users s)"

text \<open>A write followed by reading a row back.\<close>

definition then_get :: "(Store \<Rightarrow> 'a db_result) \<Rightarrow> ('a \<Rightarrow> Store \<Rightarrow> db_error + 'b) \<Rightarrow> Store \<Rightarrow> 'b db_result" where
  "then_get w g s =
     (case w s of
        Inl e \<Rightarrow> Inl e
      | Inr (x, s1) \<Rightarrow> (case g x s1 of Inl e \<Rightarrow> Inl e | Inr y \<Rightarrow> Inr (y, s1)))"

definition CreateInitialAdmin ::
  "collation \<Rightarrow> go_time \<Rightarrow> string \<Rightarrow> string \<Rightarrow> string \<Rightarrow> Store \<Rightarrow> User db_result" where
  "CreateInitialAdmin coll db_now username displayName passwordHash s =
     (if 0 < count_where (\<lambda>u. user_Role u = ''admin'') (users s) then Inl ErrAdminExists
      else case insert_user coll db_now username displayName passwordHash ''admin'' s of
             Inl e \<Rightarrow> Inl e
           | Inr (uid, s1) \<Rightarrow>
               then_get (\<lambda>s. Inr (uid, s\<lparr>settings := AList.update ''initialized'' ''true'' (settings s)\<rparr>))
                 GetUserByID s1)"

definition CreateUser ::
  "collation \<Rightarrow> go_time \<Rightarrow> string \<Rightarrow> string \<Rightarrow> string \<Rightarrow> string \<Rightarrow> Store \<Rightarrow> User db_result" where
  "CreateUser coll db_now username displayName passwordHash role =
     then_get (insert_user coll db_now username displayName passwordHash
                 (if role = [] then ''user'' else role)) GetUserByID"

text \<open>\<open>INSERT INTO access_tokens\<close>: the hash is a unique key and the user must exist.\<close>

definition insert_token ::
  "collation \<Rightarrow> go_time \<Rightarrow> int \<Rightarrow> string \<Rightarrow> string \<Rightarrow> string \<Rightarrow> string \<Rightarrow> int \<Rightarrow> go_time option \<Rightarrow> Store
     \<Rightarrow> int db_result" where
  "insert_token coll db_now userID name plainToken tokenHash tokenPrefix maxProxyCount expiresAt s =
     (if list_ex (\<lambda>t. coll (token_TokenHash t) = coll tokenHash) (accessTokens s) then Inl ErrDuplicateKey
      else if \<not> list_ex (\<lambda>u. user_ID u = userID) (users s) then Inl ErrForeignKey
      else Inr (nextTokenID s,
        s\<lparr>accessTokens := accessTokens s @ [\<lparr>token_ID = nextTokenID s, token_UserID = userID,
            token_Name = name, token_TokenHash = tokenHash, token_TokenPrefix = tokenPrefix,
            token_PlainToken = plainToken, token_Status = ''active'', token_BanReason = [],
            token_MaxProxyCount = maxProxyCount, token_ExpiresAt = expiresAt,
            token_CreatedAt = db_now, token_UpdatedAt = db_now\<rparr>],
          nextTokenID := nextTokenID s + 1\<rparr>))"

definition GetAccessTokenByID :: "int \<Rightarrow> Store \<Rightarrow> db_error + AccessToken" where
  "GetAccessTokenByID tid s = query_row (\<lambda>t. token_ID t = tid) (accessTokens s)"

definition GetAccessTokenByHash :: "collation \<Rightarrow> string \<Rightarrow> Store \<Rightarrow> db_error + AccessToken" where
  "GetAccessTokenByHash coll hash s = query_row (\<lambda>t. coll (token_TokenHash t) = coll hash) (accessTokens s)"

definition ListAccessTokens :: "Store \<Rightarrow> AccessToken list" where
  "ListAccessTokens s = order_by_desc token_ID (accessTokens s)"

definition default_policy_row :: "int \<Rightarrow> PolicyRow" where
  "default_policy_row userID =
     \<lparr>prow_UserID = userID, prow_PortStart = 1024, prow_PortEnd = 65535, prow_MaxPorts = 1,
      prow_AllowedProtocols = ''tcp,udp'', prow_Enabled = True\<rparr>"

definition CreateUserWithAccessToken ::
  "collation \<Rightarrow> go_time \<Rightarrow> string \<Rightarrow> string \<Rightarrow> string \<Rightarrow> string \<Rightarrow> string \<Rightarrow> string \<Rightarrow> string \<Rightarrow> string \<Rightarrow> int
     \<Rightarrow> Store \<Rightarrow> (User \<times> AccessToken) db_result" where
  "CreateUserWithAccessToken coll db_now username displayName passwordHash role tokenName plainToken
       tokenHash tokenPrefix maxProxyCount s =
     (case insert_user coll db_now username displayName passwordHash
             (if role = [] then ''user'' else role) s of
        Inl e \<Rightarrow> Inl e
      | Inr (userID, s1) \<Rightarrow>
          (case insert_token coll db_now userID
                  (if tokenName = [] then ''HTTPS API Token'' else tokenName) plainToken tokenHash
                  tokenPrefix (if maxProxyCount \<le> 0 then 1 else maxProxyCount) None s1 of
             Inl e \<Rightarrow> Inl e
           | Inr (tokenID, s2) \<Rightarrow>
               if list_ex (\<lambda>p. prow_UserID p = userID) (userPolicies s2) then Inl ErrDuplicateKey
               else
                 (let s3 = s2\<lparr>userPolicies := userPolicies s2 @ [default_policy_row userID]\<rparr> in
                  case (GetUserByID userID s3, GetAccessTokenByID tokenID s3) of
                    (Inr user, Inr token) \<Rightarrow> Inr ((user, token), s3)
                  | (Inl e, _) \<Rightarrow> Inl e
                  | (_, Inl e) \<Rightarrow> Inl e)))"

definition SetUserStatus :: "collation \<Rightarrow> go_time \<Rightarrow> int \<Rightarrow> string \<Rightarrow> string \<Rightarrow> Store \<Rightarrow> unit db_result" where
  "SetUserStatus coll db_now uid status reason =
     execUserIdentityChange coll uid (\<lambda>s. Inr ((), s\<lparr>users := update_where (\<lambda>u. user_ID u = uid)
       (\<lambda>u. u\<lparr>user_Status := status, user_BanReason := reason, user_UpdatedAt := db_now\<rparr>) (users s)\<rparr>))"

text \<open>The \<open>DELETE\<close> statements of \<open>DeleteUser\<close>, in their order; commands go with their client.\<close>

definition delete_user_rows :: "collation \<Rightarrow> int \<Rightarrow> Store \<Rightarrow> Store" where
  "delete_user_rows coll uid s =
     (let leaseIDs = map (coll \<circ> lease_LeaseID) (filter (\<lambda>l. lease_UserID l = uid) (runtimeLeases s));
          clientIDs = map client_ID (filter (\<lambda>c. client_UserID c = uid) (clients s));
          tokenIDs = map token_ID (filter (\<lambda>t. token_UserID t = uid) (accessTokens s))
      in s\<lparr>leaseAllocations := delete_where (\<lambda>a. coll (alloc_LeaseID a) \<in> set leaseIDs) (leaseAllocations s),
           proxySessions := delete_where (\<lambda>p. sess_UserID p = uid) (proxySessions s),
           dpiEvents := delete_where (\<lambda>e. flow_UserID (event_Flow (snd e)) = uid) (dpiEvents s),
           runtimeLeases := delete_where (\<lambda>l. lease_UserID l = uid) (runtimeLeases s),
           clients := delete_where (\<lambda>c. client_UserID c = uid) (clients s),
           clientCommands := delete_where (\<lambda>c. cmd_ClientID c \<in> set clientIDs) (clientCommands s),
           portGrants := delete_where (\<lambda>g. grant_TokenID g \<in> set tokenIDs) (portGrants s),
           accessTokens := delete_where (\<lambda>t. token_UserID t = uid) (accessTokens s),
           adminTokens := delete_where (\<lambda>t. admin_UserID t = uid) (adminTokens s),
           userPolicies := delete_where (\<lambda>p. prow_UserID p = uid) (userPolicies s),
           dpiPolicies := delete_where (\<lambda>p. dpi_UserID (fst p) = uid) (dpiPolicies s),
           nodeAccess := delete_where (\<lambda>g. fst g = uid) (nodeAccess s),
           users := delete_where (\<lambda>u. user_ID u = uid) (users s)\<rparr>)"

text \<open>
  The foreign keys that would stop the deletion: a client or lease of another user on one of the
  tokens that are deleted.
\<close>

definition foreign_rows :: "int \<Rightarrow> Store \<Rightarrow> bool" where
  "foreign_rows uid s \<longleftrightarrow>
     (let tokenIDs = map token_ID (filter (\<lambda>t. token_UserID t = uid) (accessTokens s)) in
      list_ex (\<lambda>c. client_UserID c \<noteq> uid \<and> client_TokenID c \<in> set tokenIDs) (clients s) \<or>
      list_ex (\<lambda>l. lease_UserID l \<noteq> uid \<and> lease_TokenID l \<in> set tokenIDs) (runtimeLeases s))"

definition DeleteUser :: "collation \<Rightarrow> int \<Rightarrow> Store \<Rightarrow> unit db_result" where
  "DeleteUser coll uid s =
     (case GetUserByID uid s of
        Inl _ \<Rightarrow> Inl ErrNotFound
      | Inr user \<Rightarrow>
          if user_Role user = ''admin'' \<and>
             count_where (\<lambda>u. user_Role u = ''admin'' \<and> user_Status u = ''active'' \<and> user_ID u \<noteq> uid)
               (users s) = 0
          then Inl ErrLastAdmin
          else if foreign_rows uid s then Inl ErrForeignKey
          else markUserIdentityDirtyTx coll uid (delete_user_rows coll uid s))"

section \<open>Policies, tokens and grants\<close>

definition read_policy :: "PolicyRow \<Rightarrow> UserResourcePolicy" where
  "read_policy p =
     \<lparr>policy_UserID = prow_UserID p, policy_PortStart = prow_PortStart p, policy_PortEnd = prow_PortEnd p,
      policy_MaxPorts = prow_MaxPorts p,
      policy_AllowedProtocols = SplitProtocols (prow_AllowedProtocols p), policy_Enabled = prow_Enabled p\<rparr>"

definition GetUserResourcePolicy :: "int \<Rightarrow> Store \<Rightarrow> db_error + UserResourcePolicy" where
  "GetUserResourcePolicy userID s =
     map_sum (\<lambda>e. e) read_policy (query_row (\<lambda>p. prow_UserID p = userID) (userPolicies s))"

definition ListUserResourcePolicies :: "Store \<Rightarrow> UserResourcePolicy list" where
  "ListUserResourcePolicies s = map read_policy (order_by_desc prow_UserID (userPolicies s))"

definition upsert_policy_row :: "PolicyRow \<Rightarrow> Store \<Rightarrow> unit db_result" where
  "upsert_policy_row row s =
     (if list_ex (\<lambda>p. prow_UserID p = prow_UserID row) (userPolicies s)
      then Inr ((), s\<lparr>userPolicies :=
             update_where (\<lambda>p. prow_UserID p = prow_UserID row) (\<lambda>_. row) (userPolicies s)\<rparr>)
      else if \<not> list_ex (\<lambda>u. user_ID u = prow_UserID row) (users s) then Inl ErrForeignKey
      else Inr ((), s\<lparr>userPolicies := userPolicies s @ [row]\<rparr>))"

definition UpsertUserResourcePolicy ::
  "collation \<Rightarrow> UserResourcePolicy \<Rightarrow> Store \<Rightarrow> UserResourcePolicy db_result" where
  "UpsertUserResourcePolicy coll p =
     then_get (execUserIdentityChange coll (policy_UserID p) (upsert_policy_row
       \<lparr>prow_UserID = policy_UserID p, prow_PortStart = policy_PortStart p, prow_PortEnd = policy_PortEnd p,
        prow_MaxPorts = (if policy_MaxPorts p \<le> 0 then 1 else policy_MaxPorts p),
        prow_AllowedProtocols = JoinProtocols (policy_AllowedProtocols p),
        prow_Enabled = policy_Enabled p\<rparr>))
       (\<lambda>_. GetUserResourcePolicy (policy_UserID p))"

definition CreateAccessToken ::
  "collation \<Rightarrow> go_time \<Rightarrow> int \<Rightarrow> string \<Rightarrow> string \<Rightarrow> string \<Rightarrow> string \<Rightarrow> int \<Rightarrow> go_time option \<Rightarrow> Store
     \<Rightarrow> AccessToken db_result" where
  "CreateAccessToken coll db_now userID name plainToken tokenHash tokenPrefix maxProxyCount expiresAt =
     then_get (execUserIdentityChange coll userID
       (insert_token coll db_now userID name plainToken tokenHash tokenPrefix maxProxyCount expiresAt))
       GetAccessTokenByID"

definition GetAdminAPITokenByUserID :: "int \<Rightarrow> Store \<Rightarrow> db_error + AdminAPIToken" where
  "GetAdminAPITokenByUserID userID s = query_row (\<lambda>t. admin_UserID t = userID) (adminTokens s)"

text \<open>
  \<open>ON DUPLICATE KEY UPDATE\<close> acts on the row of either unique key, the primary key first. When the
  hash belongs to another user that user's row is renewed and the read that follows finds nothing:
  the error comes with a changed store.
\<close>

definition CreateAdminAPIToken ::
  "collation \<Rightarrow> go_time \<Rightarrow> int \<Rightarrow> string \<Rightarrow> string \<Rightarrow> Store \<Rightarrow> (db_error + AdminAPIToken) \<times> Store" where
  "CreateAdminAPIToken coll db_now userID tokenHash tokenPrefix s =
     (let mine = (\<lambda>t. admin_UserID t = userID);
          hash = (\<lambda>t. coll (admin_TokenHash t) = coll tokenHash);
          renew = (\<lambda>t. t\<lparr>admin_TokenHash := tokenHash, admin_TokenPrefix := tokenPrefix,
                         admin_Status := ''active'', admin_UpdatedAt := db_now\<rparr>)
      in if list_ex mine (adminTokens s) \<and> list_ex (\<lambda>t. hash t \<and> \<not> mine t) (adminTokens s)
         then (Inl ErrDuplicateKey, s)
         else if \<not> list_ex mine (adminTokens s) \<and> \<not> list_ex hash (adminTokens s) \<and>
                 \<not> list_ex (\<lambda>u. user_ID u = userID) (users s)
         then (Inl ErrForeignKey, s)
         else
           (let rows = (if list_ex mine (adminTokens s) then update_where mine renew (adminTokens s)
                        else if list_ex hash (adminTokens s) then update_where hash renew (adminTokens s)
                        else adminTokens s @ [\<lparr>admin_UserID = userID, admin_TokenHash = tokenHash,
                               admin_TokenPrefix = tokenPrefix, admin_Status = ''active'',
                               admin_CreatedAt = db_now, admin_UpdatedAt = db_now\<rparr>]);
                s1 = s\<lparr>adminTokens := rows\<rparr>
            in (GetAdminAPITokenByUserID userID s1, s1)))"

definition SetAccessTokenStatus ::
  "collation \<Rightarrow> go_time \<Rightarrow> int \<Rightarrow> string \<Rightarrow> string \<Rightarrow> Store \<Rightarrow> unit db_result" where
  "SetAccessTokenStatus coll db_now tid status reason s =
     (case GetAccessTokenByID tid s of
        Inl e \<Rightarrow> Inl e
      | Inr token \<Rightarrow>
          execUserIdentityChange coll (token_UserID token) (\<lambda>s. Inr ((), s\<lparr>accessTokens :=
            update_where (\<lambda>t. token_ID t = tid)
              (\<lambda>t. t\<lparr>token_Status := status, token_BanReason := reason, token_UpdatedAt := db_now\<rparr>)
              (accessTokens s)\<rparr>)) s)"

definition RotateAccessToken ::
  "collation \<Rightarrow> go_time \<Rightarrow> int \<Rightarrow> string \<Rightarrow> string \<Rightarrow> string \<Rightarrow> Store \<Rightarrow> AccessToken db_result" where
  "RotateAccessToken coll db_now tid plainToken tokenHash tokenPrefix s =
     (case GetAccessTokenByID tid s of
        Inl e \<Rightarrow> Inl e
      | Inr token \<Rightarrow>
          then_get (execUserIdentityChange coll (token_UserID token) (\<lambda>s.
            if list_ex (\<lambda>t. token_ID t \<noteq> tid \<and> coll (token_TokenHash t) = coll tokenHash) (accessTokens s)
            then Inl ErrDuplicateKey
            else Inr ((), s\<lparr>accessTokens :=
              update_where (\<lambda>t. token_ID t = tid)
                (\<lambda>t. t\<lparr>token_TokenHash := tokenHash, token_TokenPrefix := tokenPrefix,
                       token_PlainToken := plainToken, token_Status := ''active'',
                       token_BanReason := [], token_UpdatedAt := db_now\<rparr>)
                (accessTokens s)\<rparr>)))
            (\<lambda>_. GetAccessTokenByID tid) s)"

definition CreatePortGrant :: "collation \<Rightarrow> PortGrant \<Rightarrow> Store \<Rightarrow> PortGrant db_result" where
  "CreatePortGrant coll grant s =
     (case GetAccessTokenByID (grant_TokenID grant) s of
        Inl e \<Rightarrow> Inl e
      | Inr token \<Rightarrow>
          then_get (execUserIdentityChange coll (token_UserID token) (\<lambda>s.
            Inr (nextGrantID s, s\<lparr>portGrants := portGrants s @ [grant\<lparr>grant_ID := nextGrantID s\<rparr>],
                                   nextGrantID := nextGrantID s + 1\<rparr>)))
            (\<lambda>gid s. query_row (\<lambda>g. grant_ID g = gid) (portGrants s)) s)"

definition ListPortGrants :: "int \<Rightarrow> Store \<Rightarrow> PortGrant list" where
  "ListPortGrants tokenID s = sort_key grant_ID (filter (\<lambda>g. grant_TokenID g = tokenID) (portGrants s))"

definition ListAllPortGrants :: "Store \<Rightarrow> PortGrant list" where
  "ListAllPortGrants s = sort_key grant_ID (portGrants s)"

section \<open>Inspection policies\<close>

definition splitCSV :: "string \<Rightarrow> string list" where
  "splitCSV v = filter (\<lambda>part. part \<noteq> []) (map TrimSpace (Split v CHR '',''))"

text \<open>The detectors of the argument are \<open>None\<close> for a nil slice.\<close>

definition normalizeDPIPolicy :: "Policy \<Rightarrow> string list option \<Rightarrow> Policy" where
  "normalizeDPIPolicy p detectors =
     p\<lparr>dpi_Mode := (if dpi_Mode p = [] then ModeMonitor else dpi_Mode p),
       dpi_EnabledDetectors := (case detectors of None \<Rightarrow> dpi_EnabledDetectors DefaultPolicy | Some d \<Rightarrow> d),
       dpi_MaxInspectBytes :=
         (if dpi_MaxInspectBytes p \<le> 0 then dpi_MaxInspectBytes DefaultPolicy else dpi_MaxInspectBytes p),
       dpi_TemporaryBlockTTL :=
         (if dpi_TemporaryBlockTTL p \<le> 0 then dpi_TemporaryBlockTTL DefaultPolicy
          else dpi_TemporaryBlockTTL p),
       dpi_EncryptedTunnelMode :=
         (if dpi_EncryptedTunnelMode p = [] then ModeMonitor else dpi_EncryptedTunnelMode p)\<rparr>"

definition GetDPIPolicy :: "int \<Rightarrow> Store \<Rightarrow> Policy" where
  "GetDPIPolicy userID s =
     (case find (\<lambda>p. dpi_UserID (fst p) = userID) (dpiPolicies s) of
        None \<Rightarrow> DefaultPolicy
      | Some (p, detectors) \<Rightarrow> p\<lparr>dpi_EnabledDetectors := splitCSV detectors\<rparr>)"

definition UpsertDPIPolicy :: "collation \<Rightarrow> Policy \<Rightarrow> string list option \<Rightarrow> Store \<Rightarrow> Policy db_result" where
  "UpsertDPIPolicy coll p0 detectors =
     (let p = normalizeDPIPolicy p0 detectors;
          row = (p\<lparr>dpi_EnabledDetectors := []\<rparr>, Join (dpi_EnabledDetectors p) '','');
          mine = (\<lambda>r. dpi_UserID (fst r) = dpi_UserID p)
      in then_get (execUserIdentityChange coll (dpi_UserID p) (\<lambda>s.
           if list_ex mine (dpiPolicies s)
           then Inr ((), s\<lparr>dpiPolicies := update_where mine (\<lambda>_. row) (dpiPolicies s)\<rparr>)
           else if \<not> list_ex (\<lambda>u. user_ID u = dpi_UserID p) (users s) then Inl ErrForeignKey
           else Inr ((), s\<lparr>dpiPolicies := dpiPolicies s @ [row]\<rparr>)))
         (\<lambda>_ s. Inr (GetDPIPolicy (dpi_UserID p) s)))"

section \<open>Clients\<close>

definition client_row :: "collation \<Rightarrow> int \<Rightarrow> string \<Rightarrow> Client \<Rightarrow> bool" where
  "client_row coll tokenID clientID c \<longleftrightarrow> client_TokenID c = tokenID \<and> coll (client_ClientID c) = coll clientID"

definition GetClientByID :: "int \<Rightarrow> Store \<Rightarrow> db_error + Client" where
  "GetClientByID cid s = query_row (\<lambda>c. client_ID c = cid) (clients s)"

definition GetClient :: "collation \<Rightarrow> int \<Rightarrow> string \<Rightarrow> Store \<Rightarrow> db_error + Client" where
  "GetClient coll tokenID clientID s = query_row (client_row coll tokenID clientID) (clients s)"

definition FindOrCreateClient ::
  "collation \<Rightarrow> go_time \<Rightarrow> int \<Rightarrow> int \<Rightarrow> string \<Rightarrow> Store \<Rightarrow> Client db_result" where
  "FindOrCreateClient coll db_now userID tokenID clientID s =
     (case GetClient coll tokenID clientID s of
        Inr c \<Rightarrow> Inr (c, s)
      | Inl _ \<Rightarrow>
          if \<not> list_ex (\<lambda>u. user_ID u = userID) (users s) \<or>
             \<not> list_ex (\<lambda>t. token_ID t = tokenID) (accessTokens s) then Inl ErrForeignKey
          else
            (let c = \<lparr>client_ID = nextClientID s, client_UserID = userID, client_TokenID = tokenID,
                      client_ClientID = clientID, client_Status = ''active'', client_BanReason = [],
                      client_FrpcAddr = [], client_FRPCRunning = False, client_LastSeenAt = Some db_now\<rparr>
             in then_get (\<lambda>s. Inr (nextClientID s, s\<lparr>clients := clients s @ [c],
                   nextClientID := nextClientID s + 1\<rparr>)) GetClientByID s))"

definition update_clients :: "(Client \<Rightarrow> bool) \<Rightarrow> (Client \<Rightarrow> Client) \<Rightarrow> Store \<Rightarrow> Store" where
  "update_clients P f s = s\<lparr>clients := update_where P f (clients s)\<rparr>"

definition UpdateClientFRPCAddress :: "collation \<Rightarrow> int \<Rightarrow> string \<Rightarrow> string \<Rightarrow> Store \<Rightarrow> Store" where
  "UpdateClientFRPCAddress coll tokenID clientID frpcAddr =
     update_clients (client_row coll tokenID clientID) (\<lambda>c. c\<lparr>client_FrpcAddr := frpcAddr\<rparr>)"

definition ListClients :: "Store \<Rightarrow> Client list" where
  "ListClients s = order_by_desc client_ID (clients s)"

definition SetClientStatus :: "int \<Rightarrow> string \<Rightarrow> string \<Rightarrow> Store \<Rightarrow> Store" where
  "SetClientStatus cid status reason =
     update_clients (\<lambda>c. client_ID c = cid)
       (\<lambda>c. c\<lparr>client_Status := status, client_BanReason := reason\<rparr>)"

definition TouchClientHeartbeat :: "go_time \<Rightarrow> int \<Rightarrow> bool \<Rightarrow> Store \<Rightarrow> Store" where
  "TouchClientHeartbeat db_now cid frpcRunning =
     update_clients (\<lambda>c. client_ID c = cid)
       (\<lambda>c. c\<lparr>client_LastSeenAt := Some db_now, client_FRPCRunning := frpcRunning\<rparr>)"

definition ClearClientPresence :: "int \<Rightarrow> Store \<Rightarrow> Store" where
  "ClearClientPresence cid =
     update_clients (\<lambda>c. client_ID c = cid)
       (\<lambda>c. c\<lparr>client_LastSeenAt := None, client_FrpcAddr := [], client_FRPCRunning := False\<rparr>)"

definition lease_of_client :: "collation \<Rightarrow> int \<Rightarrow> string \<Rightarrow> RuntimeLease \<Rightarrow> bool" where
  "lease_of_client coll tokenID clientID l \<longleftrightarrow>
     lease_TokenID l = tokenID \<and> coll (lease_ClientID l) = coll clientID"

definition DeleteClient :: "collation \<Rightarrow> int \<Rightarrow> Store \<Rightarrow> Client db_result" where
  "DeleteClient coll cid s =
     (case GetClientByID cid s of
        Inl e \<Rightarrow> Inl e
      | Inr client \<Rightarrow>
          (let tok = client_TokenID client; name = coll (client_ClientID client);
               leaseIDs = map (coll \<circ> lease_LeaseID)
                 (filter (lease_of_client coll tok (client_ClientID client)) (runtimeLeases s))
           in Inr (client,
             s\<lparr>leaseAllocations := delete_where (\<lambda>a. coll (alloc_LeaseID a) \<in> set leaseIDs) (leaseAllocations s),
               proxySessions := delete_where (\<lambda>p. sess_TokenID p = tok \<and> coll (sess_ClientID p) = name)
                 (proxySessions s),
               dpiEvents := delete_where (\<lambda>e. flow_TokenID (event_Flow (snd e)) = tok \<and>
                 coll (flow_ClientID (event_Flow (snd e))) = name) (dpiEvents s),
               runtimeLeases := delete_where (lease_of_client coll tok (client_ClientID client)) (runtimeLeases s),
               clientCommands := delete_where (\<lambda>c. cmd_ClientID c = client_ID client) (clientCommands s),
               clients := delete_where (\<lambda>c. client_ID c = client_ID client) (clients s)\<rparr>)))"

text \<open>\<open>TIMESTAMPDIFF(SECOND, a, b)\<close>: whole seconds from \<open>a\<close> to \<open>b\<close>, truncated towards zero.\<close>

definition timestampdiff_seconds :: "go_time \<Rightarrow> go_time \<Rightarrow> int" where
  "timestampdiff_seconds a b = (if a \<le> b then (b - a) div second else - ((a - b) div second))"

definition heartbeat_timeout :: "int \<Rightarrow> int" where
  "heartbeat_timeout timeoutSeconds = (if timeoutSeconds \<le> 0 then 60 else timeoutSeconds)"

definition seen_within :: "go_time \<Rightarrow> int \<Rightarrow> Client \<Rightarrow> bool" where
  "seen_within db_now timeoutSeconds c \<longleftrightarrow>
     (case client_LastSeenAt c of
        None \<Rightarrow> False
      | Some t \<Rightarrow> timestampdiff_seconds t db_now \<le> heartbeat_timeout timeoutSeconds)"

definition IsClientHeartbeatFresh :: "go_time \<Rightarrow> int \<Rightarrow> int \<Rightarrow> Store \<Rightarrow> db_error + bool" where
  "IsClientHeartbeatFresh db_now cid timeoutSeconds s =
     map_sum (\<lambda>e. e) (seen_within db_now timeoutSeconds) (GetClientByID cid s)"

text \<open>The rows of a query ordered by \<open>last_seen_at\<close>; MySQL sorts \<open>NULL\<close> first.\<close>

definition seen_key :: "Client \<Rightarrow> int" where
  "seen_key c = (case client_LastSeenAt c of None \<Rightarrow> -1 | Some t \<Rightarrow> t)"

definition ListRecentlySeenClients :: "go_time \<Rightarrow> int \<Rightarrow> Store \<Rightarrow> Client list" where
  "ListRecentlySeenClients db_now timeoutSeconds s =
     order_by_desc seen_key (filter (\<lambda>c. client_Status c = ''active'' \<and> seen_within db_now timeoutSeconds c)
       (clients s))"

definition ListClientsWithStaleActiveLeases :: "collation \<Rightarrow> go_time \<Rightarrow> Store \<Rightarrow> Client list" where
  "ListClientsWithStaleActiveLeases coll cutoff s =
     sort_key seen_key (filter (\<lambda>c. client_Status c = ''active'' \<and>
       (case client_LastSeenAt c of None \<Rightarrow> True | Some t \<Rightarrow> t < cutoff) \<and>
       list_ex (\<lambda>l. lease_of_client coll (client_TokenID c) (client_ClientID c) l \<and>
                    lease_Status l = ''active'') (runtimeLeases s)) (clients s))"

definition open_command :: "ClientCommand \<Rightarrow> bool" where
  "open_command c \<longleftrightarrow> cmd_Status c \<in> {''queued'', ''delivered''}"

definition ListClientsWithStaleHeartbeat :: "collation \<Rightarrow> go_time \<Rightarrow> int \<Rightarrow> Store \<Rightarrow> Client list" where
  "ListClientsWithStaleHeartbeat coll db_now timeoutSeconds s =
     sort_key seen_key (filter (\<lambda>c. client_Status c = ''active'' \<and>
       (case client_LastSeenAt c of
          Some t \<Rightarrow> timestampdiff_seconds t db_now > heartbeat_timeout timeoutSeconds
        | None \<Rightarrow>
            list_ex (\<lambda>l. lease_of_client coll (client_TokenID c) (client_ClientID c) l \<and>
                         lease_Status l = ''active'') (runtimeLeases s) \<or>
            list_ex (\<lambda>k. cmd_ClientID k = client_ID c \<and> open_command k) (clientCommands s))) (clients s))"

section \<open>Commands for clients\<close>

definition GetClientCommand :: "int \<Rightarrow> Store \<Rightarrow> db_error + ClientCommand" where
  "GetClientCommand kid s = query_row (\<lambda>c. cmd_ID c = kid) (clientCommands s)"

definition EnqueueClientCommand ::
  "go_time \<Rightarrow> int \<Rightarrow> int \<Rightarrow> string \<Rightarrow> string \<Rightarrow> Store \<Rightarrow> ClientCommand db_result" where
  "EnqueueClientCommand db_now cid createdBy command message =
     then_get (\<lambda>s.
       if \<not> list_ex (\<lambda>c. client_ID c = cid) (clients s) then Inl ErrForeignKey
       else Inr (nextCommandID s,
         s\<lparr>clientCommands := clientCommands s @ [\<lparr>cmd_ID = nextCommandID s, cmd_ClientID = cid,
              cmd_Command = command, cmd_Message = message, cmd_Status = ''queued'',
              cmd_CreatedBy = createdBy, cmd_CreatedAt = db_now, cmd_DeliveredAt = None,
              cmd_AcknowledgedAt = None\<rparr>],
            nextCommandID := nextCommandID s + 1\<rparr>))
       GetClientCommand"

definition mark_delivered :: "go_time \<Rightarrow> int \<Rightarrow> ClientCommand list \<Rightarrow> ClientCommand list" where
  "mark_delivered db_now kid rows =
     update_where (\<lambda>c. cmd_ID c = kid \<and> cmd_Status c = ''queued'')
       (\<lambda>c. c\<lparr>cmd_Status := ''delivered'', cmd_DeliveredAt := Some db_now\<rparr>) rows"

definition PopQueuedClientCommands :: "go_time \<Rightarrow> int \<Rightarrow> Store \<Rightarrow> ClientCommand list \<times> Store" where
  "PopQueuedClientCommands db_now cid s =
     (let commands = sort_key cmd_ID (filter (\<lambda>c. cmd_ClientID c = cid \<and> open_command c) (clientCommands s))
      in (commands,
          s\<lparr>clientCommands := fold (mark_delivered db_now) (map cmd_ID commands) (clientCommands s)\<rparr>))"

text \<open>
  The driver is opened without \<open>clientFoundRows\<close>, so \<open>RowsAffected\<close> counts the rows an update
  changes: an acknowledgement repeated within the same millisecond changes none.
\<close>

definition AcknowledgeClientCommand :: "go_time \<Rightarrow> int \<Rightarrow> int \<Rightarrow> Store \<Rightarrow> unit db_result" where
  "AcknowledgeClientCommand db_now kid cid s =
     (let P = (\<lambda>c. cmd_ID c = kid \<and> cmd_ClientID c = cid \<and>
                   cmd_Status c \<in> {''queued'', ''delivered'', ''acknowledged''});
          f = (\<lambda>c. c\<lparr>cmd_Status := ''acknowledged'', cmd_AcknowledgedAt := Some db_now\<rparr>)
      in if count_where (\<lambda>c. P c \<and> f c \<noteq> c) (clientCommands s) = 0 then Inl ErrNotFound
         else Inr ((), s\<lparr>clientCommands := update_where P f (clientCommands s)\<rparr>))"

definition DeleteQueuedClientCommands :: "int \<Rightarrow> Store \<Rightarrow> nat \<times> Store" where
  "DeleteQueuedClientCommands cid s =
     (let P = (\<lambda>c. cmd_ClientID c = cid \<and> open_command c)
      in (count_where P (clientCommands s),
          s\<lparr>clientCommands := delete_where P (clientCommands s)\<rparr>))"

section \<open>Runtime leases\<close>

definition active_lease_of :: "collation \<Rightarrow> int \<Rightarrow> string \<Rightarrow> RuntimeLease \<Rightarrow> bool" where
  "active_lease_of coll tokenID clientID l \<longleftrightarrow>
     lease_of_client coll tokenID clientID l \<and> lease_Status l = ''active''"

definition set_revoked :: "RuntimeLease \<Rightarrow> RuntimeLease" where
  "set_revoked l = l\<lparr>lease_Status := ''revoked''\<rparr>"

text \<open>
  \<open>SELECT COUNT(*) ... JOIN runtime_leases\<close>: some allocation of the port belongs to an active
  lease that has not expired by the clock of the database and is not a lease of the given client.
\<close>

definition RemotePortInUseExceptClient ::
  "collation \<Rightarrow> go_time \<Rightarrow> string \<Rightarrow> int \<Rightarrow> int \<Rightarrow> string \<Rightarrow> Store \<Rightarrow> bool" where
  "RemotePortInUseExceptClient coll db_now protocol remotePort tokenID clientID s \<longleftrightarrow>
     0 < count_where (\<lambda>(a, l). coll (lease_LeaseID l) = coll (alloc_LeaseID a) \<and>
           coll (alloc_ProxyType a) = coll protocol \<and> alloc_RemotePort a = remotePort \<and>
           lease_Status l = ''active'' \<and> db_now < lease_ExpiresAt l \<and>
           \<not> lease_of_client coll tokenID clientID l)
         (List.product (leaseAllocations s) (runtimeLeases s))"

definition RemotePortInUse :: "collation \<Rightarrow> go_time \<Rightarrow> string \<Rightarrow> int \<Rightarrow> Store \<Rightarrow> bool" where
  "RemotePortInUse coll db_now protocol remotePort s =
     RemotePortInUseExceptClient coll db_now protocol remotePort 0 [] s"

definition insert_lease :: "collation \<Rightarrow> RuntimeLease \<Rightarrow> Store \<Rightarrow> unit db_result" where
  "insert_lease coll l s =
     (if list_ex (\<lambda>r. coll (lease_LeaseID r) = coll (lease_LeaseID l) \<or>
                      coll (lease_RuntimeTokenHash r) = coll (lease_RuntimeTokenHash l)) (runtimeLeases s)
      then Inl ErrDuplicateKey
      else if \<not> list_ex (\<lambda>u. user_ID u = lease_UserID l) (users s) \<or>
              \<not> list_ex (\<lambda>t. token_ID t = lease_TokenID l) (accessTokens s)
      then Inl ErrForeignKey
      else Inr ((), s\<lparr>runtimeLeases := runtimeLeases s @ [l\<lparr>lease_ID := nextLeaseID s\<rparr>],
                      nextLeaseID := nextLeaseID s + 1\<rparr>))"

definition allocation_row :: "int \<Rightarrow> string \<Rightarrow> ProxyAllocationInput \<Rightarrow> ProxyAllocation" where
  "allocation_row aid leaseID a =
     \<lparr>alloc_ID = aid, alloc_LeaseID = leaseID, alloc_ProxyName = pin_ProxyName a,
      alloc_ProxyType = pin_ProxyType a, alloc_LocalIP = pin_LocalIP a, alloc_LocalPort = pin_LocalPort a,
      alloc_RemotePort = pin_RemotePort a, alloc_Domain = pin_Domain a, alloc_Subdomain = pin_Subdomain a\<rparr>"

fun insert_allocations ::
  "collation \<Rightarrow> string \<Rightarrow> ProxyAllocationInput list \<Rightarrow> Store \<Rightarrow> unit db_result" where
  "insert_allocations coll leaseID [] s = Inr ((), s)"
| "insert_allocations coll leaseID (a # as) s =
     (if list_ex (\<lambda>r. coll (alloc_LeaseID r) = coll leaseID \<and>
                      coll (alloc_ProxyName r) = coll (pin_ProxyName a)) (leaseAllocations s)
      then Inl ErrDuplicateKey
      else insert_allocations coll leaseID as
        (s\<lparr>leaseAllocations := leaseAllocations s @ [allocation_row (nextAllocationID s) leaseID a],
           nextAllocationID := nextAllocationID s + 1\<rparr>))"

definition CreateRuntimeLease ::
  "collation \<Rightarrow> string \<Rightarrow> int \<Rightarrow> int \<Rightarrow> string \<Rightarrow> string \<Rightarrow> go_time \<Rightarrow> ProxyAllocationInput list \<Rightarrow> Store
     \<Rightarrow> unit db_result" where
  "CreateRuntimeLease coll leaseID userID tokenID clientID runtimeTokenHash expiresAt allocations s =
     (let s1 = s\<lparr>runtimeLeases :=
                   update_where (active_lease_of coll tokenID clientID) set_revoked (runtimeLeases s)\<rparr>
      in case insert_lease coll
              \<lparr>lease_ID = 0, lease_LeaseID = leaseID, lease_UserID = userID, lease_TokenID = tokenID,
               lease_ClientID = clientID, lease_RuntimeTokenHash = runtimeTokenHash,
               lease_Status = ''active'', lease_ExpiresAt = expiresAt\<rparr> s1 of
           Inl e \<Rightarrow> Inl e
         | Inr (_, s2) \<Rightarrow> insert_allocations coll leaseID allocations s2)"

definition GetRuntimeLeaseByTokenHash :: "collation \<Rightarrow> string \<Rightarrow> Store \<Rightarrow> db_error + RuntimeLease" where
  "GetRuntimeLeaseByTokenHash coll hash s =
     query_row (\<lambda>l. coll (lease_RuntimeTokenHash l) = coll hash) (runtimeLeases s)"

definition GetRuntimeLeaseByLeaseID :: "collation \<Rightarrow> string \<Rightarrow> Store \<Rightarrow> db_error + RuntimeLease" where
  "GetRuntimeLeaseByLeaseID coll leaseID s =
     query_row (\<lambda>l. coll (lease_LeaseID l) = coll leaseID) (runtimeLeases s)"

definition GetLeaseAllocation ::
  "collation \<Rightarrow> string \<Rightarrow> string \<Rightarrow> string \<Rightarrow> int \<Rightarrow> string \<Rightarrow> string \<Rightarrow> Store \<Rightarrow> db_error + ProxyAllocation" where
  "GetLeaseAllocation coll leaseID proxyName proxyType remotePort domain subdomain s =
     query_row (\<lambda>a. coll (alloc_LeaseID a) = coll leaseID \<and> coll (alloc_ProxyName a) = coll proxyName \<and>
         coll (alloc_ProxyType a) = coll proxyType \<and> alloc_RemotePort a = remotePort \<and>
         coll (alloc_Domain a) = coll domain \<and> coll (alloc_Subdomain a) = coll subdomain)
       (leaseAllocations s)"

definition ReleaseRuntimeLease :: "collation \<Rightarrow> string \<Rightarrow> int \<Rightarrow> string \<Rightarrow> Store \<Rightarrow> bool \<times> Store" where
  "ReleaseRuntimeLease coll leaseID tokenID clientID s =
     (let P = (\<lambda>l. coll (lease_LeaseID l) = coll leaseID \<and> active_lease_of coll tokenID clientID l)
      in (0 < count_where P (runtimeLeases s),
          s\<lparr>runtimeLeases := update_where P set_revoked (runtimeLeases s)\<rparr>))"

section \<open>Proxy sessions\<close>

definition CountActiveProxySessions :: "int \<Rightarrow> Store \<Rightarrow> nat" where
  "CountActiveProxySessions tokenID s =
     count_where (\<lambda>p. sess_TokenID p = tokenID \<and> sess_Status p = ''active'') (proxySessions s)"

definition StartProxySession ::
  "collation \<Rightarrow> RuntimeLease \<Rightarrow> string \<Rightarrow> string \<Rightarrow> int \<Rightarrow> string \<Rightarrow> string \<Rightarrow> string \<Rightarrow> Store \<Rightarrow> Store" where
  "StartProxySession coll lease proxyName proxyType remotePort domain subdomain runID s =
     (let same = (\<lambda>p. coll (sess_LeaseID p) = coll (lease_LeaseID lease) \<and>
                      coll (sess_ProxyName p) = coll proxyName)
      in s\<lparr>proxySessions :=
           (if list_ex same (proxySessions s)
            then update_where same
                   (\<lambda>p. p\<lparr>sess_Status := ''active'', sess_RunID := runID, sess_ClosedAt := None\<rparr>) (proxySessions s)
            else proxySessions s @
              [\<lparr>sess_LeaseID = lease_LeaseID lease, sess_UserID = lease_UserID lease,
                sess_TokenID = lease_TokenID lease, sess_ClientID = lease_ClientID lease,
                sess_ProxyName = proxyName, sess_ProxyType = proxyType, sess_RemotePort = remotePort,
                sess_Domain = domain, sess_Subdomain = subdomain, sess_RunID = runID,
                sess_Status = ''active'', sess_CloseReason = [], sess_ClosedAt = None\<rparr>])\<rparr>)"

definition close_sessions :: "go_time \<Rightarrow> string \<Rightarrow> (ProxySession \<Rightarrow> bool) \<Rightarrow> Store \<Rightarrow> Store" where
  "close_sessions db_now reason P s =
     s\<lparr>proxySessions := update_where (\<lambda>p. P p \<and> sess_Status p = ''active'')
       (\<lambda>p. p\<lparr>sess_Status := ''closed'', sess_CloseReason := reason, sess_ClosedAt := Some db_now\<rparr>)
       (proxySessions s)\<rparr>"

definition CloseProxySession :: "collation \<Rightarrow> go_time \<Rightarrow> string \<Rightarrow> string \<Rightarrow> string \<Rightarrow> Store \<Rightarrow> Store" where
  "CloseProxySession coll db_now leaseID proxyName reason =
     close_sessions db_now reason
       (\<lambda>p. coll (sess_LeaseID p) = coll leaseID \<and> coll (sess_ProxyName p) = coll proxyName)"

definition RevokeActiveRuntimeLeasesForClient ::
  "collation \<Rightarrow> go_time \<Rightarrow> int \<Rightarrow> string \<Rightarrow> string \<Rightarrow> Store \<Rightarrow> nat \<times> Store" where
  "RevokeActiveRuntimeLeasesForClient coll db_now tokenID clientID reason s =
     (count_where (active_lease_of coll tokenID clientID) (runtimeLeases s),
      close_sessions db_now reason
        (\<lambda>p. sess_TokenID p = tokenID \<and> coll (sess_ClientID p) = coll clientID)
        (s\<lparr>runtimeLeases :=
             update_where (active_lease_of coll tokenID clientID) set_revoked (runtimeLeases s)\<rparr>))"

end
