(* ===== verification/Store_Invariant.thy ===== *)
theory Store_Invariant
  imports Store
begin

text \<open>
  Well-formedness of the relational state: the unique keys and the foreign keys of \<open>schema.go\<close>,
  and the ownership rule the handlers rely on (a client or lease belongs to the user who owns its
  token). Each operation of the store keeps the invariant.
\<close>

section \<open>Keys and references\<close>

definition keyed :: "('r \<Rightarrow> 'k) \<Rightarrow> 'r list \<Rightarrow> bool" where
  "keyed f rows \<longleftrightarrow> distinct (map f rows)"

definition refers :: "('r \<Rightarrow> 'k) \<Rightarrow> 'r list \<Rightarrow> ('q \<Rightarrow> 'k) \<Rightarrow> 'q list \<Rightarrow> bool" where
  "refers f rows g qs \<longleftrightarrow> f ` set rows \<subseteq> g ` set qs"

named_theorems table_rules \<open>keys and references under the statements of SQL\<close>

lemma keyed_Nil [simp]: "keyed f []"
  by (simp add: keyed_def)

lemma keyed_update [table_rules]:
  "keyed f rows \<Longrightarrow> (\<And>r. P r \<Longrightarrow> f (h r) = f r) \<Longrightarrow> keyed f (update_where P h rows)"
  by (simp add: keyed_def map_update_where_same)

lemma keyed_delete [table_rules]: "keyed f rows \<Longrightarrow> keyed f (delete_where P rows)"
  by (simp add: keyed_def)

lemma keyed_insert [table_rules]: "keyed f rows \<Longrightarrow> f r \<notin> f ` set rows \<Longrightarrow> keyed f (rows @ [r])"
  by (simp add: keyed_def)

lemma keyed_fresh [table_rules]:
  "keyed f rows \<Longrightarrow> (\<forall>q \<in> set rows. f q < (n :: int)) \<Longrightarrow> f r = n \<Longrightarrow> keyed f (rows @ [r])"
  by (rule keyed_insert) auto

lemma keyedD: "keyed f rows \<Longrightarrow> r \<in> set rows \<Longrightarrow> q \<in> set rows \<Longrightarrow> f r = f q \<Longrightarrow> r = q"
  by (auto simp: keyed_def distinct_map inj_on_def)

text \<open>An update of the one row with a given key to a value no other row has.\<close>

lemma keyed_update_one:
  assumes "keyed key rows" "keyed f rows"
    and other: "\<And>r. r \<in> set rows \<Longrightarrow> key r \<noteq> k \<Longrightarrow> f r \<noteq> v" and new: "\<And>r. key r = k \<Longrightarrow> f (h r) = v"
  shows "keyed f (update_where (\<lambda>r. key r = k) h rows)"
proof -
  have "map f (update_where (\<lambda>r. key r = k) h rows) = map (\<lambda>r. if key r = k then v else f r) rows"
    using new by (simp add: update_where_def)
  moreover have "inj_on (\<lambda>r. if key r = k then v else f r) (set rows)"
  proof (rule inj_onI)
    fix r q assume rq: "r \<in> set rows" "q \<in> set rows"
      and eq: "(if key r = k then v else f r) = (if key q = k then v else f q)"
    show "r = q"
      by (cases "key r = k"; cases "key q = k")
        (use rq eq other [of r] other [of q] keyedD [OF assms(1), of r q] keyedD [OF assms(2), of r q] in auto)
  qed
  moreover have "distinct rows" using assms(1) by (simp add: keyed_def distinct_map)
  ultimately show ?thesis by (simp add: keyed_def distinct_map)
qed

lemma keyed_find:
  "keyed f rows \<Longrightarrow> r \<in> set rows \<Longrightarrow> f r = k \<Longrightarrow> find (\<lambda>q. f q = k) rows = Some r"
  unfolding keyed_def by (rule find_distinct_key)

lemma refers_update [table_rules]:
  "refers f rows g qs \<Longrightarrow> (\<And>r. P r \<Longrightarrow> f (h r) = f r) \<Longrightarrow> refers f (update_where P h rows) g qs"
  unfolding refers_def by (auto simp: set_update_where image_iff)

lemma refers_delete [table_rules]: "refers f rows g qs \<Longrightarrow> refers f (delete_where P rows) g qs"
  by (auto simp: refers_def)

lemma refers_insert [table_rules]:
  "refers f rows g qs \<Longrightarrow> f r \<in> g ` set qs \<Longrightarrow> refers f (rows @ [r]) g qs"
  by (simp add: refers_def)

lemma refers_target_update [table_rules]:
  "refers f rows g qs \<Longrightarrow> (\<And>r. P r \<Longrightarrow> g (h r) = g r) \<Longrightarrow> refers f rows g (update_where P h qs)"
  using map_update_where_same [of P g h qs] unfolding refers_def
  by (metis (no_types, lifting) set_map)

lemma refers_target_insert [table_rules]: "refers f rows g qs \<Longrightarrow> refers f rows g (qs @ [q])"
  by (auto simp: refers_def)

lemma refers_target_delete [table_rules]:
  assumes "refers f rows g qs" "\<And>r q. r \<in> set rows \<Longrightarrow> q \<in> set qs \<Longrightarrow> P q \<Longrightarrow> f r = g q \<Longrightarrow> Q r"
  shows "refers f (delete_where Q rows) g (delete_where P qs)"
  using assms unfolding refers_def by (auto simp: image_iff subset_iff) metis

lemma refersD: "refers f rows g qs \<Longrightarrow> r \<in> set rows \<Longrightarrow> \<exists>q \<in> set qs. g q = f r"
  unfolding refers_def by (metis image_iff image_subset_iff)

lemma query_row_Inr: "query_row P rows = Inr r \<Longrightarrow> r \<in> set rows \<and> P r"
  by (auto simp: query_row_def split: option.splits dest!: find_Some_iff')

lemma list_ex_image: "list_ex (\<lambda>q. g q = k) qs \<longleftrightarrow> k \<in> g ` set qs"
  by (auto simp: list_ex_iff)

section \<open>The invariant\<close>

definition users_ok :: "collation \<Rightarrow> Store \<Rightarrow> bool" where
  "users_ok coll s \<longleftrightarrow> keyed user_ID (users s) \<and> keyed (coll \<circ> user_Username) (users s) \<and>
     (\<forall>u \<in> set (users s). user_ID u < nextUserID s)"

definition owner_key :: "AccessToken \<Rightarrow> int \<times> int" where
  "owner_key t = (token_ID t, token_UserID t)"

definition tokens_ok :: "collation \<Rightarrow> Store \<Rightarrow> bool" where
  "tokens_ok coll s \<longleftrightarrow> keyed token_ID (accessTokens s) \<and> keyed (coll \<circ> token_TokenHash) (accessTokens s) \<and>
     (\<forall>t \<in> set (accessTokens s). token_ID t < nextTokenID s) \<and>
     refers token_UserID (accessTokens s) user_ID (users s) \<and>
     keyed grant_ID (portGrants s) \<and> (\<forall>g \<in> set (portGrants s). grant_ID g < nextGrantID s) \<and>
     refers grant_TokenID (portGrants s) token_ID (accessTokens s) \<and>
     keyed admin_UserID (adminTokens s) \<and> keyed (coll \<circ> admin_TokenHash) (adminTokens s) \<and>
     refers admin_UserID (adminTokens s) user_ID (users s)"

definition policies_ok :: "Store \<Rightarrow> bool" where
  "policies_ok s \<longleftrightarrow> keyed prow_UserID (userPolicies s) \<and>
     refers prow_UserID (userPolicies s) user_ID (users s) \<and>
     keyed (dpi_UserID \<circ> fst) (dpiPolicies s) \<and> refers (dpi_UserID \<circ> fst) (dpiPolicies s) user_ID (users s)"

definition client_key :: "collation \<Rightarrow> Client \<Rightarrow> int \<times> string" where
  "client_key coll c = (client_TokenID c, coll (client_ClientID c))"

definition clients_ok :: "collation \<Rightarrow> Store \<Rightarrow> bool" where
  "clients_ok coll s \<longleftrightarrow> keyed client_ID (clients s) \<and> keyed (client_key coll) (clients s) \<and>
     (\<forall>c \<in> set (clients s). client_ID c < nextClientID s) \<and>
     refers (\<lambda>c. (client_TokenID c, client_UserID c)) (clients s) owner_key (accessTokens s) \<and>
     keyed cmd_ID (clientCommands s) \<and> (\<forall>k \<in> set (clientCommands s). cmd_ID k < nextCommandID s) \<and>
     refers cmd_ClientID (clientCommands s) client_ID (clients s)"

definition alloc_key :: "collation \<Rightarrow> ProxyAllocation \<Rightarrow> string \<times> string" where
  "alloc_key coll a = (coll (alloc_LeaseID a), coll (alloc_ProxyName a))"

definition session_key :: "collation \<Rightarrow> ProxySession \<Rightarrow> string \<times> string" where
  "session_key coll p = (coll (sess_LeaseID p), coll (sess_ProxyName p))"

definition leases_ok :: "collation \<Rightarrow> Store \<Rightarrow> bool" where
  "leases_ok coll s \<longleftrightarrow> keyed (coll \<circ> lease_LeaseID) (runtimeLeases s) \<and>
     keyed (coll \<circ> lease_RuntimeTokenHash) (runtimeLeases s) \<and>
     refers (\<lambda>l. (lease_TokenID l, lease_UserID l)) (runtimeLeases s) owner_key (accessTokens s) \<and>
     keyed (alloc_key coll) (leaseAllocations s) \<and>
     refers (coll \<circ> alloc_LeaseID) (leaseAllocations s) (coll \<circ> lease_LeaseID) (runtimeLeases s) \<and>
     keyed (session_key coll) (proxySessions s)"

definition cache_key :: "collation \<Rightarrow> CacheRow \<Rightarrow> int \<times> string" where
  "cache_key coll c = (cache_UserID c, coll (cache_NodeID c))"

definition current_session :: "collation \<Rightarrow> string \<Rightarrow> CacheSession list \<Rightarrow> string" where
  "current_session coll node rows = (case session_of coll node rows of None \<Rightarrow> [] | Some sid \<Rightarrow> sid)"

definition cache_ok :: "collation \<Rightarrow> Store \<Rightarrow> bool" where
  "cache_ok coll s \<longleftrightarrow> (\<exists>r \<ge> 0. identityRevision s = Some r) \<and>
     keyed (\<lambda>g. (fst g, coll (snd g))) (nodeAccess s) \<and>
     keyed (coll \<circ> csess_NodeID) (cacheSessions s) \<and> keyed (cache_key coll) (userNodeCache s) \<and>
     (\<forall>c \<in> set (userNodeCache s).
        cache_SessionID c = current_session coll (cache_NodeID c) (cacheSessions s))"

definition store_inv :: "collation \<Rightarrow> Store \<Rightarrow> bool" where
  "store_inv coll s \<longleftrightarrow> users_ok coll s \<and> tokens_ok coll s \<and> policies_ok s \<and> clients_ok coll s \<and>
     leases_ok coll s \<and> cache_ok coll s"

section \<open>Preservation\<close>

text \<open>The store after a call: unchanged when the call fails.\<close>

definition commit :: "Store \<Rightarrow> 'a db_result \<Rightarrow> Store" where
  "commit s r = (case r of Inl _ \<Rightarrow> s | Inr (_, s') \<Rightarrow> s')"

definition keeps :: "collation \<Rightarrow> (Store \<Rightarrow> 'a db_result) \<Rightarrow> bool" where
  "keeps coll f \<longleftrightarrow> (\<forall>s x s'. store_inv coll s \<longrightarrow> f s = Inr (x, s') \<longrightarrow> store_inv coll s')"

named_theorems keeps_rules \<open>calls that keep the invariant of the store\<close>

lemma keepsI: "(\<And>s x s'. store_inv coll s \<Longrightarrow> f s = Inr (x, s') \<Longrightarrow> store_inv coll s') \<Longrightarrow> keeps coll f"
  by (simp add: keeps_def)

lemma keepsD: "keeps coll f \<Longrightarrow> f s = Inr (x, s') \<Longrightarrow> store_inv coll s \<Longrightarrow> store_inv coll s'"
  by (simp add: keeps_def)

lemma keeps_commit: "keeps coll f \<Longrightarrow> store_inv coll s \<Longrightarrow> store_inv coll (commit s (f s))"
  by (auto simp: commit_def dest: keepsD split: sum.splits)

lemma keeps_then_get [keeps_rules]: "keeps coll w \<Longrightarrow> keeps coll (then_get w g)"
  by (rule keepsI) (auto simp: then_get_def dest: keepsD split: sum.splits)

lemmas store_parts = store_inv_def users_ok_def tokens_ok_def policies_ok_def clients_ok_def leases_ok_def
  cache_ok_def

text \<open>The outbox of identity changes.\<close>

lemma session_of_coll: "coll n = coll m \<Longrightarrow> session_of coll n rows = session_of coll m rows"
  by (simp add: session_of_def)

lemma keyed_upsert_desired:
  "keyed (cache_key coll) rows \<Longrightarrow> keyed (cache_key coll) (upsert_desired coll u n sid r rows)"
  by (auto simp: upsert_desired_def Let_def list_ex_iff cache_key_def intro!: keyed_update keyed_insert)

lemma upsert_desired_session:
  assumes "\<forall>c \<in> set rows. cache_SessionID c = current_session coll (cache_NodeID c) cs"
    and "sid = current_session coll n cs"
  shows "\<forall>c \<in> set (upsert_desired coll u n sid r rows). cache_SessionID c = current_session coll (cache_NodeID c) cs"
  using assms by (auto simp: upsert_desired_def Let_def in_update_where)

lemma upsert_many:
  assumes "keyed (cache_key coll) rows"
    and "\<forall>c \<in> set rows. cache_SessionID c = current_session coll (cache_NodeID c) cs"
    and "\<And>x. x \<in> set xs \<Longrightarrow> sid x = current_session coll (node x) cs"
  shows "keyed (cache_key coll) (fold (\<lambda>x. upsert_desired coll (user x) (node x) (sid x) r) xs rows) \<and>
    (\<forall>c \<in> set (fold (\<lambda>x. upsert_desired coll (user x) (node x) (sid x) r) xs rows).
       cache_SessionID c = current_session coll (cache_NodeID c) cs)"
  using assms
proof (induction xs arbitrary: rows)
  case (Cons x xs)
  let ?rows = "upsert_desired coll (user x) (node x) (sid x) r rows"
  have "keyed (cache_key coll) ?rows" using Cons.prems(1) by (rule keyed_upsert_desired)
  moreover have "\<forall>c \<in> set ?rows. cache_SessionID c = current_session coll (cache_NodeID c) cs"
    using Cons.prems by (intro upsert_desired_session) auto
  ultimately show ?case using Cons.IH [of ?rows] Cons.prems(3) by simp
qed simp

lemma mark_dirty_result:
  assumes "markUserIdentityDirtyTx coll u s = Inr (x, s')"
  obtains r where "identityRevision s = Some r" "0 < r + 1"
    "s' = s\<lparr>identityRevision := Some (r + 1), userNodeCache :=
       fold (\<lambda>n. upsert_desired coll u n (current_session coll n (cacheSessions s)) (r + 1))
         (dirty_targets coll u s) (userNodeCache s)\<rparr>"
proof -
  have targets: "dirty_targets coll u (s\<lparr>identityRevision := v\<rparr>) = dirty_targets coll u s" for v
    by (simp add: dirty_targets_def)
  show ?thesis
    using assms that
    by (auto simp: markUserIdentityDirtyTx_def NextIdentityRevision_def current_session_def targets
        split: option.splits if_splits)
qed

lemma keeps_mark [keeps_rules]: "keeps coll (markUserIdentityDirtyTx coll u)"
proof (rule keepsI)
  fix s x s' assume inv: "store_inv coll s" and eq: "markUserIdentityDirtyTx coll u s = Inr (x, s')"
  from eq obtain r where r: "identityRevision s = Some r" "0 < r + 1"
    and s': "s' = s\<lparr>identityRevision := Some (r + 1), userNodeCache :=
       fold (\<lambda>n. upsert_desired coll u n (current_session coll n (cacheSessions s)) (r + 1))
         (dirty_targets coll u s) (userNodeCache s)\<rparr>"
    by (rule mark_dirty_result)
  have "cache_ok coll s" using inv by (simp add: store_inv_def)
  then have "cache_ok coll s'"
    using r upsert_many [of coll "userNodeCache s" "cacheSessions s" "dirty_targets coll u s"
        "\<lambda>n. current_session coll n (cacheSessions s)" "\<lambda>n. n" "\<lambda>_. u" "r + 1"]
    by (simp add: s' cache_ok_def)
  then show "store_inv coll s'"
    using inv by (simp add: s' store_inv_def users_ok_def tokens_ok_def policies_ok_def clients_ok_def leases_ok_def)
qed

lemma keeps_exec [keeps_rules]: "keeps coll q \<Longrightarrow> keeps coll (execUserIdentityChange coll u q)"
proof (rule keepsI)
  fix s x s' assume q: "keeps coll q" and inv: "store_inv coll s"
    and eq: "execUserIdentityChange coll u q s = Inr (x, s')"
  then obtain t where "q s = Inr (x, t)" "markUserIdentityDirtyTx coll u t = Inr ((), s')"
    by (auto simp: execUserIdentityChange_def split: sum.splits)
  then show "store_inv coll s'" using q inv keeps_mark by (metis keepsD)
qed

text \<open>Statements on users, tokens and policies.\<close>

lemma keeps_SetSetting [keeps_rules]: "keeps coll (SetSetting k v)"
  by (rule keepsI) (auto simp: SetSetting_def store_parts)

lemma store_inv_settings: "store_inv coll (s\<lparr>settings := v\<rparr>) = store_inv coll s"
  by (simp add: store_parts)

lemma keeps_insert_user [keeps_rules]: "keeps coll (insert_user coll t n d h r)"
  by (rule keepsI) (auto simp: insert_user_def store_parts list_ex_image comp_def
      intro!: keyed_insert refers_target_insert split: if_splits)

lemma keeps_CreateInitialAdmin [keeps_rules]: "keeps coll (CreateInitialAdmin coll t n d h)"
proof (rule keepsI)
  fix s x s' assume inv: "store_inv coll s" and eq: "CreateInitialAdmin coll t n d h s = Inr (x, s')"
  then obtain uid s1 where s1: "insert_user coll t n d h ''admin'' s = Inr (uid, s1)"
    and s': "s' = s1\<lparr>settings := AList.update ''initialized'' ''true'' (settings s1)\<rparr>"
    by (auto simp: CreateInitialAdmin_def then_get_def split: if_splits sum.splits)
  from keepsD [OF keeps_insert_user s1 inv] s' show "store_inv coll s'"
    by (auto simp: store_inv_settings)
qed

lemma keeps_CreateUser [keeps_rules]: "keeps coll (CreateUser coll t n d h r)"
  unfolding CreateUser_def by (intro keeps_rules)

lemma keeps_insert_token [keeps_rules]: "keeps coll (insert_token coll t u n p th tp m e)"
  by (rule keepsI) (auto simp: insert_token_def store_parts list_ex_image comp_def
      intro!: keyed_insert refers_insert refers_target_insert split: if_splits)

lemma keeps_CreateUserWithAccessToken [keeps_rules]:
  "keeps coll (CreateUserWithAccessToken coll t n d h r tn p th tp m)"
proof (rule keepsI)
  fix s x s' assume inv: "store_inv coll s"
    and eq: "CreateUserWithAccessToken coll t n d h r tn p th tp m s = Inr (x, s')"
  then obtain u s1 k s2 nm mx where s1: "insert_user coll t n d h (if r = [] then ''user'' else r) s = Inr (u, s1)"
    and s2: "insert_token coll t u nm p th tp mx None s1 = Inr (k, s2)"
    and new: "\<not> list_ex (\<lambda>p. prow_UserID p = u) (userPolicies s2)"
    and s': "s' = s2\<lparr>userPolicies := userPolicies s2 @ [default_policy_row u]\<rparr>"
    by (auto simp: CreateUserWithAccessToken_def Let_def split: sum.splits if_splits)
  have "store_inv coll s2"
    by (rule keepsD [OF keeps_insert_token s2 keepsD [OF keeps_insert_user s1 inv]])
  moreover have "u \<in> user_ID ` set (users s2)"
    using s2 by (auto simp: insert_token_def list_ex_image split: if_splits)
  ultimately show "store_inv coll s'"
    using new by (auto simp: s' store_parts default_policy_row_def list_ex_image
        intro!: keyed_insert refers_insert)
qed

lemma keeps_SetUserStatus [keeps_rules]: "keeps coll (SetUserStatus coll t u st r)"
  unfolding SetUserStatus_def
  by (intro keeps_rules, rule keepsI)
    (auto simp: store_parts in_update_where intro!: keyed_update refers_target_update)

text \<open>One table at a time: what a new content of the table has to satisfy.\<close>

lemma store_inv_userPolicies:
  "store_inv coll s \<Longrightarrow> keyed prow_UserID rows \<Longrightarrow> refers prow_UserID rows user_ID (users s) \<Longrightarrow>
     store_inv coll (s\<lparr>userPolicies := rows\<rparr>)"
  by (simp add: store_parts)

lemma store_inv_dpiPolicies:
  "store_inv coll s \<Longrightarrow> keyed (dpi_UserID \<circ> fst) rows \<Longrightarrow> refers (dpi_UserID \<circ> fst) rows user_ID (users s) \<Longrightarrow>
     store_inv coll (s\<lparr>dpiPolicies := rows\<rparr>)"
  by (simp add: store_parts)

lemma store_inv_accessTokens:
  "store_inv coll s \<Longrightarrow> keyed token_ID rows \<Longrightarrow> keyed (coll \<circ> token_TokenHash) rows \<Longrightarrow>
     \<forall>t \<in> set rows. token_ID t < nextTokenID s \<Longrightarrow> map owner_key rows = map owner_key (accessTokens s) \<Longrightarrow>
     store_inv coll (s\<lparr>accessTokens := rows\<rparr>)"
proof -
  assume inv: "store_inv coll s" and keys: "keyed token_ID rows" "keyed (coll \<circ> token_TokenHash) rows"
    "\<forall>t \<in> set rows. token_ID t < nextTokenID s" and same: "map owner_key rows = map owner_key (accessTokens s)"
  from same have owner: "owner_key ` set rows = owner_key ` set (accessTokens s)" by (metis list.set_map)
  have "map (fst \<circ> owner_key) rows = map (fst \<circ> owner_key) (accessTokens s)"
    "map (snd \<circ> owner_key) rows = map (snd \<circ> owner_key) (accessTokens s)"
    using same by (metis map_map)+
  then have "map token_ID rows = map token_ID (accessTokens s)" "map token_UserID rows = map token_UserID (accessTokens s)"
    by (simp_all add: comp_def owner_key_def)
  then have "token_ID ` set rows = token_ID ` set (accessTokens s)" "token_UserID ` set rows = token_UserID ` set (accessTokens s)"
    by (metis list.set_map)+
  with inv keys owner show ?thesis by (simp add: store_parts refers_def)
qed

lemma store_inv_adminTokens:
  "store_inv coll s \<Longrightarrow> keyed admin_UserID rows \<Longrightarrow> keyed (coll \<circ> admin_TokenHash) rows \<Longrightarrow>
     refers admin_UserID rows user_ID (users s) \<Longrightarrow> store_inv coll (s\<lparr>adminTokens := rows\<rparr>)"
  by (simp add: store_parts)

lemma store_inv_portGrants:
  "store_inv coll s \<Longrightarrow> keyed grant_ID rows \<Longrightarrow> \<forall>g \<in> set rows. grant_ID g < n \<Longrightarrow>
     refers grant_TokenID rows token_ID (accessTokens s) \<Longrightarrow>
     store_inv coll (s\<lparr>portGrants := rows, nextGrantID := n\<rparr>)"
  by (simp add: store_parts)

lemma store_inv_clients:
  "store_inv coll s \<Longrightarrow> keyed client_ID rows \<Longrightarrow> keyed (client_key coll) rows \<Longrightarrow>
     \<forall>c \<in> set rows. client_ID c < n \<Longrightarrow>
     refers (\<lambda>c. (client_TokenID c, client_UserID c)) rows owner_key (accessTokens s) \<Longrightarrow>
     refers cmd_ClientID (clientCommands s) client_ID rows \<Longrightarrow>
     store_inv coll (s\<lparr>clients := rows, nextClientID := n\<rparr>)"
  by (simp add: store_parts)

lemma store_inv_clientCommands:
  "store_inv coll s \<Longrightarrow> keyed cmd_ID rows \<Longrightarrow> \<forall>k \<in> set rows. cmd_ID k < n \<Longrightarrow>
     refers cmd_ClientID rows client_ID (clients s) \<Longrightarrow>
     store_inv coll (s\<lparr>clientCommands := rows, nextCommandID := n\<rparr>)"
  by (simp add: store_parts)

lemma store_inv_runtimeLeases:
  "store_inv coll s \<Longrightarrow> keyed (coll \<circ> lease_LeaseID) rows \<Longrightarrow> keyed (coll \<circ> lease_RuntimeTokenHash) rows \<Longrightarrow>
     refers (\<lambda>l. (lease_TokenID l, lease_UserID l)) rows owner_key (accessTokens s) \<Longrightarrow>
     refers (coll \<circ> alloc_LeaseID) (leaseAllocations s) (coll \<circ> lease_LeaseID) rows \<Longrightarrow>
     store_inv coll (s\<lparr>runtimeLeases := rows, nextLeaseID := n\<rparr>)"
  by (simp add: store_parts)

lemma store_inv_leaseAllocations:
  "store_inv coll s \<Longrightarrow> keyed (alloc_key coll) rows \<Longrightarrow>
     refers (coll \<circ> alloc_LeaseID) rows (coll \<circ> lease_LeaseID) (runtimeLeases s) \<Longrightarrow>
     store_inv coll (s\<lparr>leaseAllocations := rows, nextAllocationID := n\<rparr>)"
  by (simp add: store_parts)

lemma store_inv_proxySessions:
  "store_inv coll s \<Longrightarrow> keyed (session_key coll) rows \<Longrightarrow> store_inv coll (s\<lparr>proxySessions := rows\<rparr>)"
  by (simp add: store_parts)

lemma store_inv_nodeAccess:
  "store_inv coll s \<Longrightarrow> keyed (\<lambda>g. (fst g, coll (snd g))) rows \<Longrightarrow> store_inv coll (s\<lparr>nodeAccess := rows\<rparr>)"
  by (simp add: store_parts)

lemma store_inv_dpiEvents: "store_inv coll s \<Longrightarrow> store_inv coll (s\<lparr>dpiEvents := rows\<rparr>)"
  by (simp add: store_parts)

lemma store_inv_userNodeCache:
  "store_inv coll s \<Longrightarrow> keyed (cache_key coll) rows \<Longrightarrow>
     \<forall>c \<in> set rows. cache_SessionID c = current_session coll (cache_NodeID c) (cacheSessions s) \<Longrightarrow>
     store_inv coll (s\<lparr>userNodeCache := rows\<rparr>)"
  by (simp add: store_parts)

lemma keeps_upsert_policy_row [keeps_rules]: "keeps coll (upsert_policy_row row)"
proof (rule keepsI)
  fix s x s' assume inv: "store_inv coll s" and eq: "upsert_policy_row row s = Inr (x, s')"
  have ok: "keyed prow_UserID (userPolicies s)" "refers prow_UserID (userPolicies s) user_ID (users s)"
    using inv by (simp_all add: store_parts)
  show "store_inv coll s'"
  proof (cases "prow_UserID row \<in> prow_UserID ` set (userPolicies s)")
    case True
    with eq have "s' = s\<lparr>userPolicies := update_where (\<lambda>p. prow_UserID p = prow_UserID row) (\<lambda>_. row) (userPolicies s)\<rparr>"
      by (simp add: upsert_policy_row_def list_ex_image)
    with ok show ?thesis by (auto intro!: store_inv_userPolicies [OF inv] keyed_update refers_update)
  next
    case False
    with eq have "s' = s\<lparr>userPolicies := userPolicies s @ [row]\<rparr>" "prow_UserID row \<in> user_ID ` set (users s)"
      by (simp_all add: upsert_policy_row_def list_ex_image split: if_splits)
    with False ok show ?thesis by (auto intro!: store_inv_userPolicies [OF inv] keyed_insert refers_insert)
  qed
qed

lemma keeps_UpsertUserResourcePolicy [keeps_rules]: "keeps coll (UpsertUserResourcePolicy coll p)"
  unfolding UpsertUserResourcePolicy_def by (intro keeps_rules)

lemma keeps_UpsertDPIPolicy [keeps_rules]: "keeps coll (UpsertDPIPolicy coll p d)"
  unfolding UpsertDPIPolicy_def Let_def
proof (intro keeps_rules, rule keepsI)
  fix s x s'
  let ?k = "dpi_UserID (normalizeDPIPolicy p d)"
  let ?row = "(normalizeDPIPolicy p d\<lparr>dpi_EnabledDetectors := []\<rparr>,
    Join (dpi_EnabledDetectors (normalizeDPIPolicy p d)) '','')"
  assume inv: "store_inv coll s"
    and eq: "(if list_ex (\<lambda>r. dpi_UserID (fst r) = ?k) (dpiPolicies s)
       then Inr ((), s\<lparr>dpiPolicies := update_where (\<lambda>r. dpi_UserID (fst r) = ?k) (\<lambda>_. ?row) (dpiPolicies s)\<rparr>)
       else if \<not> list_ex (\<lambda>u. user_ID u = ?k) (users s) then Inl ErrForeignKey
       else Inr ((), s\<lparr>dpiPolicies := dpiPolicies s @ [?row]\<rparr>)) = Inr (x, s')"
  have ok: "keyed (dpi_UserID \<circ> fst) (dpiPolicies s)" "refers (dpi_UserID \<circ> fst) (dpiPolicies s) user_ID (users s)"
    using inv by (simp_all add: store_parts)
  show "store_inv coll s'"
  proof (cases "?k \<in> (\<lambda>r. dpi_UserID (fst r)) ` set (dpiPolicies s)")
    case True
    with eq have "s' = s\<lparr>dpiPolicies := update_where (\<lambda>r. dpi_UserID (fst r) = ?k) (\<lambda>_. ?row) (dpiPolicies s)\<rparr>"
      by (simp add: list_ex_image)
    with ok show ?thesis by (auto intro!: store_inv_dpiPolicies [OF inv] keyed_update refers_update)
  next
    case False
    with eq have s': "s' = s\<lparr>dpiPolicies := dpiPolicies s @ [?row]\<rparr>" and u: "?k \<in> user_ID ` set (users s)"
      by (simp_all add: list_ex_image split: if_splits)
    show ?thesis unfolding s'
      by (rule store_inv_dpiPolicies [OF inv keyed_insert [OF ok(1)] refers_insert [OF ok(2)]])
        (use False u in \<open>simp_all add: comp_def\<close>)
  qed
qed

lemma keeps_CreateAccessToken [keeps_rules]: "keeps coll (CreateAccessToken coll t u n p th tp m e)"
  unfolding CreateAccessToken_def by (intro keeps_rules)

lemma keeps_get_token:
  "(\<And>k. keeps coll (f k)) \<Longrightarrow> keeps coll (\<lambda>s. case GetAccessTokenByID tid s of Inl e \<Rightarrow> Inl e | Inr k \<Rightarrow> f k s)"
  by (rule keepsI) (auto dest: keepsD split: sum.splits)

lemma keeps_SetAccessTokenStatus [keeps_rules]: "keeps coll (SetAccessTokenStatus coll t k st r)"
proof -
  have "keeps coll (\<lambda>s. Inr ((), s\<lparr>accessTokens := update_where (\<lambda>t. token_ID t = k)
      (\<lambda>tk. tk\<lparr>token_Status := st, token_BanReason := r, token_UpdatedAt := t\<rparr>) (accessTokens s)\<rparr>))"
    by (rule keepsI) (auto simp: store_parts in_update_where owner_key_def comp_def
        intro!: keyed_update refers_update refers_target_update)
  then show ?thesis
    unfolding SetAccessTokenStatus_def [abs_def] by (intro keeps_get_token keeps_rules)
qed

lemma keeps_RotateAccessToken [keeps_rules]: "keeps coll (RotateAccessToken coll t k p th tp)"
  unfolding RotateAccessToken_def [abs_def]
proof (intro keeps_get_token keeps_rules, rule keepsI)
  fix s x s'
  let ?f = "\<lambda>tk. tk\<lparr>token_TokenHash := th, token_TokenPrefix := tp, token_PlainToken := p,
    token_Status := ''active'', token_BanReason := [], token_UpdatedAt := t\<rparr>"
  assume inv: "store_inv coll s"
    and eq: "(if list_ex (\<lambda>t. token_ID t \<noteq> k \<and> coll (token_TokenHash t) = coll th) (accessTokens s)
        then Inl ErrDuplicateKey
        else Inr ((), s\<lparr>accessTokens := update_where (\<lambda>t. token_ID t = k) ?f (accessTokens s)\<rparr>)) = Inr (x, s')"
  have ok: "keyed token_ID (accessTokens s)" "keyed (coll \<circ> token_TokenHash) (accessTokens s)"
    "\<forall>t \<in> set (accessTokens s). token_ID t < nextTokenID s"
    using inv by (simp_all add: store_parts)
  from eq have s': "s' = s\<lparr>accessTokens := update_where (\<lambda>t. token_ID t = k) ?f (accessTokens s)\<rparr>"
    and fresh: "\<And>r. r \<in> set (accessTokens s) \<Longrightarrow> token_ID r \<noteq> k \<Longrightarrow> (coll \<circ> token_TokenHash) r \<noteq> coll th"
    by (auto simp: list_ex_iff split: if_splits)
  have hash: "keyed (coll \<circ> token_TokenHash) (update_where (\<lambda>t. token_ID t = k) ?f (accessTokens s))"
    by (rule keyed_update_one [OF ok(1,2) fresh]) simp_all
  show "store_inv coll s'" unfolding s'
    by (rule store_inv_accessTokens [OF inv keyed_update [OF ok(1)] hash])
      (use ok(3) in \<open>auto simp: in_update_where owner_key_def intro!: map_update_where_same\<close>)
qed

lemma store_inv_CreateAdminAPIToken:
  assumes inv: "store_inv coll s"
  shows "store_inv coll (snd (CreateAdminAPIToken coll t u th tp s))"
proof -
  let ?renew = "\<lambda>k. k\<lparr>admin_TokenHash := th, admin_TokenPrefix := tp, admin_Status := ''active'', admin_UpdatedAt := t\<rparr>"
  have ok: "keyed admin_UserID (adminTokens s)" "keyed (coll \<circ> admin_TokenHash) (adminTokens s)"
    "refers admin_UserID (adminTokens s) user_ID (users s)"
    using inv by (simp_all add: store_parts)
  have mine: "store_inv coll (s\<lparr>adminTokens := update_where (\<lambda>k. admin_UserID k = u) ?renew (adminTokens s)\<rparr>)"
    if "\<not> list_ex (\<lambda>k. coll (admin_TokenHash k) = coll th \<and> admin_UserID k \<noteq> u) (adminTokens s)"
    by (rule store_inv_adminTokens [OF inv keyed_update [OF ok(1)] keyed_update_one [OF ok(1,2)] refers_update [OF ok(3)]])
      (use that in \<open>auto simp: list_ex_iff\<close>)
  have hash: "store_inv coll (s\<lparr>adminTokens :=
      update_where (\<lambda>k. coll (admin_TokenHash k) = coll th) ?renew (adminTokens s)\<rparr>)"
    by (rule store_inv_adminTokens [OF inv keyed_update [OF ok(1)] keyed_update [OF ok(2)] refers_update [OF ok(3)]])
      simp_all
  have new: "store_inv coll (s\<lparr>adminTokens := adminTokens s @ [k]\<rparr>)"
    if "\<not> list_ex (\<lambda>k. admin_UserID k = u) (adminTokens s)" "list_ex (\<lambda>x. user_ID x = u) (users s)"
      "\<not> list_ex (\<lambda>k. coll (admin_TokenHash k) = coll th) (adminTokens s)"
      "admin_UserID k = u" "admin_TokenHash k = th" for k
    by (rule store_inv_adminTokens [OF inv keyed_insert [OF ok(1)] keyed_insert [OF ok(2)] refers_insert [OF ok(3)]])
      (use that in \<open>simp_all add: list_ex_image comp_def\<close>)
  show ?thesis
    using inv mine hash new by (simp add: CreateAdminAPIToken_def Let_def)
qed

lemma keeps_CreatePortGrant [keeps_rules]: "keeps coll (CreatePortGrant coll g)"
proof (rule keepsI)
  fix s x s' assume inv: "store_inv coll s" and eq: "CreatePortGrant coll g s = Inr (x, s')"
  then obtain k where k: "GetAccessTokenByID (grant_TokenID g) s = Inr k"
    by (auto simp: CreatePortGrant_def split: sum.splits)
  then have tok: "grant_TokenID g \<in> token_ID ` set (accessTokens s)"
    unfolding GetAccessTokenByID_def by (metis (mono_tags, lifting) image_eqI query_row_Inr)
  have ok: "keyed grant_ID (portGrants s)" "\<forall>g \<in> set (portGrants s). grant_ID g < nextGrantID s"
    "refers grant_TokenID (portGrants s) token_ID (accessTokens s)"
    using inv by (simp_all add: store_parts)
  let ?t = "s\<lparr>portGrants := portGrants s @ [g\<lparr>grant_ID := nextGrantID s\<rparr>], nextGrantID := nextGrantID s + 1\<rparr>"
  have "store_inv coll ?t"
    by (rule store_inv_portGrants [OF inv keyed_fresh [OF ok(1,2)] _ refers_insert [OF ok(3)]])
      (use ok(2) tok in \<open>auto intro: less_trans\<close>)
  moreover have "markUserIdentityDirtyTx coll (token_UserID k) ?t = Inr ((), s')"
    using eq k by (auto simp: CreatePortGrant_def then_get_def execUserIdentityChange_def split: sum.splits)
  ultimately show "store_inv coll s'" by (metis keepsD keeps_mark)
qed

text \<open>Statements on clients, commands and leases.\<close>

lemma store_inv_clientsD:
  assumes "store_inv coll s"
  shows "keyed client_ID (clients s)" "keyed (client_key coll) (clients s)"
    "\<forall>c \<in> set (clients s). client_ID c < nextClientID s"
    "refers (\<lambda>c. (client_TokenID c, client_UserID c)) (clients s) owner_key (accessTokens s)"
    "refers cmd_ClientID (clientCommands s) client_ID (clients s)"
    "keyed cmd_ID (clientCommands s)" "\<forall>k \<in> set (clientCommands s). cmd_ID k < nextCommandID s"
  using assms by (simp_all add: store_parts)

lemma store_inv_leasesD:
  assumes "store_inv coll s"
  shows "keyed (coll \<circ> lease_LeaseID) (runtimeLeases s)" "keyed (coll \<circ> lease_RuntimeTokenHash) (runtimeLeases s)"
    "refers (\<lambda>l. (lease_TokenID l, lease_UserID l)) (runtimeLeases s) owner_key (accessTokens s)"
    "refers (coll \<circ> alloc_LeaseID) (leaseAllocations s) (coll \<circ> lease_LeaseID) (runtimeLeases s)"
    "keyed (alloc_key coll) (leaseAllocations s)" "keyed (session_key coll) (proxySessions s)"
  using assms by (simp_all add: store_parts)

lemma store_inv_update_clients:
  assumes inv: "store_inv coll s"
    and f: "\<And>c. client_ID (f c) = client_ID c" "\<And>c. client_key coll (f c) = client_key coll c"
      "\<And>c. client_TokenID (f c) = client_TokenID c" "\<And>c. client_UserID (f c) = client_UserID c"
  shows "store_inv coll (update_clients P f s)"
proof -
  note ok = store_inv_clientsD [OF inv]
  have "store_inv coll (s\<lparr>clients := update_where P f (clients s), nextClientID := nextClientID s\<rparr>)"
    by (rule store_inv_clients [OF inv keyed_update [OF ok(1)] keyed_update [OF ok(2)] _
          refers_update [OF ok(4)] refers_target_update [OF ok(5)]])
      (use f ok(3) in \<open>auto simp: in_update_where\<close>)
  then show ?thesis by (simp add: update_clients_def)
qed

lemma store_inv_client_updates:
  assumes "store_inv coll s"
  shows "store_inv coll (UpdateClientFRPCAddress coll k c a s)" "store_inv coll (SetClientStatus i st r s)"
    "store_inv coll (TouchClientHeartbeat t i b s)" "store_inv coll (ClearClientPresence i s)"
  unfolding UpdateClientFRPCAddress_def SetClientStatus_def TouchClientHeartbeat_def ClearClientPresence_def
  by (rule store_inv_update_clients [OF assms]; simp add: client_key_def)+

lemma keeps_FindOrCreateClient:
  assumes inv: "store_inv coll s" and eq: "FindOrCreateClient coll t u k c s = Inr (x, s')"
    and owner: "\<forall>t \<in> set (accessTokens s). token_ID t = k \<longrightarrow> token_UserID t = u"
  shows "store_inv coll s'"
proof (cases "GetClient coll k c s")
  case (Inr d)
  with eq inv show ?thesis by (simp add: FindOrCreateClient_def)
next
  case (Inl e)
  then have absent: "(k, coll c) \<notin> client_key coll ` set (clients s)"
    by (auto simp: GetClient_def query_row_def client_row_def client_key_def find_None_iff split: option.splits)
  note ok = store_inv_clientsD [OF inv]
  from eq Inl obtain d where s': "s' = s\<lparr>clients := clients s @ [d], nextClientID := nextClientID s + 1\<rparr>"
    and d: "client_ID d = nextClientID s" "client_key coll d = (k, coll c)" "client_TokenID d = k" "client_UserID d = u"
    and tok: "list_ex (\<lambda>t. token_ID t = k) (accessTokens s)"
    by (auto simp: FindOrCreateClient_def then_get_def Let_def client_key_def split: if_splits sum.splits)
  from tok owner have "(k, u) \<in> owner_key ` set (accessTokens s)"
    by (force simp: list_ex_iff owner_key_def)
  then show ?thesis unfolding s'
    by (intro store_inv_clients [OF inv keyed_fresh [OF ok(1,3)] keyed_insert [OF ok(2)] _
          refers_insert [OF ok(4)] refers_target_insert [OF ok(5)]])
      (use absent d ok(3) in \<open>auto intro: less_trans\<close>)
qed

lemma keeps_EnqueueClientCommand [keeps_rules]: "keeps coll (EnqueueClientCommand t c by k m)"
  unfolding EnqueueClientCommand_def
proof (intro keeps_rules, rule keepsI)
  fix s :: Store and x s'
  let ?k = "\<lparr>cmd_ID = nextCommandID s, cmd_ClientID = c, cmd_Command = k, cmd_Message = m, cmd_Status = ''queued'',
    cmd_CreatedBy = by, cmd_CreatedAt = t, cmd_DeliveredAt = None, cmd_AcknowledgedAt = None\<rparr>"
  assume inv: "store_inv coll s"
    and eq: "(if \<not> list_ex (\<lambda>d. client_ID d = c) (clients s) then Inl ErrForeignKey
      else Inr (nextCommandID s, s\<lparr>clientCommands := clientCommands s @ [?k], nextCommandID := nextCommandID s + 1\<rparr>))
      = Inr (x, s')"
  note ok = store_inv_clientsD [OF inv]
  from eq have s': "s' = s\<lparr>clientCommands := clientCommands s @ [?k], nextCommandID := nextCommandID s + 1\<rparr>"
    and c: "c \<in> client_ID ` set (clients s)"
    by (auto simp: list_ex_image split: if_splits)
  show "store_inv coll s'" unfolding s'
    by (rule store_inv_clientCommands [OF inv keyed_fresh [OF ok(6,7)] _ refers_insert [OF ok(5)]])
      (use c ok(7) in \<open>auto intro: less_trans\<close>)
qed

lemma store_inv_commands_keep:
  assumes inv: "store_inv coll s" and keys: "keyed cmd_ID rows"
    and sub: "\<And>k. k \<in> set rows \<Longrightarrow> \<exists>q \<in> set (clientCommands s). cmd_ID q = cmd_ID k \<and> cmd_ClientID q = cmd_ClientID k"
  shows "store_inv coll (s\<lparr>clientCommands := rows\<rparr>)"
proof -
  note ok = store_inv_clientsD [OF inv]
  have "\<forall>k \<in> set rows. cmd_ID k < nextCommandID s" using ok(7) sub by metis
  moreover have "refers cmd_ClientID rows client_ID (clients s)"
    unfolding refers_def using refersD [OF ok(5)] sub by (auto simp: image_iff) metis
  ultimately have "store_inv coll (s\<lparr>clientCommands := rows, nextCommandID := nextCommandID s\<rparr>)"
    by (intro store_inv_clientCommands [OF inv keys])
  then show ?thesis by simp
qed

lemma fold_mark_delivered:
  "keyed cmd_ID rows \<Longrightarrow> keyed cmd_ID (fold (mark_delivered t) is rows) \<and>
     (\<forall>k \<in> set (fold (mark_delivered t) is rows). \<exists>q \<in> set rows. cmd_ID q = cmd_ID k \<and> cmd_ClientID q = cmd_ClientID k)"
proof (induction "is" arbitrary: rows)
  case (Cons i "is")
  have "keyed cmd_ID (mark_delivered t i rows)"
    unfolding mark_delivered_def using Cons.prems by (auto intro: keyed_update)
  moreover have "\<exists>q \<in> set rows. cmd_ID q = cmd_ID k \<and> cmd_ClientID q = cmd_ClientID k"
    if "k \<in> set (mark_delivered t i rows)" for k
    using that by (auto simp: mark_delivered_def in_update_where)
  ultimately show ?case using Cons.IH [of "mark_delivered t i rows"] by simp metis
qed auto

lemma store_inv_PopQueuedClientCommands:
  assumes "store_inv coll s"
  shows "store_inv coll (snd (PopQueuedClientCommands t c s))"
  using fold_mark_delivered [OF store_inv_clientsD(6) [OF assms]]
  by (simp add: PopQueuedClientCommands_def Let_def store_inv_commands_keep [OF assms])

lemma keeps_AcknowledgeClientCommand [keeps_rules]: "keeps coll (AcknowledgeClientCommand t k c)"
proof (rule keepsI)
  fix s x s' assume inv: "store_inv coll s" and eq: "AcknowledgeClientCommand t k c s = Inr (x, s')"
  then obtain P where s': "s' = s\<lparr>clientCommands := update_where P
      (\<lambda>c. c\<lparr>cmd_Status := ''acknowledged'', cmd_AcknowledgedAt := Some t\<rparr>) (clientCommands s)\<rparr>"
    by (auto simp: AcknowledgeClientCommand_def Let_def split: if_splits)
  show "store_inv coll s'" unfolding s'
    by (rule store_inv_commands_keep [OF inv keyed_update [OF store_inv_clientsD(6) [OF inv]]])
      (auto simp: in_update_where)
qed

lemma store_inv_DeleteQueuedClientCommands:
  assumes "store_inv coll s"
  shows "store_inv coll (snd (DeleteQueuedClientCommands c s))"
  by (simp add: DeleteQueuedClientCommands_def Let_def)
    (rule store_inv_commands_keep [OF assms keyed_delete [OF store_inv_clientsD(6) [OF assms]]]; auto)

lemma set_revoked_fields [simp]:
  "lease_LeaseID (set_revoked l) = lease_LeaseID l" "lease_RuntimeTokenHash (set_revoked l) = lease_RuntimeTokenHash l"
  "lease_TokenID (set_revoked l) = lease_TokenID l" "lease_UserID (set_revoked l) = lease_UserID l"
  "lease_ClientID (set_revoked l) = lease_ClientID l" "lease_ExpiresAt (set_revoked l) = lease_ExpiresAt l"
  "lease_Status (set_revoked l) = ''revoked''"
  by (simp_all add: set_revoked_def)

lemma store_inv_revoke:
  assumes inv: "store_inv coll s"
  shows "store_inv coll (s\<lparr>runtimeLeases := update_where P set_revoked (runtimeLeases s)\<rparr>)"
proof -
  note ok = store_inv_leasesD [OF inv]
  have "store_inv coll (s\<lparr>runtimeLeases := update_where P set_revoked (runtimeLeases s), nextLeaseID := nextLeaseID s\<rparr>)"
    by (rule store_inv_runtimeLeases [OF inv keyed_update [OF ok(1)] keyed_update [OF ok(2)]
          refers_update [OF ok(3)] refers_target_update [OF ok(4)]]) simp_all
  then show ?thesis by simp
qed

lemma store_inv_ReleaseRuntimeLease: "store_inv coll s \<Longrightarrow> store_inv coll (snd (ReleaseRuntimeLease coll l k c s))"
  by (simp add: ReleaseRuntimeLease_def Let_def store_inv_revoke)

lemma store_inv_close_sessions: "store_inv coll s \<Longrightarrow> store_inv coll (close_sessions t r P s)"
  unfolding close_sessions_def
  by (rule store_inv_proxySessions [OF _ keyed_update [OF store_inv_leasesD(6)]]) (simp_all add: session_key_def)

lemma store_inv_RevokeActive:
  "store_inv coll s \<Longrightarrow> store_inv coll (snd (RevokeActiveRuntimeLeasesForClient coll t k c r s))"
  by (simp add: RevokeActiveRuntimeLeasesForClient_def store_inv_close_sessions store_inv_revoke)

lemma store_inv_StartProxySession:
  assumes inv: "store_inv coll s"
  shows "store_inv coll (StartProxySession coll l n ty p d sd r s)"
proof -
  let ?same = "\<lambda>q. coll (sess_LeaseID q) = coll (lease_LeaseID l) \<and> coll (sess_ProxyName q) = coll n"
  note key = store_inv_leasesD(6) [OF inv]
  show ?thesis
  proof (cases "list_ex ?same (proxySessions s)")
    case True
    then show ?thesis
      by (simp add: StartProxySession_def Let_def)
        (rule store_inv_proxySessions [OF inv keyed_update [OF key]]; simp add: session_key_def)
  next
    case False
    then have "(coll (lease_LeaseID l), coll n) \<notin> session_key coll ` set (proxySessions s)"
      by (auto simp: list_ex_iff session_key_def)
    with False show ?thesis
      by (simp add: StartProxySession_def Let_def)
        (rule store_inv_proxySessions [OF inv keyed_insert [OF key]]; simp add: session_key_def)
  qed
qed

lemma keeps_insert_lease:
  assumes inv: "store_inv coll s" and eq: "insert_lease coll l s = Inr (x, s')"
    and owner: "\<forall>t \<in> set (accessTokens s). token_ID t = lease_TokenID l \<longrightarrow> token_UserID t = lease_UserID l"
  shows "store_inv coll s'"
proof -
  note ok = store_inv_leasesD [OF inv]
  from eq have s': "s' = s\<lparr>runtimeLeases := runtimeLeases s @ [l\<lparr>lease_ID := nextLeaseID s\<rparr>], nextLeaseID := nextLeaseID s + 1\<rparr>"
    and new: "coll (lease_LeaseID l) \<notin> (coll \<circ> lease_LeaseID) ` set (runtimeLeases s)"
      "coll (lease_RuntimeTokenHash l) \<notin> (coll \<circ> lease_RuntimeTokenHash) ` set (runtimeLeases s)"
    and tok: "list_ex (\<lambda>t. token_ID t = lease_TokenID l) (accessTokens s)"
    by (auto simp: insert_lease_def list_ex_iff split: if_splits)
  from tok owner have "(lease_TokenID l, lease_UserID l) \<in> owner_key ` set (accessTokens s)"
    by (force simp: list_ex_iff owner_key_def)
  then show ?thesis unfolding s'
    by (intro store_inv_runtimeLeases [OF inv keyed_insert [OF ok(1)] keyed_insert [OF ok(2)]
          refers_insert [OF ok(3)] refers_target_insert [OF ok(4)]]) (use new in simp_all)
qed

lemma insert_allocations_inv:
  assumes "store_inv coll s" "insert_allocations coll l as s = Inr (x, s')"
    and "coll l \<in> (coll \<circ> lease_LeaseID) ` set (runtimeLeases s)"
  shows "store_inv coll s'"
  using assms
proof (induction "as" arbitrary: s)
  case (Cons a "as")
  note ok = store_inv_leasesD [OF Cons.prems(1)]
  let ?row = "allocation_row (nextAllocationID s) l a"
  let ?t = "s\<lparr>leaseAllocations := leaseAllocations s @ [?row], nextAllocationID := nextAllocationID s + 1\<rparr>"
  have new: "alloc_key coll ?row \<notin> alloc_key coll ` set (leaseAllocations s)"
    and rest: "insert_allocations coll l as ?t = Inr (x, s')"
    using Cons.prems(2) by (auto simp: list_ex_iff alloc_key_def allocation_row_def split: if_splits)
  have "store_inv coll ?t"
    by (rule store_inv_leaseAllocations [OF Cons.prems(1) keyed_insert [OF ok(5) new] refers_insert [OF ok(4)]])
      (use Cons.prems(3) in \<open>simp add: allocation_row_def\<close>)
  then show ?case using rest Cons.prems(3) by (intro Cons.IH [of ?t]) simp_all
qed simp

lemma keeps_CreateRuntimeLease:
  assumes inv: "store_inv coll s" and eq: "CreateRuntimeLease coll l u k c h e as s = Inr (x, s')"
    and owner: "\<forall>t \<in> set (accessTokens s). token_ID t = k \<longrightarrow> token_UserID t = u"
  shows "store_inv coll s'"
proof -
  let ?s = "s\<lparr>runtimeLeases := update_where (active_lease_of coll k c) set_revoked (runtimeLeases s)\<rparr>"
  let ?l = "\<lparr>lease_ID = 0, lease_LeaseID = l, lease_UserID = u, lease_TokenID = k, lease_ClientID = c,
    lease_RuntimeTokenHash = h, lease_Status = ''active'', lease_ExpiresAt = e\<rparr>"
  from eq obtain y s2 where s2: "insert_lease coll ?l ?s = Inr (y, s2)"
    and rest: "insert_allocations coll l as s2 = Inr (x, s')"
    by (auto simp: CreateRuntimeLease_def Let_def split: sum.splits)
  have "store_inv coll s2"
    by (rule keeps_insert_lease [OF store_inv_revoke [OF inv] s2]) (use owner in simp)
  moreover have "coll l \<in> (coll \<circ> lease_LeaseID) ` set (runtimeLeases s2)"
    using s2 by (auto simp: insert_lease_def split: if_splits)
  ultimately show ?thesis by (rule insert_allocations_inv [OF _ rest])
qed

text \<open>Deletions take the rows that refer to the deleted ones with them.\<close>

lemma keeps_DeleteClient [keeps_rules]: "keeps coll (DeleteClient coll i)"
proof (rule keepsI)
  fix s x s' assume inv: "store_inv coll s" and eq: "DeleteClient coll i s = Inr (x, s')"
  note cl = store_inv_clientsD [OF inv] and le = store_inv_leasesD [OF inv]
  let ?L = "lease_of_client coll (client_TokenID x) (client_ClientID x)"
  let ?ids = "set (map (coll \<circ> lease_LeaseID) (filter ?L (runtimeLeases s)))"
  let ?k = "client_ID x"
  have leases: "leases_ok coll (s\<lparr>leaseAllocations := delete_where (\<lambda>a. coll (alloc_LeaseID a) \<in> ?ids) (leaseAllocations s),
      proxySessions := delete_where P (proxySessions s), runtimeLeases := delete_where ?L (runtimeLeases s)\<rparr>)" for P
    unfolding leases_ok_def by (simp, intro conjI keyed_delete le refers_delete refers_target_delete; auto)
  have "clients_ok coll (s\<lparr>clientCommands := delete_where (\<lambda>c. cmd_ClientID c = ?k) (clientCommands s),
      clients := delete_where (\<lambda>c. client_ID c = ?k) (clients s)\<rparr>)"
    unfolding clients_ok_def using cl(3,7) by (simp, intro conjI keyed_delete cl refers_delete refers_target_delete; auto)
  with leases inv eq show "store_inv coll s'"
    by (auto simp: DeleteClient_def Let_def store_inv_def users_ok_def tokens_ok_def policies_ok_def
        clients_ok_def leases_ok_def cache_ok_def split: sum.splits)
qed

lemma store_inv_delete_user_rows:
  assumes inv: "store_inv coll s"
  shows "store_inv coll (delete_user_rows coll u s)"
proof -
  let ?t = "delete_user_rows coll u s"
  note cl = store_inv_clientsD [OF inv] and le = store_inv_leasesD [OF inv]
  have us: "users_ok coll s" "tokens_ok coll s" "policies_ok s" "cache_ok coll s"
    using inv by (simp_all add: store_inv_def)
  have "users_ok coll ?t"
    using us(1) by (auto simp: users_ok_def delete_user_rows_def Let_def intro: keyed_delete)
  moreover have "tokens_ok coll ?t"
    using us(2) unfolding tokens_ok_def delete_user_rows_def Let_def
    by (simp, intro conjI keyed_delete refers_target_delete; auto)
  moreover have "policies_ok ?t"
    using us(3) unfolding policies_ok_def delete_user_rows_def Let_def
    by (simp, intro conjI keyed_delete refers_target_delete; auto)
  moreover have "clients_ok coll ?t"
    unfolding clients_ok_def delete_user_rows_def Let_def using cl(3,7)
    by (simp, intro conjI keyed_delete cl refers_target_delete; auto simp: owner_key_def)
  moreover have "leases_ok coll ?t"
    unfolding leases_ok_def delete_user_rows_def Let_def
    by (simp, intro conjI keyed_delete le refers_target_delete; auto simp: owner_key_def)
  moreover have "cache_ok coll ?t"
    using us(4) by (auto simp: cache_ok_def delete_user_rows_def Let_def intro: keyed_delete)
  ultimately show ?thesis by (simp add: store_inv_def)
qed

lemma keeps_DeleteUser [keeps_rules]: "keeps coll (DeleteUser coll u)"
  by (rule keepsI) (auto simp: DeleteUser_def split: sum.splits if_splits
      dest!: keepsD [OF keeps_mark] intro: store_inv_delete_user_rows)

text \<open>The ownership rule makes the foreign keys of \<open>DeleteUser\<close> hold.\<close>

lemma foreign_rows_never: "store_inv coll s \<Longrightarrow> \<not> foreign_rows u s"
proof -
  assume inv: "store_inv coll s"
  have keyed: "keyed token_ID (accessTokens s)" using inv by (simp add: store_parts)
  have owner: "v = token_UserID t" if "(token_ID t, v) \<in> owner_key ` set (accessTokens s)" "t \<in> set (accessTokens s)" for t v
    using that keyedD [OF keyed] by (auto simp: owner_key_def)
  show ?thesis
    using store_inv_clientsD(4) [OF inv] store_inv_leasesD(3) [OF inv] owner
    by (fastforce simp: foreign_rows_def Let_def list_ex_iff refers_def image_subset_iff)
qed

text \<open>The outbox.\<close>

lemma keeps_NextIdentityRevision [keeps_rules]: "keeps coll NextIdentityRevision"
  by (rule keepsI) (auto simp: NextIdentityRevision_def store_parts split: option.splits if_splits)

lemma keeps_MarkUserIdentityDirty [keeps_rules]: "keeps coll (MarkUserIdentityDirty coll u)"
  unfolding MarkUserIdentityDirty_def [abs_def] by (rule keeps_mark)

lemma store_inv_cacheD:
  assumes "store_inv coll s"
  shows "keyed (\<lambda>g. (fst g, coll (snd g))) (nodeAccess s)" "keyed (coll \<circ> csess_NodeID) (cacheSessions s)"
    "keyed (cache_key coll) (userNodeCache s)"
    "\<forall>c \<in> set (userNodeCache s). cache_SessionID c = current_session coll (cache_NodeID c) (cacheSessions s)"
  using assms by (simp_all add: store_parts)

lemma find_update_where:
  "(\<And>r. Q r \<Longrightarrow> P (f r) = P r) \<Longrightarrow>
     find P (update_where Q f rows) = map_option (\<lambda>r. if Q r then f r else r) (find P rows)"
  by (induction rows) (auto simp: update_where_def)

lemma find_append: "find P (xs @ ys) = (case find P xs of Some x \<Rightarrow> Some x | None \<Rightarrow> find P ys)"
  by (induction xs) auto

text \<open>What \<open>ResetNodeIdentityCache\<close> leaves in \<open>node_cache_sessions\<close>.\<close>

definition reset_sessions :: "collation \<Rightarrow> string \<Rightarrow> string \<Rightarrow> string \<Rightarrow> CacheSession list \<Rightarrow> CacheSession list" where
  "reset_sessions coll node sid boot rows =
     (if list_ex (\<lambda>c. coll (csess_NodeID c) = coll node) rows
      then update_where (\<lambda>c. coll (csess_NodeID c) = coll node)
             (\<lambda>c. c\<lparr>csess_SessionID := sid, csess_BootID := boot\<rparr>) rows
      else rows @ [\<lparr>csess_NodeID = node, csess_SessionID = sid, csess_BootID = boot\<rparr>])"

lemma ResetNodeIdentityCache_eq:
  "ResetNodeIdentityCache coll node sid boot s =
     Inr ((), s\<lparr>cacheSessions := reset_sessions coll node sid boot (cacheSessions s),
       userNodeCache := delete_where (\<lambda>c. coll (cache_NodeID c) = coll node) (userNodeCache s)\<rparr>)"
  by (simp add: ResetNodeIdentityCache_def reset_sessions_def Let_def)

lemma session_of_reset:
  "session_of coll n (reset_sessions coll node sid boot rows) =
     (if coll n = coll node then Some sid else session_of coll n rows)"
proof (cases "list_ex (\<lambda>c. coll (csess_NodeID c) = coll node) rows")
  case True
  then obtain r where "find (\<lambda>c. coll (csess_NodeID c) = coll node) rows = Some r"
    by (cases "find (\<lambda>c. coll (csess_NodeID c) = coll node) rows") (auto simp: find_None_iff list_ex_iff)
  then show ?thesis
    using True by (auto simp: session_of_def reset_sessions_def find_update_where option.map_comp comp_def
        dest!: find_Some_iff' intro!: option.map_cong)
next
  case False
  then show ?thesis
    by (auto simp: session_of_def reset_sessions_def find_append find_None_iff list_ex_iff split: option.splits
        dest!: find_Some_iff')
qed

lemma keeps_ResetNodeIdentityCache [keeps_rules]: "keeps coll (ResetNodeIdentityCache coll n sid b)"
proof (rule keepsI)
  fix s x s' assume inv: "store_inv coll s" and eq: "ResetNodeIdentityCache coll n sid b s = Inr (x, s')"
  note ok = store_inv_cacheD [OF inv]
  have "keyed (coll \<circ> csess_NodeID) (reset_sessions coll n sid b (cacheSessions s))"
    unfolding reset_sessions_def
    by (auto simp: list_ex_iff intro!: keyed_update keyed_insert ok(2))
  moreover have "cache_SessionID c = current_session coll (cache_NodeID c) (reset_sessions coll n sid b (cacheSessions s))"
    if "c \<in> set (userNodeCache s)" "coll (cache_NodeID c) \<noteq> coll n" for c
    using that ok(4) by (simp add: current_session_def session_of_reset)
  ultimately show "store_inv coll s'"
    using eq inv keyed_delete [OF ok(3)] by (auto simp: ResetNodeIdentityCache_eq store_parts)
qed

lemma lockCacheSession_None: "lockCacheSession coll n sid s = None \<Longrightarrow> current_session coll n (cacheSessions s) = sid"
  by (auto simp: lockCacheSession_def current_session_def split: option.splits if_splits)

lemma keeps_PrepareNodeIdentityCache [keeps_rules]: "keeps coll (PrepareNodeIdentityCache coll n sid r us)"
proof (rule keepsI)
  fix s x s' assume inv: "store_inv coll s" and eq: "PrepareNodeIdentityCache coll n sid r us s = Inr (x, s')"
  then have sid: "current_session coll n (cacheSessions s) = sid"
    and s': "s' = s\<lparr>userNodeCache := fold (\<lambda>u. upsert_desired coll u n sid r) us (userNodeCache s)\<rparr>"
    by (auto simp: PrepareNodeIdentityCache_def dest: lockCacheSession_None split: option.splits)
  show "store_inv coll s'"
    unfolding s' using upsert_many [OF store_inv_cacheD(3,4) [OF inv], of us "\<lambda>_. sid" "\<lambda>_. n" "\<lambda>u. u" r] sid
    by (auto intro: store_inv_userNodeCache [OF inv])
qed

text \<open>Confirmations change, and remove, rows without touching their keys.\<close>

definition cache_shrinks :: "collation \<Rightarrow> CacheRow list \<Rightarrow> CacheRow list \<Rightarrow> bool" where
  "cache_shrinks coll rows rows' \<longleftrightarrow>
     (keyed (cache_key coll) rows \<longrightarrow> keyed (cache_key coll) rows') \<and>
     (\<forall>c \<in> set rows'. \<exists>d \<in> set rows. cache_NodeID c = cache_NodeID d \<and> cache_SessionID c = cache_SessionID d)"

lemma cache_shrinks_refl: "cache_shrinks coll rows rows"
  by (auto simp: cache_shrinks_def)

lemma cache_shrinks_trans: "cache_shrinks coll a b \<Longrightarrow> cache_shrinks coll b c \<Longrightarrow> cache_shrinks coll a c"
  unfolding cache_shrinks_def by metis

lemma cache_shrinks_fold: "(\<And>x rows. cache_shrinks coll rows (f x rows)) \<Longrightarrow> cache_shrinks coll rows (fold f xs rows)"
proof (induction xs arbitrary: rows)
  case Nil
  then show ?case by (simp add: cache_shrinks_refl)
next
  case (Cons x xs)
  show ?case using cache_shrinks_trans [OF Cons.prems [of rows x] Cons.IH [OF Cons.prems]] by simp
qed

lemma cache_shrinks_update:
  assumes "\<And>c. cache_key coll (f c) = cache_key coll c" "\<And>c. cache_NodeID (f c) = cache_NodeID c"
    "\<And>c. cache_SessionID (f c) = cache_SessionID c"
  shows "cache_shrinks coll rows (update_where P f rows)"
  unfolding cache_shrinks_def
proof (intro conjI impI ballI)
  fix c assume "c \<in> set (update_where P f rows)"
  then show "\<exists>d \<in> set rows. cache_NodeID c = cache_NodeID d \<and> cache_SessionID c = cache_SessionID d"
    using assms(2,3) by (force simp: in_update_where)
qed (use assms(1) in \<open>auto intro: keyed_update\<close>)

lemma cache_shrinks_delete: "cache_shrinks coll rows (delete_where P rows)"
  by (auto simp: cache_shrinks_def intro: keyed_delete)

lemma confirm_shrinks:
  "cache_shrinks coll rows (confirm_user coll t n sid r u rows)"
  "cache_shrinks coll rows (confirm_removed coll n sid r u rows)"
  "cache_shrinks coll rows (confirm_full coll n sid r rows)"
  unfolding confirm_user_def confirm_removed_def confirm_full_def Let_def
  by (rule cache_shrinks_update, simp_all add: cache_key_def)
    (rule cache_shrinks_trans [OF cache_shrinks_update cache_shrinks_delete]; simp add: cache_key_def)+

lemma store_inv_shrinks:
  assumes inv: "store_inv coll s" and sh: "cache_shrinks coll (userNodeCache s) rows"
  shows "store_inv coll (s\<lparr>userNodeCache := rows\<rparr>)"
proof (rule store_inv_userNodeCache [OF inv])
  show "keyed (cache_key coll) rows" using sh store_inv_cacheD(3) [OF inv] by (simp add: cache_shrinks_def)
  show "\<forall>c \<in> set rows. cache_SessionID c = current_session coll (cache_NodeID c) (cacheSessions s)"
    using sh store_inv_cacheD(4) [OF inv] unfolding cache_shrinks_def by metis
qed

lemma keeps_ConfirmNodeIdentityCache [keeps_rules]:
  "keeps coll (ConfirmNodeIdentityCache coll t n sid r us rm full)"
proof (rule keepsI)
  fix s x s' assume inv: "store_inv coll s"
    and eq: "ConfirmNodeIdentityCache coll t n sid r us rm full s = Inr (x, s')"
  let ?rows = "fold (confirm_removed coll n sid r) rm (fold (confirm_user coll t n sid r) us (userNodeCache s))"
  have "cache_shrinks coll (userNodeCache s) ?rows"
    by (rule cache_shrinks_trans; rule cache_shrinks_fold; rule confirm_shrinks)
  then have "cache_shrinks coll (userNodeCache s) (if full then confirm_full coll n sid r ?rows else ?rows)"
    using cache_shrinks_trans [OF _ confirm_shrinks(3)] by (cases full) simp_all
  moreover have "s' = s\<lparr>userNodeCache := (if full then confirm_full coll n sid r ?rows else ?rows)\<rparr>"
    using eq by (auto simp: ConfirmNodeIdentityCache_def Let_def split: option.splits)
  ultimately show "store_inv coll s'" by (simp only: store_inv_shrinks [OF inv])
qed

lemma fold_insert_access:
  "keyed (\<lambda>g. (fst g, coll (snd g))) rows \<Longrightarrow> keyed (\<lambda>g. (fst g, coll (snd g))) (fold (insert_access coll u) ns rows)"
proof (induction ns arbitrary: rows)
  case (Cons n ns)
  have "keyed (\<lambda>g. (fst g, coll (snd g))) (insert_access coll u n rows)"
    unfolding insert_access_def using Cons.prems by (auto simp: list_ex_iff intro!: keyed_insert)
  then show ?case using Cons.IH by simp
qed simp

lemma keeps_SaveUserNodeAccess [keeps_rules]: "keeps coll (SaveUserNodeAccess coll u ns)"
proof (rule keepsI)
  fix s x s' assume inv: "store_inv coll s" and eq: "SaveUserNodeAccess coll u ns s = Inr (x, s')"
  let ?s1 = "s\<lparr>nodeAccess := fold (insert_access coll u) ns (delete_where (\<lambda>g. fst g = u) (nodeAccess s))\<rparr>"
  have s1: "store_inv coll ?s1"
    by (rule store_inv_nodeAccess [OF inv fold_insert_access [OF keyed_delete [OF store_inv_cacheD(1) [OF inv]]]])
  have "\<exists>P. markUserIdentityDirtyTx coll u
      (?s1\<lparr>runtimeLeases := update_where P set_revoked (runtimeLeases ?s1)\<rparr>) = Inr (x, s')"
    using eq unfolding SaveUserNodeAccess_def Let_def set_revoked_def [symmetric, abs_def] by blast
  then show "store_inv coll s'" using store_inv_revoke [OF s1] keeps_mark by (metis keepsD)
qed

end
