(* ===== verification/Store_Steps.thy ===== *)
theory Store_Steps
  imports Store_Invariant
begin

text \<open>
  The store as a transition system: every operation is a value of \<open>store_op\<close>, a step is one
  successful or failed call, and the invariant holds in every reachable store.
\<close>

section \<open>All operations\<close>

datatype store_op =
    SO_SetSetting string string
  | SO_CreateInitialAdmin string string string
  | SO_CreateUser string string string string
  | SO_CreateUserWithAccessToken string string string string string string string string int
  | SO_SetUserStatus int string string
  | SO_DeleteUser int
  | SO_UpsertUserResourcePolicy UserResourcePolicy
  | SO_UpsertDPIPolicy Policy "string list option"
  | SO_CreateAccessToken int string string string string int "go_time option"
  | SO_CreateAdminAPIToken int string string
  | SO_SetAccessTokenStatus int string string
  | SO_RotateAccessToken int string string string
  | SO_CreatePortGrant PortGrant
  | SO_FindOrCreateClient int int string
  | SO_UpdateClientFRPCAddress int string string
  | SO_SetClientStatus int string string
  | SO_TouchClientHeartbeat int bool
  | SO_ClearClientPresence int
  | SO_DeleteClient int
  | SO_EnqueueClientCommand int int string string
  | SO_PopQueuedClientCommands int
  | SO_AcknowledgeClientCommand int int
  | SO_DeleteQueuedClientCommands int
  | SO_CreateRuntimeLease string int int string string go_time "ProxyAllocationInput list"
  | SO_ReleaseRuntimeLease string int string
  | SO_RevokeActiveRuntimeLeasesForClient int string string
  | SO_StartProxySession RuntimeLease string string int string string string
  | SO_CloseProxySession string string string
  | SO_NextIdentityRevision
  | SO_MarkUserIdentityDirty int
  | SO_ResetNodeIdentityCache string string string
  | SO_PrepareNodeIdentityCache string string int "int list"
  | SO_ConfirmNodeIdentityCache string string int "int list" "int list" bool
  | SO_SaveUserNodeAccess int "string list"

fun store_exec :: "collation \<Rightarrow> go_time \<Rightarrow> store_op \<Rightarrow> Store \<Rightarrow> Store" where
  "store_exec coll t (SO_SetSetting k v) s = commit s (SetSetting k v s)"
| "store_exec coll t (SO_CreateInitialAdmin u d h) s = commit s (CreateInitialAdmin coll t u d h s)"
| "store_exec coll t (SO_CreateUser u d h r) s = commit s (CreateUser coll t u d h r s)"
| "store_exec coll t (SO_CreateUserWithAccessToken u d h r n p th tp m) s =
     commit s (CreateUserWithAccessToken coll t u d h r n p th tp m s)"
| "store_exec coll t (SO_SetUserStatus u st r) s = commit s (SetUserStatus coll t u st r s)"
| "store_exec coll t (SO_DeleteUser u) s = commit s (DeleteUser coll u s)"
| "store_exec coll t (SO_UpsertUserResourcePolicy p) s = commit s (UpsertUserResourcePolicy coll p s)"
| "store_exec coll t (SO_UpsertDPIPolicy p d) s = commit s (UpsertDPIPolicy coll p d s)"
| "store_exec coll t (SO_CreateAccessToken u n p th tp m e) s =
     commit s (CreateAccessToken coll t u n p th tp m e s)"
| "store_exec coll t (SO_CreateAdminAPIToken u th tp) s = snd (CreateAdminAPIToken coll t u th tp s)"
| "store_exec coll t (SO_SetAccessTokenStatus k st r) s = commit s (SetAccessTokenStatus coll t k st r s)"
| "store_exec coll t (SO_RotateAccessToken k p th tp) s = commit s (RotateAccessToken coll t k p th tp s)"
| "store_exec coll t (SO_CreatePortGrant g) s = commit s (CreatePortGrant coll g s)"
| "store_exec coll t (SO_FindOrCreateClient u k c) s = commit s (FindOrCreateClient coll t u k c s)"
| "store_exec coll t (SO_UpdateClientFRPCAddress k c a) s = UpdateClientFRPCAddress coll k c a s"
| "store_exec coll t (SO_SetClientStatus c st r) s = SetClientStatus c st r s"
| "store_exec coll t (SO_TouchClientHeartbeat c b) s = TouchClientHeartbeat t c b s"
| "store_exec coll t (SO_ClearClientPresence c) s = ClearClientPresence c s"
| "store_exec coll t (SO_DeleteClient c) s = commit s (DeleteClient coll c s)"
| "store_exec coll t (SO_EnqueueClientCommand c by k m) s = commit s (EnqueueClientCommand t c by k m s)"
| "store_exec coll t (SO_PopQueuedClientCommands c) s = snd (PopQueuedClientCommands t c s)"
| "store_exec coll t (SO_AcknowledgeClientCommand k c) s = commit s (AcknowledgeClientCommand t k c s)"
| "store_exec coll t (SO_DeleteQueuedClientCommands c) s = snd (DeleteQueuedClientCommands c s)"
| "store_exec coll t (SO_CreateRuntimeLease l u k c h e as) s =
     commit s (CreateRuntimeLease coll l u k c h e as s)"
| "store_exec coll t (SO_ReleaseRuntimeLease l k c) s = snd (ReleaseRuntimeLease coll l k c s)"
| "store_exec coll t (SO_RevokeActiveRuntimeLeasesForClient k c r) s =
     snd (RevokeActiveRuntimeLeasesForClient coll t k c r s)"
| "store_exec coll t (SO_StartProxySession l n ty p d sd r) s = StartProxySession coll l n ty p d sd r s"
| "store_exec coll t (SO_CloseProxySession l n r) s = CloseProxySession coll t l n r s"
| "store_exec coll t SO_NextIdentityRevision s = commit s (NextIdentityRevision s)"
| "store_exec coll t (SO_MarkUserIdentityDirty u) s = commit s (MarkUserIdentityDirty coll u s)"
| "store_exec coll t (SO_ResetNodeIdentityCache n sid b) s = commit s (ResetNodeIdentityCache coll n sid b s)"
| "store_exec coll t (SO_PrepareNodeIdentityCache n sid r us) s =
     commit s (PrepareNodeIdentityCache coll n sid r us s)"
| "store_exec coll t (SO_ConfirmNodeIdentityCache n sid r us rm full) s =
     commit s (ConfirmNodeIdentityCache coll t n sid r us rm full s)"
| "store_exec coll t (SO_SaveUserNodeAccess u ns) s = commit s (SaveUserNodeAccess coll u ns s)"

text \<open>
  How the handlers call the store. Clients and leases are created with the user of the token that
  was just looked up; node access is granted to users that exist; the revisions and users of
  \<open>PrepareNodeIdentityCache\<close> and the revision of \<open>ConfirmNodeIdentityCache\<close> come from a message
  whose revision \<open>NextIdentityRevision\<close> issued.
\<close>

definition owned_by :: "int \<Rightarrow> int \<Rightarrow> Store \<Rightarrow> bool" where
  "owned_by k u s \<longleftrightarrow> (\<forall>t \<in> set (accessTokens s). token_ID t = k \<longrightarrow> token_UserID t = u)"

definition issued :: "int \<Rightarrow> Store \<Rightarrow> bool" where
  "issued r s \<longleftrightarrow> (case identityRevision s of None \<Rightarrow> False | Some n \<Rightarrow> r \<le> n)"

definition caller_ok :: "store_op \<Rightarrow> Store \<Rightarrow> bool" where
  "caller_ok op s =
     (case op of
        SO_FindOrCreateClient u k _ \<Rightarrow> owned_by k u s
      | SO_CreateRuntimeLease _ u k _ _ _ _ \<Rightarrow> owned_by k u s
      | SO_SaveUserNodeAccess u _ \<Rightarrow> u < nextUserID s
      | SO_PrepareNodeIdentityCache _ _ r us \<Rightarrow> issued r s \<and> (\<forall>u \<in> set us. u < nextUserID s)
      | SO_ConfirmNodeIdentityCache _ _ r _ _ _ \<Rightarrow> issued r s
      | _ \<Rightarrow> True)"

definition store_init :: "Store \<Rightarrow> bool" where
  "store_init s \<longleftrightarrow> users s = [] \<and> accessTokens s = [] \<and> adminTokens s = [] \<and> portGrants s = [] \<and>
     userPolicies s = [] \<and> clients s = [] \<and> clientCommands s = [] \<and> runtimeLeases s = [] \<and>
     leaseAllocations s = [] \<and> proxySessions s = [] \<and> dpiPolicies s = [] \<and> nodeAccess s = [] \<and>
     identityRevision s = Some 0 \<and> cacheSessions s = [] \<and> userNodeCache s = []"

definition store_step :: "collation \<Rightarrow> Store \<Rightarrow> Store \<Rightarrow> bool" where
  "store_step coll s s' \<longleftrightarrow> (\<exists>t op. caller_ok op s \<and> s' = store_exec coll t op s)"

section \<open>Reachable stores are well-formed\<close>

lemma store_inv_exec:
  assumes inv: "store_inv coll s" and ok: "caller_ok op s"
  shows "store_inv coll (store_exec coll t op s)"
proof (cases op)
  case (SO_FindOrCreateClient u k c)
  with inv ok show ?thesis
    by (auto simp: caller_ok_def owned_by_def commit_def split: sum.splits intro: keeps_FindOrCreateClient)
next
  case (SO_CreateRuntimeLease l u k c h e as)
  with inv ok show ?thesis
    by (auto simp: caller_ok_def owned_by_def commit_def split: sum.splits intro: keeps_CreateRuntimeLease)
qed (simp_all add: inv keeps_commit keeps_rules store_inv_client_updates store_inv_PopQueuedClientCommands
    store_inv_DeleteQueuedClientCommands store_inv_ReleaseRuntimeLease store_inv_RevokeActive
    store_inv_StartProxySession store_inv_close_sessions CloseProxySession_def store_inv_CreateAdminAPIToken)

lemma store_inv_init: "store_init s \<Longrightarrow> store_inv coll s"
  by (simp add: store_init_def store_parts refers_def)

interpretation store: inductive_invariant store_init "store_step coll" "store_inv coll" for coll
  by unfold_locales (auto simp: store_step_def intro: store_inv_exec store_inv_init)

text \<open>The store the schema creates, with the nodes that are registered.\<close>

definition empty_store :: "string list \<Rightarrow> Store" where
  "empty_store nodes =
     \<lparr>settings = [], users = [], accessTokens = [], adminTokens = [], portGrants = [], userPolicies = [],
      clients = [], clientCommands = [], runtimeLeases = [], leaseAllocations = [], proxySessions = [],
      dpiPolicies = [], dpiEvents = [], nodeAccess = [], edgeNodes = nodes, identityRevision = Some 0,
      cacheSessions = [], userNodeCache = [], nextUserID = 1, nextTokenID = 1, nextGrantID = 1,
      nextClientID = 1, nextCommandID = 1, nextLeaseID = 1, nextAllocationID = 1\<rparr>"

lemma store_init_empty: "store_init (empty_store nodes)"
  by (simp add: store_init_def empty_store_def)

lemma reach_empty: "reach store_init (store_step coll) (empty_store nodes)"
  by (rule reach_init) (rule store_init_empty)

lemma reach_exec:
  "reach store_init (store_step coll) s \<Longrightarrow> caller_ok op s \<Longrightarrow> reach store_init (store_step coll) (store_exec coll t op s)"
  by (rule reach_step) (auto simp: store_step_def)

text \<open>
  C23. In every store the operations can produce, the keys are unique, every reference has its
  target, a lease and a client belong to the owner of their token, and so the deletion of a user
  never fails on a foreign key: it ends in success, \<open>ErrNotFound\<close> or \<open>ErrLastAdmin\<close>.
\<close>

theorem store_wellformed:
  assumes "reach store_init (store_step coll) s"
  shows "store_inv coll s \<and> DeleteUser coll u s \<in> {Inl ErrNotFound, Inl ErrLastAdmin} \<union> range Inr"
proof
  show inv: "store_inv coll s" by (rule store.reach_inv [OF assms])
  then obtain r where "0 \<le> r" "identityRevision s = Some r" by (auto simp: store_parts)
  then have "\<exists>x. markUserIdentityDirtyTx coll u (delete_user_rows coll u s) = Inr x"
    by (simp add: markUserIdentityDirtyTx_def NextIdentityRevision_def delete_user_rows_def Let_def)
  then show "DeleteUser coll u s \<in> {Inl ErrNotFound, Inl ErrLastAdmin} \<union> range Inr"
    using foreign_rows_never [OF inv, of u] by (auto simp: DeleteUser_def split: sum.splits)
qed

theorem store_wellformed_witness:
  "store_inv (\<lambda>x. x) (store_exec (\<lambda>x. x) 0 (SO_CreateInitialAdmin ''root'' ''Root'' ''h'') (empty_store [])) \<and>
   DeleteUser (\<lambda>x. x) 1 (store_exec (\<lambda>x. x) 0 (SO_CreateInitialAdmin ''root'' ''Root'' ''h'') (empty_store [])) =
     Inl ErrLastAdmin"
proof -
  have "reach store_init (store_step (\<lambda>x. x))
      (store_exec (\<lambda>x. x) 0 (SO_CreateInitialAdmin ''root'' ''Root'' ''h'') (empty_store []))"
    by (rule reach_exec [OF reach_empty]) (simp add: caller_ok_def)
  from store_wellformed [OF this, of 1] show ?thesis
    by (simp add: DeleteUser_def CreateInitialAdmin_def insert_user_def then_get_def GetUserByID_def query_row_def
        commit_def count_where_def empty_store_def)
qed

end
