(* ===== verification/Store_Outbox.thy ===== *)
theory Store_Outbox
  imports Store_Steps
begin

text \<open>
  The identity data a node receives about a user (\<open>internal/db/identity_page.go\<close>) and the outbox that
  announces its changes (\<open>internal/db/user_node_cache.go\<close>). The identity of a user at a node is what
  a page for that user would contain. Every operation that changes it raises the desired revision
  of the node's row for the user, and the row stays pending until a confirmation of that revision.
\<close>

section \<open>Identity pages\<close>

record NodeIdentityPage =
  page_Users :: "User list"
  page_Tokens :: "AccessToken list"
  page_Policies :: "UserResourcePolicy list"
  page_Grants :: "PortGrant list"
  page_DPIPolicies :: "Policy list"
  page_Removed :: "int list"
  page_LastID :: int
  page_End :: bool

text \<open>The columns a page selects; the other fields keep Go's zero values.\<close>

definition user_view :: "User \<Rightarrow> User" where
  "user_view u = u\<lparr>user_DisplayName := [], user_PasswordHash := [], user_CreatedAt := 0, user_UpdatedAt := 0\<rparr>"

definition token_view :: "AccessToken \<Rightarrow> AccessToken" where
  "token_view t = t\<lparr>token_TokenPrefix := [], token_PlainToken := [], token_CreatedAt := 0, token_UpdatedAt := 0\<rparr>"

definition read_dpi :: "Policy \<times> string \<Rightarrow> Policy" where
  "read_dpi r = (fst r)\<lparr>dpi_EnabledDetectors := splitCSV (snd r)\<rparr>"

definition tokens_of :: "int list \<Rightarrow> Store \<Rightarrow> AccessToken list" where
  "tokens_of us s = map token_view (sort_key token_ID (filter (\<lambda>t. token_UserID t \<in> set us) (accessTokens s)))"

definition policies_of :: "int list \<Rightarrow> Store \<Rightarrow> UserResourcePolicy list" where
  "policies_of us s = map read_policy (sort_key prow_UserID (filter (\<lambda>p. prow_UserID p \<in> set us) (userPolicies s)))"

definition grants_of :: "int list \<Rightarrow> Store \<Rightarrow> PortGrant list" where
  "grants_of us s = sort_key grant_ID (filter (\<lambda>g. list_ex (\<lambda>t. token_ID t = grant_TokenID g \<and>
     token_UserID t \<in> set us) (accessTokens s)) (portGrants s))"

definition dpi_of :: "int list \<Rightarrow> Store \<Rightarrow> Policy list" where
  "dpi_of us s = map read_dpi (sort_key (dpi_UserID \<circ> fst) (filter (\<lambda>p. dpi_UserID (fst p) \<in> set us) (dpiPolicies s)))"

text \<open>
  \<open>ReadNodeIdentityPage\<close>: \<open>None\<close> for the error it returns on bad arguments. \<open>requested\<close> is
  \<open>None\<close> for a nil slice.
\<close>

definition page_rows :: "collation \<Rightarrow> string \<Rightarrow> int \<Rightarrow> int list option \<Rightarrow> Store \<Rightarrow> User list" where
  "page_rows coll node after requested s =
     sort_key user_ID (filter (\<lambda>u. CanAccessNode coll (user_ID u) node s \<and> after < user_ID u \<and>
       (case requested of None \<Rightarrow> True | Some ids \<Rightarrow> user_ID u \<in> set ids)) (users s))"

definition ReadNodeIdentityPage ::
  "collation \<Rightarrow> string \<Rightarrow> int \<Rightarrow> int list option \<Rightarrow> nat \<Rightarrow> Store \<Rightarrow> NodeIdentityPage option" where
  "ReadNodeIdentityPage coll node after requested limit s =
     (if limit < 1 \<or> (case requested of None \<Rightarrow> False | Some ids \<Rightarrow> limit < length ids \<or> after \<noteq> 0)
      then None
      else if requested = Some [] then
        Some \<lparr>page_Users = [], page_Tokens = [], page_Policies = [], page_Grants = [], page_DPIPolicies = [],
              page_Removed = [], page_LastID = after, page_End = True\<rparr>
      else
        (let rows = page_rows coll node after requested s;
             us = take limit rows;
             ids = map user_ID us
         in Some \<lparr>page_Users = map user_view us, page_Tokens = tokens_of ids s, page_Policies = policies_of ids s,
                  page_Grants = grants_of ids s, page_DPIPolicies = dpi_of ids s,
                  page_Removed = (case requested of None \<Rightarrow> [] | Some r \<Rightarrow> filter (\<lambda>i. i \<notin> set ids) r),
                  page_LastID = (if us = [] then after else user_ID (last us)),
                  page_End = (length rows \<le> limit)\<rparr>))"

section \<open>The identity of one user\<close>

record UserIdentity =
  ident_Users :: "User list"
  ident_Tokens :: "AccessToken list"
  ident_Policies :: "UserResourcePolicy list"
  ident_Grants :: "PortGrant list"
  ident_DPI :: "Policy list"

definition no_identity :: UserIdentity where
  "no_identity = \<lparr>ident_Users = [], ident_Tokens = [], ident_Policies = [], ident_Grants = [], ident_DPI = []\<rparr>"

definition identity_data :: "int \<Rightarrow> Store \<Rightarrow> UserIdentity" where
  "identity_data u s =
     \<lparr>ident_Users = map user_view (filter (\<lambda>x. user_ID x = u) (users s)), ident_Tokens = tokens_of [u] s,
      ident_Policies = policies_of [u] s, ident_Grants = grants_of [u] s, ident_DPI = dpi_of [u] s\<rparr>"

definition identity_at :: "collation \<Rightarrow> string \<Rightarrow> int \<Rightarrow> Store \<Rightarrow> UserIdentity" where
  "identity_at coll node u s =
     (if CanAccessNode coll u node s \<and> u \<in> user_ID ` set (users s) then identity_data u s else no_identity)"

text \<open>The part of a page that concerns one user.\<close>

definition page_identity :: "NodeIdentityPage \<Rightarrow> int \<Rightarrow> UserIdentity" where
  "page_identity p u =
     (let toks = filter (\<lambda>t. token_UserID t = u) (page_Tokens p) in
      \<lparr>ident_Users = filter (\<lambda>x. user_ID x = u) (page_Users p), ident_Tokens = toks,
       ident_Policies = filter (\<lambda>q. policy_UserID q = u) (page_Policies p),
       ident_Grants = filter (\<lambda>g. grant_TokenID g \<in> token_ID ` set toks) (page_Grants p),
       ident_DPI = filter (\<lambda>q. dpi_UserID q = u) (page_DPIPolicies p)\<rparr>)"

lemma user_view_ID [simp]: "user_ID (user_view u) = user_ID u"
  by (simp add: user_view_def)

lemma token_view_simps [simp]: "token_UserID (token_view t) = token_UserID t" "token_ID (token_view t) = token_ID t"
  by (simp_all add: token_view_def)

lemma read_policy_UserID [simp]: "policy_UserID (read_policy p) = prow_UserID p"
  by (simp add: read_policy_def)

lemma read_dpi_UserID [simp]: "dpi_UserID (read_dpi r) = dpi_UserID (fst r)"
  by (simp add: read_dpi_def)

lemma filter_selected:
  assumes "\<And>r. f r = k \<Longrightarrow> P r" "\<And>r. key (g r) = f r"
  shows "filter (\<lambda>x. key x = k) (map g (sort_key h (filter P rows))) = map g (sort_key h (filter (\<lambda>r. f r = k) rows))"
proof -
  have "filter (\<lambda>r. P r \<and> f r = k) rows = filter (\<lambda>r. f r = k) rows"
    using assms(1) by (intro filter_cong) auto
  then show ?thesis using assms(2) by (simp add: filter_map comp_def filter_sort)
qed

lemma filter_tokens_of: "u \<in> set us \<Longrightarrow> filter (\<lambda>t. token_UserID t = u) (tokens_of us s) = tokens_of [u] s"
  unfolding tokens_of_def by (subst filter_selected [where f = token_UserID]) auto

lemma filter_policies_of: "u \<in> set us \<Longrightarrow> filter (\<lambda>p. policy_UserID p = u) (policies_of us s) = policies_of [u] s"
  unfolding policies_of_def by (subst filter_selected [where f = prow_UserID]) auto

lemma filter_dpi_of: "u \<in> set us \<Longrightarrow> filter (\<lambda>p. dpi_UserID p = u) (dpi_of us s) = dpi_of [u] s"
  unfolding dpi_of_def by (subst filter_selected [where f = "\<lambda>r. dpi_UserID (fst r)"]) auto

lemma token_IDs_of: "token_ID ` set (tokens_of us s) = token_ID ` {t \<in> set (accessTokens s). token_UserID t \<in> set us}"
  by (simp add: tokens_of_def image_image)

lemma filter_grants_of:
  assumes "keyed token_ID (accessTokens s)" "u \<in> set us"
  shows "filter (\<lambda>g. grant_TokenID g \<in> token_ID ` set (tokens_of [u] s)) (grants_of us s) = grants_of [u] s"
proof -
  have "list_ex (\<lambda>t. token_ID t = grant_TokenID g \<and> token_UserID t \<in> set us) (accessTokens s) \<and>
      grant_TokenID g \<in> token_ID ` set (tokens_of [u] s) \<longleftrightarrow>
      list_ex (\<lambda>t. token_ID t = grant_TokenID g \<and> token_UserID t \<in> set [u]) (accessTokens s)" for g :: PortGrant
    using assms(2) unfolding token_IDs_of by (auto simp: list_ex_iff image_iff)
  then show ?thesis unfolding grants_of_def filter_sort filter_filter by (simp only:)
qed

lemma filter_single_user:
  "u \<in> user_ID ` set us \<Longrightarrow> distinct (map user_ID rows) \<Longrightarrow> set us \<subseteq> set rows \<Longrightarrow> distinct us \<Longrightarrow>
     filter (\<lambda>x. user_ID x = u) us = filter (\<lambda>x. user_ID x = u) rows"
proof -
  assume "u \<in> user_ID ` set us" and d: "distinct (map user_ID rows)" and sub: "set us \<subseteq> set rows" and us: "distinct us"
  then obtain x where x: "x \<in> set us" "user_ID x = u" by auto
  have one: "filter (\<lambda>y. user_ID y = u) ys = [x]" if "distinct ys" "set ys \<subseteq> set rows" "x \<in> set ys" for ys
  proof -
    have "y = x" if "y \<in> set ys" "user_ID y = u" for y
      using that x sub \<open>set ys \<subseteq> set rows\<close> \<open>x \<in> set ys\<close> d by (auto simp: distinct_map inj_on_def subset_iff)
    then have "filter (\<lambda>y. user_ID y = u) ys = filter (\<lambda>y. y = x) ys"
      using x by (intro filter_cong) auto
    also have "\<dots> = [x]" using that(1,3) by (induction ys) (auto simp: filter_empty_conv)
    finally show ?thesis .
  qed
  show ?thesis using one [of us] one [of rows] us d sub x by (auto simp: distinct_map)
qed

text \<open>A page shows the identity of each user it lists, and lists every user it was asked for.\<close>

lemma page_rows_mem:
  "x \<in> set (page_rows coll node after requested s) \<longleftrightarrow> x \<in> set (users s) \<and>
     CanAccessNode coll (user_ID x) node s \<and> after < user_ID x \<and>
     (case requested of None \<Rightarrow> True | Some ids \<Rightarrow> user_ID x \<in> set ids)"
  by (auto simp: page_rows_def)

lemma distinct_page_rows: "distinct (map user_ID (users s)) \<Longrightarrow> distinct (map user_ID (page_rows coll node a r s))"
  by (auto simp: page_rows_def distinct_map inj_on_def)

lemma ReadNodeIdentityPage_identity:
  assumes inv: "store_inv coll s" and page: "ReadNodeIdentityPage coll node after requested limit s = Some p"
    and u: "u \<in> user_ID ` set (page_Users p)"
  shows "page_identity p u = identity_at coll node u s"
proof -
  let ?rows = "page_rows coll node after requested s"
  let ?us = "take limit ?rows"
  have keys: "distinct (map user_ID (users s))" "keyed token_ID (accessTokens s)"
    using inv by (simp_all add: store_parts keyed_def)
  have p: "page_Users p = map user_view ?us" "page_Tokens p = tokens_of (map user_ID ?us) s"
    "page_Policies p = policies_of (map user_ID ?us) s" "page_Grants p = grants_of (map user_ID ?us) s"
    "page_DPIPolicies p = dpi_of (map user_ID ?us) s"
    using page u by (auto simp: ReadNodeIdentityPage_def Let_def split: if_splits)
  have u': "u \<in> user_ID ` set ?us" using u unfolding p by (simp add: image_image)
  then obtain x where x: "x \<in> set ?us" "user_ID x = u" by blast
  then have mem: "x \<in> set (users s)" "CanAccessNode coll u node s"
    using page_rows_mem [of x coll node after requested s] by (auto dest: in_set_takeD)
  have sub: "set ?us \<subseteq> set (users s)" using page_rows_mem by (auto dest!: in_set_takeD)
  have "distinct (map user_ID ?us)"
    using distinct_page_rows [OF keys(1)] distinct_take take_map by metis
  then have "filter (\<lambda>x. user_ID x = u) ?us = filter (\<lambda>x. user_ID x = u) (users s)"
    using filter_single_user [OF u' keys(1) sub] by (simp add: distinct_map)
  moreover have "u \<in> set (map user_ID ?us)" using u' by simp
  ultimately show ?thesis
    using mem x(2) filter_grants_of [OF keys(2)]
    by (auto simp: page_identity_def identity_at_def identity_data_def p filter_tokens_of filter_policies_of
        filter_dpi_of filter_map comp_def Let_def)
qed

section \<open>Changes and their announcement\<close>

text \<open>The row of the outbox for a user and a node, and what is known of its revisions.\<close>

definition cache_row :: "collation \<Rightarrow> int \<Rightarrow> string \<Rightarrow> Store \<Rightarrow> CacheRow option" where
  "cache_row coll u n s = find (\<lambda>c. cache_key coll c = (u, coll n)) (userNodeCache s)"

definition revision_of :: "Store \<Rightarrow> int" where
  "revision_of s = (case identityRevision s of None \<Rightarrow> 0 | Some r \<Rightarrow> r)"

definition registered :: "collation \<Rightarrow> string \<Rightarrow> Store \<Rightarrow> bool" where
  "registered coll n s \<longleftrightarrow> coll n \<in> coll ` set (edgeNodes s)"

definition outbox_inv :: "collation \<Rightarrow> Store \<Rightarrow> bool" where
  "outbox_inv coll s \<longleftrightarrow> store_inv coll s \<and>
     (\<forall>g \<in> set (nodeAccess s). fst g < nextUserID s) \<and>
     (\<forall>c \<in> set (userNodeCache s). cache_UserID c < nextUserID s \<and> cache_Desired c \<le> revision_of s \<and>
        cache_Applied c \<le> revision_of s)"

text \<open>
  A statement on the data of one user: nothing of the identity or node access of any other user
  changes, and nothing of the outbox.
\<close>

definition touches :: "collation \<Rightarrow> int \<Rightarrow> Store \<Rightarrow> Store \<Rightarrow> bool" where
  "touches coll u s s1 \<longleftrightarrow> userNodeCache s1 = userNodeCache s \<and> identityRevision s1 = identityRevision s \<and>
     edgeNodes s1 = edgeNodes s \<and> cacheSessions s1 = cacheSessions s \<and> nextUserID s1 = nextUserID s \<and>
     (\<forall>g \<in> set (nodeAccess s1). g \<in> set (nodeAccess s) \<or> fst g < nextUserID s) \<and>
     (\<forall>v n. v \<noteq> u \<longrightarrow> identity_at coll n v s1 = identity_at coll n v s)"

definition announced :: "collation \<Rightarrow> int \<Rightarrow> Store \<Rightarrow> Store \<Rightarrow> bool" where
  "announced coll u s s' \<longleftrightarrow> (\<exists>x s1. touches coll u s s1 \<and> markUserIdentityDirtyTx coll u s1 = Inr (x, s'))"

text \<open>A step that changes the identity of nobody and leaves the outbox as it is.\<close>

definition quiet :: "collation \<Rightarrow> Store \<Rightarrow> Store \<Rightarrow> bool" where
  "quiet coll s s' \<longleftrightarrow> userNodeCache s' = userNodeCache s \<and> identityRevision s' = identityRevision s \<and>
     edgeNodes s' = edgeNodes s \<and> cacheSessions s' = cacheSessions s \<and> nextUserID s \<le> nextUserID s' \<and>
     nodeAccess s' = nodeAccess s \<and> (\<forall>v n. identity_at coll n v s' = identity_at coll n v s)"

lemma upsert_desired_find:
  "find (\<lambda>c. cache_key coll c = (v, m)) (upsert_desired coll u n sid r rows) =
     (if (v, m) = (u, coll n)
      then Some (case find (\<lambda>c. cache_key coll c = (v, m)) rows of
             None \<Rightarrow> \<lparr>cache_UserID = u, cache_NodeID = n, cache_SessionID = sid, cache_Applied = 0,
                       cache_Desired = r, cache_CachedAt = None\<rparr>
           | Some c \<Rightarrow> c\<lparr>cache_Desired := max (cache_Desired c) r\<rparr>)
      else find (\<lambda>c. cache_key coll c = (v, m)) rows)"
proof (cases "list_ex (\<lambda>c. cache_UserID c = u \<and> coll (cache_NodeID c) = coll n) rows")
  case True
  have "find (\<lambda>c. cache_key coll c = (u, coll n)) rows \<noteq> None"
    using True by (auto simp: find_None_iff list_ex_iff cache_key_def)
  then obtain c where c: "find (\<lambda>c. cache_key coll c = (u, coll n)) rows = Some c" by blast
  have upd: "find (\<lambda>c. cache_key coll c = (v, m)) (update_where
      (\<lambda>c. cache_UserID c = u \<and> coll (cache_NodeID c) = coll n) (\<lambda>c. c\<lparr>cache_Desired := max (cache_Desired c) r\<rparr>) rows) =
      map_option (\<lambda>c. if cache_UserID c = u \<and> coll (cache_NodeID c) = coll n
        then c\<lparr>cache_Desired := max (cache_Desired c) r\<rparr> else c) (find (\<lambda>c. cache_key coll c = (v, m)) rows)"
    by (rule find_update_where) (simp add: cache_key_def)
  show ?thesis
  proof (cases "(v, m) = (u, coll n)")
    case True': True
    with True upd c show ?thesis
      by (auto simp: upsert_desired_def Let_def cache_key_def dest!: find_Some_iff')
  next
    case False
    with True upd show ?thesis
      by (auto simp: upsert_desired_def Let_def cache_key_def dest!: find_Some_iff' intro!: option.map_ident_strong
          split: option.splits)
  qed
next
  case False
  then have "find (\<lambda>c. cache_key coll c = (u, coll n)) rows = None"
    by (auto simp: find_None_iff list_ex_iff cache_key_def)
  with False show ?thesis
    by (auto simp: upsert_desired_def Let_def find_append cache_key_def split: option.splits)
qed

text \<open>The outbox row after marking a user: present, and desired at the new revision.\<close>

lemma fold_upsert_find:
  assumes "\<And>c. c \<in> set rows \<Longrightarrow> cache_Desired c \<le> r"
  shows "find (\<lambda>c. cache_key coll c = (v, m))
      (fold (\<lambda>n. upsert_desired coll u n (sid n) r) ns rows) =
    (if v = u \<and> m \<in> coll ` set ns
     then (case find (\<lambda>c. cache_key coll c = (v, m)) rows of
             None \<Rightarrow> (case find (\<lambda>n. coll n = m) ns of None \<Rightarrow> None
                      | Some n \<Rightarrow> Some \<lparr>cache_UserID = u, cache_NodeID = n, cache_SessionID = sid n,
                          cache_Applied = 0, cache_Desired = r, cache_CachedAt = None\<rparr>)
           | Some c \<Rightarrow> Some (c\<lparr>cache_Desired := r\<rparr>))
     else find (\<lambda>c. cache_key coll c = (v, m)) rows)"
  using assms
proof (induction ns arbitrary: rows)
  case Nil
  then show ?case by simp
next
  case (Cons n ns)
  have le: "cache_Desired c \<le> r" if "c \<in> set (upsert_desired coll u n (sid n) r rows)" for c
    using that Cons.prems by (auto simp: upsert_desired_def Let_def in_update_where split: if_splits)
  have max: "cache_Desired c \<le> r" if "find (\<lambda>c. cache_key coll c = k) rows = Some c" for c k
    using that Cons.prems by (auto dest!: find_Some_iff')
  show ?case
    using Cons.IH [of "upsert_desired coll u n (sid n) r rows"] le max
    by (auto simp: upsert_desired_find max_absorb2 split: option.splits)
qed

lemma dedupe_nodes:
  "coll ` set (fold (\<lambda>n acc. if coll n \<in> set (map coll acc) then acc else acc @ [n]) xs acc) =
     coll ` set xs \<union> coll ` set acc"
  by (induction xs arbitrary: acc) (auto simp: image_iff)

lemma cache_row_None: "cache_row coll u n s = None \<longleftrightarrow> (\<forall>c \<in> set (userNodeCache s). cache_key coll c \<noteq> (u, coll n))"
  by (auto simp: cache_row_def find_None_iff)

lemma CanAccessNode_iff: "CanAccessNode coll u n s \<longleftrightarrow> (\<exists>b. (u, b) \<in> set (nodeAccess s) \<and> coll b = coll n)"
  by (force simp: CanAccessNode_def count_where_pos)

lemma dirty_targets_mem:
  "coll n \<in> coll ` set (dirty_targets coll u s) \<longleftrightarrow>
     registered coll n s \<and> (cache_row coll u n s \<noteq> None \<or> CanAccessNode coll u n s)"
proof -
  have sel: "coll n \<in> coll ` set (filter (\<lambda>m. coll m \<in> M) xs) \<longleftrightarrow> coll n \<in> M \<and> coll n \<in> coll ` set xs" for M xs
    by (auto simp: image_iff)
  have "coll n \<in> coll ` set (map cache_NodeID (filter (\<lambda>c. cache_UserID c = u) (userNodeCache s))) \<longleftrightarrow>
      cache_row coll u n s \<noteq> None"
    by (auto simp: cache_row_None cache_key_def image_iff)
  moreover have "coll n \<in> coll ` set (map snd (filter (\<lambda>g. fst g = u) (nodeAccess s))) \<longleftrightarrow> CanAccessNode coll u n s"
    by (auto simp: CanAccessNode_iff image_iff)
  ultimately show ?thesis
    unfolding dirty_targets_def Let_def sel dedupe_nodes registered_def set_append image_Un by simp
qed

lemma identity_at_same:
  assumes "users s' = users s" "accessTokens s' = accessTokens s" "userPolicies s' = userPolicies s"
    "portGrants s' = portGrants s" "dpiPolicies s' = dpiPolicies s" "nodeAccess s' = nodeAccess s"
  shows "identity_at coll n v s' = identity_at coll n v s"
  using assms by (simp add: identity_at_def identity_data_def tokens_of_def policies_of_def grants_of_def dpi_of_def
      CanAccessNode_def)

text \<open>What marking a user as dirty does to the outbox.\<close>

lemma mark_dirty_effect:
  assumes mark: "markUserIdentityDirtyTx coll u s = Inr (x, s')"
    and bound: "\<And>c. c \<in> set (userNodeCache s) \<Longrightarrow> cache_Desired c \<le> revision_of s"
  shows "revision_of s' = revision_of s + 1"
    and "identity_at coll n v s' = identity_at coll n v s"
    and "registered coll n s \<Longrightarrow> cache_row coll u n s \<noteq> None \<or> CanAccessNode coll u n s \<Longrightarrow>
           \<exists>c. cache_row coll u n s' = Some c \<and> cache_Desired c = revision_of s' \<and>
             (cache_row coll u n s = None \<and> cache_Applied c = 0 \<and>
                cache_SessionID c = current_session coll n (cacheSessions s)
              \<or> (\<exists>d. cache_row coll u n s = Some d \<and> cache_Applied c = cache_Applied d \<and> cache_SessionID c = cache_SessionID d))"
    and "\<not> (v = u \<and> registered coll n s \<and> (cache_row coll u n s \<noteq> None \<or> CanAccessNode coll u n s)) \<Longrightarrow>
           cache_row coll v n s' = cache_row coll v n s"
    and "users s' = users s \<and> nodeAccess s' = nodeAccess s \<and> edgeNodes s' = edgeNodes s \<and>
         cacheSessions s' = cacheSessions s \<and> nextUserID s' = nextUserID s"
proof -
  from mark obtain r where r: "identityRevision s = Some r" and s': "s' = s\<lparr>identityRevision := Some (r + 1), userNodeCache :=
       fold (\<lambda>n. upsert_desired coll u n (current_session coll n (cacheSessions s)) (r + 1))
         (dirty_targets coll u s) (userNodeCache s)\<rparr>"
    by (rule mark_dirty_result)
  show "revision_of s' = revision_of s + 1" using r by (simp add: s' revision_of_def)
  show "identity_at coll n v s' = identity_at coll n v s" by (rule identity_at_same) (simp_all add: s')
  have "cache_Desired c \<le> r + 1" if "c \<in> set (userNodeCache s)" for c
    using bound [OF that] r by (simp add: revision_of_def)
  note row = fold_upsert_find [of "userNodeCache s" "r + 1" coll _ _ u
      "\<lambda>n. current_session coll n (cacheSessions s)" "dirty_targets coll u s", OF this]
  show "cache_row coll v n s' = cache_row coll v n s"
    if "\<not> (v = u \<and> registered coll n s \<and> (cache_row coll u n s \<noteq> None \<or> CanAccessNode coll u n s))"
    using that dirty_targets_mem [of coll n u s] by (auto simp: cache_row_def s' row)
  show "\<exists>c. cache_row coll u n s' = Some c \<and> cache_Desired c = revision_of s' \<and>
      (cache_row coll u n s = None \<and> cache_Applied c = 0 \<and> cache_SessionID c = current_session coll n (cacheSessions s)
       \<or> (\<exists>d. cache_row coll u n s = Some d \<and> cache_Applied c = cache_Applied d \<and> cache_SessionID c = cache_SessionID d))"
    if "registered coll n s" "cache_row coll u n s \<noteq> None \<or> CanAccessNode coll u n s"
  proof -
    have mem: "coll n \<in> coll ` set (dirty_targets coll u s)" using that dirty_targets_mem by blast
    then have "find (\<lambda>m. coll m = coll n) (dirty_targets coll u s) \<noteq> None"
      by (auto simp: find_None_iff)
    then obtain m where "find (\<lambda>m. coll m = coll n) (dirty_targets coll u s) = Some m" "coll m = coll n"
      by (auto dest: find_Some_iff')
    moreover from this have "current_session coll m rows = current_session coll n rows" for rows
      using session_of_coll [of coll m n] by (simp add: current_session_def)
    ultimately show ?thesis
      using mem by (auto simp: cache_row_def s' row revision_of_def split: option.splits)
  qed
  show "users s' = users s \<and> nodeAccess s' = nodeAccess s \<and> edgeNodes s' = edgeNodes s \<and>
      cacheSessions s' = cacheSessions s \<and> nextUserID s' = nextUserID s"
    by (simp add: s')
qed

section \<open>Every change is announced\<close>

lemma filter_update_other:
  "(\<And>r. r \<in> set rows \<Longrightarrow> Q r \<Longrightarrow> \<not> P r \<and> \<not> P (f r)) \<Longrightarrow> filter P (update_where Q f rows) = filter P rows"
  by (induction rows) (auto simp: update_where_def)

lemma filter_delete_other: "(\<And>r. r \<in> set rows \<Longrightarrow> Q r \<Longrightarrow> \<not> P r) \<Longrightarrow> filter P (delete_where Q rows) = filter P rows"
  by (induction rows) (auto simp: delete_where_def)

definition granted :: "Store \<Rightarrow> int \<Rightarrow> PortGrant \<Rightarrow> bool" where
  "granted s v g \<longleftrightarrow> list_ex (\<lambda>t. token_ID t = grant_TokenID g \<and> token_UserID t = v) (accessTokens s)"

lemma identity_at_cong:
  assumes us: "filter (\<lambda>x. user_ID x = v) (users s') = filter (\<lambda>x. user_ID x = v) (users s)"
    and "filter (\<lambda>t. token_UserID t = v) (accessTokens s') = filter (\<lambda>t. token_UserID t = v) (accessTokens s)"
    and "filter (\<lambda>p. prow_UserID p = v) (userPolicies s') = filter (\<lambda>p. prow_UserID p = v) (userPolicies s)"
    and "filter (granted s' v) (portGrants s') = filter (granted s v) (portGrants s)"
    and "filter (\<lambda>p. dpi_UserID (fst p) = v) (dpiPolicies s') = filter (\<lambda>p. dpi_UserID (fst p) = v) (dpiPolicies s)"
    and "filter (\<lambda>g. fst g = v) (nodeAccess s') = filter (\<lambda>g. fst g = v) (nodeAccess s)"
  shows "identity_at coll n v s' = identity_at coll n v s"
proof -
  have "v \<in> user_ID ` set (users t) \<longleftrightarrow> filter (\<lambda>x. user_ID x = v) (users t) \<noteq> []" for t :: Store
    by (auto simp: filter_empty_conv)
  moreover have "CanAccessNode coll v n t \<longleftrightarrow> list_ex (\<lambda>g. coll (snd g) = coll n) (filter (\<lambda>g. fst g = v) (nodeAccess t))"
    for t by (force simp: CanAccessNode_iff list_ex_iff)
  moreover have "grants_of [v] t = sort_key grant_ID (filter (granted t v) (portGrants t))" for t
    by (simp add: grants_of_def granted_def [abs_def])
  ultimately show ?thesis
    using assms by (simp add: identity_at_def identity_data_def tokens_of_def policies_of_def dpi_of_def)
qed

text \<open>Each operation on identity data announces the user it changes.\<close>

lemma exec_announced:
  "execUserIdentityChange coll u q s = Inr (x, s') \<Longrightarrow> (\<And>y s1. q s = Inr (y, s1) \<Longrightarrow> touches coll u s s1) \<Longrightarrow>
     announced coll u s s'"
  by (auto simp: execUserIdentityChange_def announced_def split: sum.splits)

lemma announcedI: "markUserIdentityDirtyTx coll u s1 = Inr (x, s') \<Longrightarrow> touches coll u s s1 \<Longrightarrow> announced coll u s s'"
  by (auto simp: announced_def)

lemma then_get_Inr: "then_get w g s = Inr (y, s') \<Longrightarrow> \<exists>x. w s = Inr (x, s')"
  by (auto simp: then_get_def split: sum.splits)

lemma touchesI:
  assumes "userNodeCache s1 = userNodeCache s" "identityRevision s1 = identityRevision s" "edgeNodes s1 = edgeNodes s"
    "cacheSessions s1 = cacheSessions s" "nextUserID s1 = nextUserID s"
    "\<And>g. g \<in> set (nodeAccess s1) \<Longrightarrow> g \<in> set (nodeAccess s) \<or> fst g < nextUserID s"
    "\<And>v. v \<noteq> u \<Longrightarrow> filter (\<lambda>x. user_ID x = v) (users s1) = filter (\<lambda>x. user_ID x = v) (users s)"
    "\<And>v. v \<noteq> u \<Longrightarrow> filter (\<lambda>t. token_UserID t = v) (accessTokens s1) = filter (\<lambda>t. token_UserID t = v) (accessTokens s)"
    "\<And>v. v \<noteq> u \<Longrightarrow> filter (\<lambda>p. prow_UserID p = v) (userPolicies s1) = filter (\<lambda>p. prow_UserID p = v) (userPolicies s)"
    "\<And>v. v \<noteq> u \<Longrightarrow> filter (granted s1 v) (portGrants s1) = filter (granted s v) (portGrants s)"
    "\<And>v. v \<noteq> u \<Longrightarrow>
       filter (\<lambda>p. dpi_UserID (fst p) = v) (dpiPolicies s1) = filter (\<lambda>p. dpi_UserID (fst p) = v) (dpiPolicies s)"
    "\<And>v. v \<noteq> u \<Longrightarrow> filter (\<lambda>g. fst g = v) (nodeAccess s1) = filter (\<lambda>g. fst g = v) (nodeAccess s)"
  shows "touches coll u s s1"
  using assms by (auto simp: touches_def intro!: identity_at_cong)

lemma announced_SetUserStatus: "announced coll u s s'" if "SetUserStatus coll t u st r s = Inr (x, s')"
  using that unfolding SetUserStatus_def
  by (rule exec_announced) (auto intro!: touchesI filter_update_other simp: granted_def [abs_def])

lemma announced_UpsertUserResourcePolicy:
  "announced coll (policy_UserID p) s s'" if "UpsertUserResourcePolicy coll p s = Inr (x, s')"
proof -
  from that obtain y where "execUserIdentityChange coll (policy_UserID p) (upsert_policy_row
       \<lparr>prow_UserID = policy_UserID p, prow_PortStart = policy_PortStart p, prow_PortEnd = policy_PortEnd p,
        prow_MaxPorts = (if policy_MaxPorts p \<le> 0 then 1 else policy_MaxPorts p),
        prow_AllowedProtocols = JoinProtocols (policy_AllowedProtocols p),
        prow_Enabled = policy_Enabled p\<rparr>) s = Inr (y, s')"
    unfolding UpsertUserResourcePolicy_def by (auto dest!: then_get_Inr)
  then show ?thesis
    by (rule exec_announced)
      (auto simp: upsert_policy_row_def granted_def [abs_def] split: if_splits intro!: touchesI filter_update_other)
qed

lemma announced_UpsertDPIPolicy: "announced coll (dpi_UserID p) s s'" if "UpsertDPIPolicy coll p d s = Inr (x, s')"
proof -
  have same: "dpi_UserID (normalizeDPIPolicy p d) = dpi_UserID p" by (simp add: normalizeDPIPolicy_def)
  show ?thesis
    using that unfolding UpsertDPIPolicy_def Let_def same
    by (auto dest!: then_get_Inr elim!: exec_announced split: if_splits
        simp: granted_def [abs_def] same intro!: touchesI filter_update_other)
qed

lemma announced_CreateAccessToken: "announced coll u s s'" if "CreateAccessToken coll t u n p th tp m e s = Inr (x, s')"
proof -
  from that obtain y where "execUserIdentityChange coll u (insert_token coll t u n p th tp m e) s = Inr (y, s')"
    unfolding CreateAccessToken_def by (auto dest!: then_get_Inr)
  then show ?thesis
    by (rule exec_announced)
      (auto simp: insert_token_def granted_def [abs_def] split: if_splits intro!: touchesI)
qed

lemma announced_token_update:
  assumes inv: "store_inv coll s" and tok: "GetAccessTokenByID k s = Inr token"
    and f: "\<And>t. token_ID (f t) = token_ID t \<and> token_UserID (f t) = token_UserID t"
  shows "touches coll (token_UserID token) s
    (s\<lparr>accessTokens := update_where (\<lambda>t. token_ID t = k) f (accessTokens s)\<rparr>)"
proof -
  have keyed: "keyed token_ID (accessTokens s)" using inv by (simp add: store_parts)
  have token: "token \<in> set (accessTokens s)" "token_ID token = k"
    using tok by (auto simp: GetAccessTokenByID_def dest: query_row_Inr)
  have owner: "token_UserID t = token_UserID token" if "t \<in> set (accessTokens s)" "token_ID t = k" for t
    using keyedD [OF keyed that(1) token(1)] that(2) token(2) by simp
  have ex: "list_ex (\<lambda>t. token_ID t = i \<and> token_UserID t = v) (update_where (\<lambda>t. token_ID t = k) f rows) \<longleftrightarrow>
      list_ex (\<lambda>t. token_ID t = i \<and> token_UserID t = v) rows" for i v rows
    using f by (induction rows) (auto simp: update_where_def)
  show ?thesis
    using owner f by (auto intro!: touchesI filter_update_other simp: granted_def [abs_def] ex)
qed

lemma announced_SetAccessTokenStatus:
  assumes inv: "store_inv coll s" and run: "SetAccessTokenStatus coll t k st r s = Inr (x, s')"
  shows "\<exists>u. announced coll u s s'"
proof (cases "GetAccessTokenByID k s")
  case (Inr token)
  have "announced coll (token_UserID token) s s'"
    using run unfolding SetAccessTokenStatus_def Inr sum.case
    by (rule exec_announced) (auto intro: announced_token_update [OF inv Inr])
  then show ?thesis by blast
qed (use run in \<open>simp add: SetAccessTokenStatus_def\<close>)

lemma announced_RotateAccessToken:
  assumes inv: "store_inv coll s" and run: "RotateAccessToken coll t k p th tp s = Inr (x, s')"
  shows "\<exists>u. announced coll u s s'"
proof (cases "GetAccessTokenByID k s")
  case (Inr token)
  from run have "\<exists>y. execUserIdentityChange coll (token_UserID token) (\<lambda>s.
      if list_ex (\<lambda>t. token_ID t \<noteq> k \<and> coll (token_TokenHash t) = coll th) (accessTokens s) then Inl ErrDuplicateKey
      else Inr ((), s\<lparr>accessTokens := update_where (\<lambda>t. token_ID t = k)
        (\<lambda>r. r\<lparr>token_TokenHash := th, token_TokenPrefix := tp, token_PlainToken := p, token_Status := ''active'',
           token_BanReason := [], token_UpdatedAt := t\<rparr>) (accessTokens s)\<rparr>)) s = Inr (y, s')"
    unfolding RotateAccessToken_def Inr sum.case by (rule then_get_Inr)
  then have "announced coll (token_UserID token) s s'"
    by (elim exE, elim exec_announced) (auto intro: announced_token_update [OF inv Inr] split: if_splits)
  then show ?thesis by blast
qed (use run in \<open>simp add: RotateAccessToken_def\<close>)

lemma announced_CreatePortGrant:
  assumes inv: "store_inv coll s" and run: "CreatePortGrant coll g s = Inr (x, s')"
  shows "\<exists>u. announced coll u s s'"
proof (cases "GetAccessTokenByID (grant_TokenID g) s")
  case (Inr token)
  have keyed: "keyed token_ID (accessTokens s)" using inv by (simp add: store_parts)
  have token: "token \<in> set (accessTokens s)" "token_ID token = grant_TokenID g"
    using Inr by (auto simp: GetAccessTokenByID_def dest: query_row_Inr)
  have other: "\<not> granted s v (g\<lparr>grant_ID := i\<rparr>)" if "v \<noteq> token_UserID token" for v i
    using keyedD [OF keyed _ token(1)] token(2) that by (auto simp: granted_def list_ex_iff)
  from run have "\<exists>y. execUserIdentityChange coll (token_UserID token) (\<lambda>s. Inr (nextGrantID s,
      s\<lparr>portGrants := portGrants s @ [g\<lparr>grant_ID := nextGrantID s\<rparr>], nextGrantID := nextGrantID s + 1\<rparr>)) s = Inr (y, s')"
    unfolding CreatePortGrant_def Inr sum.case by (rule then_get_Inr)
  then have "announced coll (token_UserID token) s s'"
    using other by (elim exE, elim exec_announced) (auto intro!: touchesI simp: granted_def [abs_def])
  then show ?thesis by blast
qed (use run in \<open>simp add: CreatePortGrant_def\<close>)

lemma insert_access_other:
  "u \<noteq> v \<Longrightarrow> filter (\<lambda>g. fst g = v) (fold (insert_access coll u) nodes rows) = filter (\<lambda>g. fst g = v) rows"
  by (induction nodes arbitrary: rows) (auto simp: insert_access_def)

lemma insert_access_mem: "g \<in> set (fold (insert_access coll u) nodes rows) \<Longrightarrow> g \<in> set rows \<or> fst g = u"
proof (induction nodes arbitrary: rows)
  case (Cons n nodes)
  have "set (insert_access coll u n rows) \<subseteq> set rows \<union> {g. fst g = u}"
    by (auto simp: insert_access_def)
  then show ?case
    using Cons.IH [of "insert_access coll u n rows"] Cons.prems by auto
qed simp

lemma announced_SaveUserNodeAccess:
  assumes "SaveUserNodeAccess coll u nodes s = Inr (x, s')" "u < nextUserID s"
  shows "announced coll u s s'"
proof -
  have "touches coll u s (s\<lparr>nodeAccess := fold (insert_access coll u) nodes
      (delete_where (\<lambda>g. fst g = u) (nodeAccess s)), runtimeLeases := leases\<rparr>)" for leases
    using assms(2) by (intro touchesI) (auto simp: granted_def [abs_def] insert_access_other
      intro!: filter_delete_other dest!: insert_access_mem)
  then show ?thesis using assms(1) by (auto simp: SaveUserNodeAccess_def Let_def elim!: announcedI)
qed

lemma announced_DeleteUser:
  assumes inv: "store_inv coll s" and run: "DeleteUser coll u s = Inr (x, s')"
  shows "announced coll u s s'"
proof -
  have keyed: "keyed token_ID (accessTokens s)" using inv by (simp add: store_parts)
  have "filter (granted (delete_user_rows coll u s) v) (portGrants (delete_user_rows coll u s)) =
      filter (granted s v) (portGrants s)" if "v \<noteq> u" for v
  proof -
    have "granted (delete_user_rows coll u s) v = granted s v"
      using that by (auto simp: fun_eq_iff granted_def delete_user_rows_def Let_def list_ex_iff delete_where_def)
    then show ?thesis
      using that
      by (auto simp: delete_user_rows_def Let_def granted_def list_ex_iff intro!: filter_delete_other
          dest: keyedD [OF keyed])
  qed
  then have "touches coll u s (delete_user_rows coll u s)"
    by (intro touchesI) (auto simp: delete_user_rows_def Let_def delete_where_def intro: filter_cong)
  then show ?thesis
    using run by (auto simp: announced_def DeleteUser_def split: sum.splits if_splits)
qed

section \<open>The effect of an operation on the outbox\<close>

lemma quiet_refl: "quiet coll s s"
  by (simp add: quiet_def)

text \<open>The tables that neither the runtime of clients nor a setting changes.\<close>

definition identity_tables where
  "identity_tables s = (users s, accessTokens s, userPolicies s, portGrants s, dpiPolicies s, nodeAccess s,
     userNodeCache s, identityRevision s, edgeNodes s, cacheSessions s, nextUserID s)"

lemma quiet_frame: "identity_tables s' = identity_tables s \<Longrightarrow> quiet coll s s'"
  using identity_at_same [of s' s] by (simp add: quiet_def identity_tables_def)

lemma identity_new: "(\<forall>g \<in> set (nodeAccess s). fst g < v) \<Longrightarrow> identity_at coll n v s = no_identity"
  by (auto simp: identity_at_def CanAccessNode_iff)

lemma outbox_access: "outbox_inv coll s \<Longrightarrow> \<forall>g \<in> set (nodeAccess s). fst g < nextUserID s"
  by (simp add: outbox_inv_def)

lemma quiet_insert_user:
  assumes inv: "outbox_inv coll s" and run: "insert_user coll t u d h r s = Inr (uid, s1)"
    and s': "users s' = users s1" "nextUserID s' = nextUserID s1" "userNodeCache s' = userNodeCache s1"
      "identityRevision s' = identityRevision s1" "edgeNodes s' = edgeNodes s1" "cacheSessions s' = cacheSessions s1"
      "nodeAccess s' = nodeAccess s1" "portGrants s' = portGrants s1" "dpiPolicies s' = dpiPolicies s1"
      "\<And>v. v \<noteq> uid \<Longrightarrow> granted s' v = granted s1 v \<and>
        filter (\<lambda>t. token_UserID t = v) (accessTokens s') = filter (\<lambda>t. token_UserID t = v) (accessTokens s1) \<and>
        filter (\<lambda>p. prow_UserID p = v) (userPolicies s') = filter (\<lambda>p. prow_UserID p = v) (userPolicies s1)"
  shows "quiet coll s s'"
proof -
  from run have uid: "uid = nextUserID s" and s1: "nextUserID s1 = nextUserID s + 1" "userNodeCache s1 = userNodeCache s"
    "identityRevision s1 = identityRevision s" "edgeNodes s1 = edgeNodes s" "cacheSessions s1 = cacheSessions s"
    "nodeAccess s1 = nodeAccess s" "portGrants s1 = portGrants s" "dpiPolicies s1 = dpiPolicies s"
    "accessTokens s1 = accessTokens s" "userPolicies s1 = userPolicies s"
    and us: "\<And>v. v \<noteq> uid \<Longrightarrow> filter (\<lambda>x. user_ID x = v) (users s1) = filter (\<lambda>x. user_ID x = v) (users s)"
    by (auto simp: insert_user_def split: if_splits)
  have "identity_at coll n v s' = identity_at coll n v s" for v n
  proof (cases "v = uid")
    case True
    then show ?thesis
      using outbox_access [OF inv] by (simp add: identity_new uid s'(7) s1(6))
  next
    case False
    have "granted s1 v = granted s v" by (simp add: granted_def [abs_def] s1)
    with False show ?thesis using s' s1 us by (intro identity_at_cong) simp_all
  qed
  then show ?thesis using s' s1 by (simp add: quiet_def)
qed

lemma quiet_CreateUser:
  "outbox_inv coll s \<Longrightarrow> CreateUser coll t u d h r s = Inr (x, s') \<Longrightarrow> quiet coll s s'"
  by (auto simp: CreateUser_def dest!: then_get_Inr intro: quiet_insert_user)

lemma quiet_CreateInitialAdmin:
  "outbox_inv coll s \<Longrightarrow> CreateInitialAdmin coll t u d h s = Inr (x, s') \<Longrightarrow> quiet coll s s'"
  by (auto simp: CreateInitialAdmin_def granted_def [abs_def] dest!: then_get_Inr split: if_splits sum.splits
      intro: quiet_insert_user)

lemma quiet_CreateUserWithAccessToken:
  assumes inv: "outbox_inv coll s"
    and run: "CreateUserWithAccessToken coll t u d h r n p th tp m s = Inr (x, s')"
  shows "quiet coll s s'"
proof -
  obtain uid s1 tid s2 r' n' m' where u: "insert_user coll t u d h r' s = Inr (uid, s1)"
    and tok: "insert_token coll t uid n' p th tp m' None s1 = Inr (tid, s2)"
    and s': "s' = s2\<lparr>userPolicies := userPolicies s2 @ [default_policy_row uid]\<rparr>"
    using run by (auto simp: CreateUserWithAccessToken_def Let_def split: sum.splits if_splits)
  from tok show ?thesis
    by (intro quiet_insert_user [OF inv u])
      (auto simp: s' insert_token_def granted_def [abs_def] default_policy_row_def split: if_splits)
qed

definition sync_op :: "store_op \<Rightarrow> bool" where
  "sync_op op = (case op of SO_NextIdentityRevision \<Rightarrow> True | SO_ResetNodeIdentityCache _ _ _ \<Rightarrow> True
     | SO_PrepareNodeIdentityCache _ _ _ _ \<Rightarrow> True | SO_ConfirmNodeIdentityCache _ _ _ _ _ _ \<Rightarrow> True | _ \<Rightarrow> False)"

lemma insert_allocations_frame: "insert_allocations coll l as s = Inr (x, s') \<Longrightarrow> identity_tables s' = identity_tables s"
  by (induction coll l as s rule: insert_allocations.induct) (auto simp: identity_tables_def split: if_splits)

lemma runtime_frames:
  "identity_tables (commit s (SetSetting k v s)) = identity_tables s"
  "identity_tables (snd (CreateAdminAPIToken coll t u th tp s)) = identity_tables s"
  "identity_tables (commit s (FindOrCreateClient coll t u tk c s)) = identity_tables s"
  "identity_tables (update_clients P f s) = identity_tables s"
  "identity_tables (commit s (DeleteClient coll cid s)) = identity_tables s"
  "identity_tables (commit s (EnqueueClientCommand t cid by cm msg s)) = identity_tables s"
  "identity_tables (snd (PopQueuedClientCommands t cid s)) = identity_tables s"
  "identity_tables (commit s (AcknowledgeClientCommand t kid cid s)) = identity_tables s"
  "identity_tables (snd (DeleteQueuedClientCommands cid s)) = identity_tables s"
  by (auto simp: identity_tables_def commit_def SetSetting_def CreateAdminAPIToken_def FindOrCreateClient_def
      update_clients_def DeleteClient_def EnqueueClientCommand_def PopQueuedClientCommands_def then_get_def
      AcknowledgeClientCommand_def DeleteQueuedClientCommands_def Let_def split: sum.splits if_splits)

lemma lease_frames:
  "identity_tables (snd (ReleaseRuntimeLease coll l tk c s)) = identity_tables s"
  "identity_tables (snd (RevokeActiveRuntimeLeasesForClient coll t tk c r s)) = identity_tables s"
  "identity_tables (StartProxySession coll lease n ty p d sd rid s) = identity_tables s"
  "identity_tables (CloseProxySession coll t l n r s) = identity_tables s"
  "identity_tables (commit s (CreateRuntimeLease coll l u tk c h e as s)) = identity_tables s"
      apply (simp_all add: identity_tables_def ReleaseRuntimeLease_def RevokeActiveRuntimeLeasesForClient_def
      StartProxySession_def CloseProxySession_def close_sessions_def Let_def)
  apply (auto simp: commit_def CreateRuntimeLease_def insert_lease_def Let_def identity_tables_def
      dest!: insert_allocations_frame split: sum.splits if_splits)
  done

lemma commit_effect:
  "(\<And>x s'. r = Inr (x, s') \<Longrightarrow> quiet coll s s' \<or> (\<exists>u. announced coll u s s')) \<Longrightarrow>
     quiet coll s (commit s r) \<or> (\<exists>u. announced coll u s (commit s r))"
  by (auto simp: commit_def quiet_refl split: sum.splits)

lemma touches_refl: "outbox_inv coll s \<Longrightarrow> touches coll u s s"
  by (simp add: touches_def)

lemma op_effect:
  assumes inv: "outbox_inv coll s" and ok: "caller_ok op s" and no_sync: "\<not> sync_op op"
  shows "quiet coll s (store_exec coll t op s) \<or> (\<exists>u. announced coll u s (store_exec coll t op s))"
proof -
  have si: "store_inv coll s" using inv by (simp add: outbox_inv_def)
  show ?thesis
    using ok no_sync
    by (cases op)
      (auto simp: sync_op_def caller_ok_def runtime_frames lease_frames UpdateClientFRPCAddress_def SetClientStatus_def
        TouchClientHeartbeat_def ClearClientPresence_def MarkUserIdentityDirty_def inv si
        quiet_frame intro!: commit_effect simp del: not_ex
        dest: quiet_CreateInitialAdmin [OF inv] quiet_CreateUser [OF inv] quiet_CreateUserWithAccessToken [OF inv]
        announced_SetUserStatus announced_DeleteUser [OF si] announced_UpsertUserResourcePolicy announced_UpsertDPIPolicy
        announced_CreateAccessToken announced_SetAccessTokenStatus [OF si] announced_RotateAccessToken [OF si]
        announced_CreatePortGrant [OF si] announced_SaveUserNodeAccess announcedI [OF _ touches_refl [OF inv]])
qed

section \<open>Revisions in the outbox\<close>

definition rows_within :: "int \<Rightarrow> int \<Rightarrow> CacheRow list \<Rightarrow> bool" where
  "rows_within N R rows \<longleftrightarrow>
     (\<forall>c \<in> set rows. cache_UserID c < N \<and> cache_Desired c \<le> R \<and> cache_Applied c \<le> R)"

lemma fold_keeps: "(\<And>x rows. x \<in> set xs \<Longrightarrow> Q rows \<Longrightarrow> Q (f x rows)) \<Longrightarrow> Q rows \<Longrightarrow> Q (fold f xs rows)"
  by (induction xs arbitrary: rows) auto

lemma rows_within_upsert:
  "rows_within N R rows \<Longrightarrow> u < N \<Longrightarrow> r \<le> R \<Longrightarrow> 0 \<le> R \<Longrightarrow> rows_within N R (upsert_desired coll u n sid r rows)"
  by (auto simp: rows_within_def upsert_desired_def Let_def in_update_where)

lemma rows_within_mono: "rows_within N R rows \<Longrightarrow> N \<le> N' \<Longrightarrow> R \<le> R' \<Longrightarrow> rows_within N' R' rows"
  unfolding rows_within_def by (meson less_le_trans order_trans)

lemma rows_within_delete: "rows_within N R rows \<Longrightarrow> rows_within N R (delete_where P rows)"
  by (auto simp: rows_within_def delete_where_def)

lemma rows_within_confirm:
  assumes "rows_within N R rows" "r \<le> R"
  shows "rows_within N R (confirm_user coll t n sid r u rows)" "rows_within N R (confirm_removed coll n sid r u rows)"
    "rows_within N R (confirm_full coll n sid r rows)"
  using assms by (auto simp: confirm_user_def confirm_removed_def confirm_full_def Let_def rows_within_def
      in_update_where delete_where_def)

lemma outbox_rows: "outbox_inv coll s \<longleftrightarrow> store_inv coll s \<and> (\<forall>g \<in> set (nodeAccess s). fst g < nextUserID s) \<and>
    rows_within (nextUserID s) (revision_of s) (userNodeCache s)"
  by (simp add: outbox_inv_def rows_within_def)

lemma dirty_targets_owner:
  assumes "n \<in> set (dirty_targets coll u s)" "\<forall>g \<in> set (nodeAccess s). fst g < N" "rows_within N R (userNodeCache s)"
  shows "u < N"
proof -
  have "coll n \<in> coll ` set (dirty_targets coll u s)" using assms(1) by blast
  then have "cache_row coll u n s \<noteq> None \<or> CanAccessNode coll u n s" by (simp add: dirty_targets_mem)
  then show ?thesis
    using assms(2,3) by (auto simp: rows_within_def cache_row_def cache_key_def CanAccessNode_iff dest!: find_Some_iff')
qed

lemma outbox_inv_announced:
  assumes inv: "outbox_inv coll s" and ann: "announced coll u s s'" and si: "store_inv coll s'"
  shows "outbox_inv coll s'"
proof -
  obtain x s1 where touch: "touches coll u s s1" and mark: "markUserIdentityDirtyTx coll u s1 = Inr (x, s')"
    using ann by (auto simp: announced_def)
  from mark obtain r where r: "identityRevision s1 = Some r" "0 < r + 1" and s': "s' = s1\<lparr>identityRevision := Some (r + 1),
      userNodeCache := fold (\<lambda>n. upsert_desired coll u n (current_session coll n (cacheSessions s1)) (r + 1))
        (dirty_targets coll u s1) (userNodeCache s1)\<rparr>"
    by (rule mark_dirty_result)
  have access: "\<forall>g \<in> set (nodeAccess s1). fst g < nextUserID s1"
    using inv touch by (auto simp: touches_def outbox_rows)
  have rows: "rows_within (nextUserID s1) (r + 1) (userNodeCache s1)"
  proof (rule rows_within_mono [of "nextUserID s" r])
    show "rows_within (nextUserID s) r (userNodeCache s1)"
      using inv touch r(1) by (auto simp: touches_def outbox_rows revision_of_def split: option.splits)
  qed (use touch in \<open>simp_all add: touches_def\<close>)
  have "rows_within (nextUserID s1) (r + 1) (userNodeCache s')"
    unfolding s' using dirty_targets_owner [OF _ access rows] r(2)
    by (auto intro!: fold_keeps [where Q = "rows_within (nextUserID s1) (r + 1)"] rows_within_upsert rows)
  then show ?thesis using access si by (simp add: outbox_rows s' revision_of_def)
qed

lemma sync_effect:
  assumes inv: "outbox_inv coll s" and ok: "caller_ok op s" and sync: "sync_op op" and s': "s' = store_exec coll t op s"
  shows "rows_within (nextUserID s') (revision_of s') (userNodeCache s')"
    and "users s' = users s \<and> accessTokens s' = accessTokens s \<and> userPolicies s' = userPolicies s \<and>
      portGrants s' = portGrants s \<and> dpiPolicies s' = dpiPolicies s \<and> nodeAccess s' = nodeAccess s \<and>
      nextUserID s' = nextUserID s"
proof -
  obtain r where r: "identityRevision s = Some r" "0 \<le> r"
    using inv by (auto simp: outbox_rows store_parts)
  have rows: "rows_within (nextUserID s) r (userNodeCache s)" using inv r by (simp add: outbox_rows revision_of_def)
  note rows = rows rows_within_mono [OF rows, of "nextUserID s" "r + 1", simplified]
  show "rows_within (nextUserID s') (revision_of s') (userNodeCache s')"
    using sync ok r rows unfolding s'
    by (cases op) (auto simp: sync_op_def caller_ok_def issued_def commit_def NextIdentityRevision_def
        ResetNodeIdentityCache_def PrepareNodeIdentityCache_def ConfirmNodeIdentityCache_def Let_def revision_of_def
        split: option.splits if_splits intro!: rows_within_delete rows_within_confirm
        fold_keeps [where Q = "rows_within (nextUserID s) r"] rows_within_upsert)
  show "users s' = users s \<and> accessTokens s' = accessTokens s \<and> userPolicies s' = userPolicies s \<and>
      portGrants s' = portGrants s \<and> dpiPolicies s' = dpiPolicies s \<and> nodeAccess s' = nodeAccess s \<and>
      nextUserID s' = nextUserID s"
    using sync unfolding s'
    by (cases op) (auto simp: sync_op_def commit_def NextIdentityRevision_def
        ResetNodeIdentityCache_def PrepareNodeIdentityCache_def ConfirmNodeIdentityCache_def Let_def
        split: option.splits if_splits)
qed

lemma outbox_inv_exec:
  assumes inv: "outbox_inv coll s" and ok: "caller_ok op s"
  shows "outbox_inv coll (store_exec coll t op s)"
proof -
  let ?s' = "store_exec coll t op s"
  have si: "store_inv coll ?s'" using inv ok store_inv_exec by (auto simp: outbox_inv_def)
  show ?thesis
  proof (cases "sync_op op")
    case True
    from sync_effect [OF inv ok this refl] inv si show ?thesis by (simp add: outbox_rows)
  next
    case False
    from op_effect [OF inv ok this] show ?thesis
    proof
      assume "quiet coll s ?s'"
      with inv si rows_within_mono [of "nextUserID s" "revision_of s" "userNodeCache s" "nextUserID ?s'" "revision_of s"]
      show ?thesis by (auto simp: quiet_def outbox_rows revision_of_def dest: less_le_trans)
    qed (use outbox_inv_announced inv si in blast)
  qed
qed

interpretation outbox: inductive_invariant store_init "store_step coll" "outbox_inv coll" for coll
proof
  show "outbox_inv coll s" if "store_init s" for s
    using that store_inv_init [of s coll] by (simp add: outbox_inv_def store_init_def)
  show "outbox_inv coll s'" if "outbox_inv coll s" "store_step coll s s'" for s s'
    using that outbox_inv_exec by (auto simp: store_step_def)
qed

section \<open>A change stays announced until the node has it\<close>

definition owes :: "collation \<Rightarrow> int \<Rightarrow> string \<Rightarrow> int \<Rightarrow> CacheRow \<Rightarrow> bool" where
  "owes coll u n r c \<longleftrightarrow> cache_key coll c = (u, coll n) \<and> cache_Applied c < r \<and> r \<le> cache_Desired c"

definition owed :: "collation \<Rightarrow> int \<Rightarrow> string \<Rightarrow> int \<Rightarrow> CacheRow list \<Rightarrow> bool" where
  "owed coll u n r rows \<longleftrightarrow> (\<exists>c \<in> set rows. owes coll u n r c)"

text \<open>
  The two calls that may settle what is owed to a node for revision \<open>r\<close>: the node starts a new
  session with an empty cache, or it confirms a revision from \<open>r\<close> on.
\<close>

definition acknowledges :: "collation \<Rightarrow> string \<Rightarrow> int \<Rightarrow> store_op \<Rightarrow> bool" where
  "acknowledges coll n r op =
     (case op of SO_ResetNodeIdentityCache m _ _ \<Rightarrow> coll m = coll n
      | SO_ConfirmNodeIdentityCache m _ confirmed _ _ _ \<Rightarrow> coll m = coll n \<and> r \<le> confirmed
      | _ \<Rightarrow> False)"

definition unacknowledged_step :: "collation \<Rightarrow> string \<Rightarrow> int \<Rightarrow> Store \<Rightarrow> Store \<Rightarrow> bool" where
  "unacknowledged_step coll n r s s' \<longleftrightarrow>
     (\<exists>t op. caller_ok op s \<and> \<not> acknowledges coll n r op \<and> s' = store_exec coll t op s)"

lemma owed_update:
  "owed coll u n r rows \<Longrightarrow> (\<And>c. P c \<Longrightarrow> owes coll u n r c \<Longrightarrow> owes coll u n r (f c)) \<Longrightarrow>
     owed coll u n r (update_where P f rows)"
proof -
  assume "owed coll u n r rows" and f: "\<And>c. P c \<Longrightarrow> owes coll u n r c \<Longrightarrow> owes coll u n r (f c)"
  then obtain c where c: "c \<in> set rows" "owes coll u n r c" by (auto simp: owed_def)
  then have "(if P c then f c else c) \<in> set (update_where P f rows)"
    unfolding update_where_def set_map by (intro image_eqI) simp_all
  moreover have "owes coll u n r (if P c then f c else c)" using c(2) f by simp
  ultimately show ?thesis unfolding owed_def by blast
qed

lemma owed_delete:
  "owed coll u n r rows \<Longrightarrow> (\<And>c. P c \<Longrightarrow> \<not> owes coll u n r c) \<Longrightarrow> owed coll u n r (delete_where P rows)"
  by (auto simp: owed_def delete_where_def)

lemma owed_upsert: "owed coll u n r rows \<Longrightarrow> owed coll u n r (upsert_desired coll v m sid q rows)"
  unfolding upsert_desired_def Let_def
  by (auto intro!: owed_update simp: owes_def cache_key_def) (auto simp: owed_def)

lemma owed_confirm:
  assumes "owed coll u n r rows" "coll m \<noteq> coll n \<or> q < r"
  shows "owed coll u n r (confirm_user coll t m sid q v rows)" "owed coll u n r (confirm_removed coll m sid q v rows)"
    "owed coll u n r (confirm_full coll m sid q rows)"
  using assms unfolding confirm_user_def confirm_removed_def confirm_full_def Let_def
  by (auto intro!: owed_delete owed_update simp: owes_def cache_key_def cache_row_of_def)

lemma owed_mark:
  "markUserIdentityDirtyTx coll v s = Inr (x, s') \<Longrightarrow> owed coll u n r (userNodeCache s) \<Longrightarrow>
     owed coll u n r (userNodeCache s')"
  by (erule mark_dirty_result) (auto intro: fold_keeps [where Q = "owed coll u n r"] owed_upsert)

lemma owed_step:
  assumes inv: "outbox_inv coll s" and owed: "owed coll u n r (userNodeCache s)"
    and ok: "caller_ok op s" and unack: "\<not> acknowledges coll n r op"
  shows "owed coll u n r (userNodeCache (store_exec coll t op s))"
proof (cases "sync_op op")
  case True
  with owed unack show ?thesis
    by (cases op) (auto simp: sync_op_def acknowledges_def commit_def NextIdentityRevision_def
        ResetNodeIdentityCache_def PrepareNodeIdentityCache_def ConfirmNodeIdentityCache_def Let_def
        split: option.splits if_splits intro!: owed_delete owed_confirm
        fold_keeps [where Q = "owed coll u n r"] owed_upsert simp: owes_def cache_key_def)
next
  case False
  from op_effect [OF inv ok False, of t] owed show ?thesis
    by (auto simp: quiet_def announced_def touches_def dest: owed_mark)
qed

lemma owed_steps:
  assumes "steps (unacknowledged_step coll n r) s s'" "outbox_inv coll s" "owed coll u n r (userNodeCache s)"
  shows "outbox_inv coll s' \<and> owed coll u n r (userNodeCache s')"
  using assms
  by (induction rule: steps.induct) (auto simp: unacknowledged_step_def intro: outbox_inv_exec owed_step)

text \<open>What is owed is among the first users \<open>PendingNodeIdentityUsers\<close> lists, or behind a full batch.\<close>

lemma owed_pending:
  assumes inv: "outbox_inv coll s" and owed: "owed coll u n r (userNodeCache s)"
    and sid: "sid = current_session coll n (cacheSessions s)"
  shows "u \<in> set (PendingNodeIdentityUsers coll n sid s) \<or> length (PendingNodeIdentityUsers coll n sid s) = 64"
proof -
  let ?P = "\<lambda>c. coll (cache_NodeID c) = coll n \<and> coll (cache_SessionID c) = coll sid \<and> cache_Applied c < cache_Desired c"
  let ?all = "map cache_UserID (filter ?P (userNodeCache s))"
  obtain c where c: "c \<in> set (userNodeCache s)" "owes coll u n r c" using owed by (auto simp: owed_def)
  then have "cache_SessionID c = current_session coll (cache_NodeID c) (cacheSessions s)"
    using inv by (simp add: outbox_rows store_parts)
  also have "\<dots> = sid"
    using c(2) session_of_coll [of coll "cache_NodeID c" n] by (simp add: sid current_session_def owes_def cache_key_def)
  finally have u: "u \<in> set ?all" using c by (auto simp: owes_def cache_key_def image_iff intro!: bexI [of _ c])
  have p: "PendingNodeIdentityUsers coll n sid s = take 64 (sort ?all)" by (simp add: PendingNodeIdentityUsers_def)
  show ?thesis
  proof (cases "length ?all \<le> 64")
    case True
    then have "PendingNodeIdentityUsers coll n sid s = sort ?all" unfolding p by simp
    then show ?thesis using u by simp
  qed (simp add: p)
qed

lemma identity_change_owed:
  assumes inv: "outbox_inv coll s" and ok: "caller_ok op s" and s': "s' = store_exec coll t op s"
    and changed: "identity_at coll n u s' \<noteq> identity_at coll n u s" and reg: "registered coll n s"
    and known: "cache_row coll u n s \<noteq> None \<or> CanAccessNode coll u n s'"
  shows "revision_of s < revision_of s'" and "owed coll u n (revision_of s') (userNodeCache s')"
proof -
  have no_sync: "\<not> sync_op op" using sync_effect(2) [OF inv ok _ s'] changed identity_at_same [of s' s] by metis
  have "\<not> quiet coll s s'" using changed by (auto simp: quiet_def)
  with op_effect [OF inv ok no_sync, of t] s' obtain v x s1 where touch: "touches coll v s s1"
    and mark: "markUserIdentityDirtyTx coll v s1 = Inr (x, s')" by (auto simp: announced_def)
  have rev: "revision_of s1 = revision_of s" using touch by (simp add: touches_def revision_of_def)
  have bound: "cache_Desired c \<le> revision_of s1 \<and> cache_Applied c \<le> revision_of s1"
    if "c \<in> set (userNodeCache s1)" for c
    using inv that touch rev by (simp add: touches_def outbox_inv_def)
  note eff = mark_dirty_effect [OF mark, OF bound [THEN conjunct1]]
  have v: "v = u" using changed eff(2) touch unfolding touches_def by metis
  have "registered coll n s1" "cache_row coll u n s1 = cache_row coll u n s" "CanAccessNode coll u n s1 = CanAccessNode coll u n s'"
    using reg touch eff(5) by (simp_all add: registered_def touches_def cache_row_def CanAccessNode_def)
  with known v eff(3) [of n] obtain c where c: "cache_row coll u n s' = Some c" "cache_Desired c = revision_of s'"
    "cache_Applied c = 0 \<or> (\<exists>d. cache_row coll u n s = Some d \<and> cache_Applied c = cache_Applied d)"
    by auto
  show rs: "revision_of s < revision_of s'" using eff(1) rev by simp
  have "0 \<le> revision_of s" using inv by (auto simp: outbox_rows store_parts revision_of_def)
  moreover have "cache_Applied d \<le> revision_of s" if "cache_row coll u n s = Some d" for d
    using that inv by (auto simp: cache_row_def outbox_inv_def dest!: find_Some_iff')
  ultimately have "cache_Applied c < revision_of s'" using c(3) rs by auto
  then show "owed coll u n (revision_of s') (userNodeCache s')"
    using c(1,2) by (auto simp: owed_def owes_def cache_row_def dest!: find_Some_iff')
qed

section \<open>No change of an identity is lost\<close>

text \<open>
  C24. Whatever operation changes what a registered node should know about a user, the change is
  committed together with a new revision for that user and node, provided the node has a row for
  the user or may serve the user from now on. From then on, through any sequence of operations in
  which the node neither starts a new session nor confirms that revision or a later one, the user
  is among the pending users of the node, unless a full batch of users with smaller identifiers is
  pending before it.
\<close>

theorem identity_change_never_lost:
  assumes "reach store_init (store_step coll) s" and "caller_ok op s" and "s' = store_exec coll t op s"
    and "identity_at coll n u s' \<noteq> identity_at coll n u s" and "registered coll n s"
    and "cache_row coll u n s \<noteq> None \<or> CanAccessNode coll u n s'"
    and "steps (unacknowledged_step coll n (revision_of s')) s' s''"
  shows "revision_of s < revision_of s' \<and>
         (u \<in> set (PendingNodeIdentityUsers coll n (current_session coll n (cacheSessions s'')) s'') \<or>
         length (PendingNodeIdentityUsers coll n (current_session coll n (cacheSessions s'')) s'') = 64)"
proof
  have inv: "outbox_inv coll s" by (rule outbox.reach_inv [OF assms(1)])
  note change = identity_change_owed [OF inv assms(2-6)]
  show "revision_of s < revision_of s'" by (rule change(1))
  have "outbox_inv coll s'" using outbox_inv_exec [OF inv assms(2)] assms(3) by simp
  from owed_steps [OF assms(7) this change(2)] owed_pending
  show "u \<in> set (PendingNodeIdentityUsers coll n (current_session coll n (cacheSessions s'')) s'') \<or>
      length (PendingNodeIdentityUsers coll n (current_session coll n (cacheSessions s'')) s'') = 64" by blast
qed

definition witness_store :: Store where
  "witness_store = store_exec (\<lambda>x. x) 0 (SO_CreateUser ''ann'' ''Ann'' ''h'' []) (empty_store [''n1''])"

theorem identity_change_never_lost_witness:
  "revision_of witness_store < revision_of (store_exec (\<lambda>x. x) 0 (SO_SaveUserNodeAccess 1 [''n1'']) witness_store) \<and>
   PendingNodeIdentityUsers (\<lambda>x. x) ''n1'' [] (store_exec (\<lambda>x. x) 0 (SO_SaveUserNodeAccess 1 [''n1'']) witness_store) = [1]"
proof -
  let ?s' = "store_exec (\<lambda>x. x) 0 (SO_SaveUserNodeAccess 1 [''n1'']) witness_store"
  note eval = witness_store_def empty_store_def commit_def CreateUser_def insert_user_def then_get_def
    GetUserByID_def query_row_def SaveUserNodeAccess_def insert_access_def delete_where_def update_where_def
    markUserIdentityDirtyTx_def NextIdentityRevision_def dirty_targets_def upsert_desired_def session_of_def
  have reached: "reach store_init (store_step (\<lambda>x. x)) witness_store"
    unfolding witness_store_def
    by (rule reach_exec [OF reach_empty]) (simp add: caller_ok_def)
  have "caller_ok (SO_SaveUserNodeAccess 1 [''n1'']) witness_store" "registered (\<lambda>x. x) ''n1'' witness_store"
    "CanAccessNode (\<lambda>x. x) 1 ''n1'' ?s'" "\<not> CanAccessNode (\<lambda>x. x) 1 ''n1'' witness_store"
    "1 \<in> user_ID ` set (users ?s')" "users ?s' \<noteq> []" "user_ID (hd (users ?s')) = 1" "cacheSessions ?s' = []"
    by (simp_all add: eval caller_ok_def registered_def CanAccessNode_def count_where_def)
  moreover from this have "identity_at (\<lambda>x. x) ''n1'' 1 ?s' \<noteq> identity_at (\<lambda>x. x) ''n1'' 1 witness_store"
    by (cases "users ?s'") (auto simp: identity_at_def identity_data_def no_identity_def)
  ultimately have "revision_of witness_store < revision_of ?s'"
    using identity_change_never_lost [where op = "SO_SaveUserNodeAccess 1 [''n1'']" and t = 0 and n = "''n1''"
        and u = 1, OF reached _ refl _ _ _ steps_refl] by blast
  moreover have "PendingNodeIdentityUsers (\<lambda>x. x) ''n1'' [] ?s' = [1]"
    by (simp add: eval PendingNodeIdentityUsers_def)
  ultimately show ?thesis by blast
qed

end
