(* ===== verification/Go_Time.thy ===== *)
theory Go_Time
  imports Go_Strings
begin

text \<open>
  \<open>time.Duration.String\<close> and \<open>time.ParseDuration\<close>, as the configuration file stores its
  lifetimes. The product of a decimal fraction with its unit is a \<open>float64\<close> expression in Go; it is
  the parameter \<open>frac\<close> (fraction digits, unit, number of digits), which no value printed with whole
  seconds reaches.
\<close>

section \<open>Printing\<close>

text \<open>\<open>fmtFrac\<close>: the digits after the point from the last one, without trailing zeros.\<close>

fun fmtFrac :: "nat \<Rightarrow> nat \<Rightarrow> bool \<Rightarrow> string \<Rightarrow> string \<times> nat" where
  "fmtFrac 0 v print acc = (if print then CHR ''.'' # acc else acc, v)"
| "fmtFrac (Suc i) v print acc =
     (let p = (print \<or> v mod 10 \<noteq> 0)
      in fmtFrac i (v div 10) p (if p then digit_char (v mod 10) # acc else acc))"

definition format_small :: "nat \<Rightarrow> string" where
  "format_small u =
     (if u = 0 then ''0s''
      else if u < 1000 then nat_digits u @ ''ns''
      else if u < 1000000 then
        (let (f, v) = fmtFrac 3 u False [] in nat_digits v @ f @ [CHR 0xC2, CHR 0xB5] @ ''s'')
      else (let (f, v) = fmtFrac 6 u False [] in nat_digits v @ f @ ''ms''))"

definition format_large :: "nat \<Rightarrow> string" where
  "format_large u =
     (let (f, secs) = fmtFrac 9 u False [];
          tail = nat_digits (secs mod 60) @ f @ ''s'';
          mins = secs div 60;
          hours = mins div 60
      in if mins = 0 then tail
         else if hours = 0 then nat_digits (mins mod 60) @ ''m'' @ tail
         else nat_digits hours @ ''h'' @ nat_digits (mins mod 60) @ ''m'' @ tail)"

definition duration_String :: "duration \<Rightarrow> string" where
  "duration_String d =
     (let u = nat \<bar>d\<bar>;
          body = (if int u < second then format_small u else format_large u)
      in if d < 0 then CHR ''-'' # body else body)"

section \<open>Parsing\<close>

fun leadingInt :: "string \<Rightarrow> nat \<Rightarrow> (nat \<times> string) option" where
  "leadingInt [] x = Some (x, [])"
| "leadingInt (c # cs) x =
     (if \<not> is_digit c then Some (x, c # cs)
      else if 2 ^ 63 div 10 < x then None
      else if 2 ^ 63 < 10 * x + digit_value c then None
      else leadingInt cs (10 * x + digit_value c))"

text \<open>The digits after the point: value, number of digits that count, rest.\<close>

fun leadingFraction :: "string \<Rightarrow> nat \<Rightarrow> nat \<Rightarrow> bool \<Rightarrow> nat \<times> nat \<times> string" where
  "leadingFraction [] x k overflow = (x, k, [])"
| "leadingFraction (c # cs) x k overflow =
     (if \<not> is_digit c then (x, k, c # cs)
      else if overflow then leadingFraction cs x k True
      else if (2 ^ 63 - 1) div 10 < x \<or> 2 ^ 63 < 10 * x + digit_value c then leadingFraction cs x k True
      else leadingFraction cs (10 * x + digit_value c) (k + 1) False)"

definition unitMap :: "string \<Rightarrow> nat option" where
  "unitMap u = map_of [(''ns'', 1), (''us'', 1000), ([CHR 0xC2, CHR 0xB5] @ ''s'', 1000),
     ([CHR 0xCE, CHR 0xBC] @ ''s'', 1000), (''ms'', 1000000), (''s'', 1000000000),
     (''m'', 60000000000), (''h'', 3600000000000)] u"

definition unit_byte :: "char \<Rightarrow> bool" where
  "unit_byte c \<longleftrightarrow> c \<noteq> CHR ''.'' \<and> \<not> is_digit c"

lemma leadingInt_shorter: "leadingInt s x = Some (v, r) \<Longrightarrow> length r \<le> length s"
  by (induction s arbitrary: x) (auto split: if_splits intro: le_SucI)

lemma leadingFraction_shorter: "leadingFraction s x k b = (f, j, r) \<Longrightarrow> length r \<le> length s"
  by (induction s arbitrary: x k b) (auto split: if_splits intro: le_SucI)

text \<open>One round of the loop: the value of a number with its unit in nanoseconds, and the rest.\<close>

definition parse_unit :: "(nat \<Rightarrow> nat \<Rightarrow> nat \<Rightarrow> nat) \<Rightarrow> string \<Rightarrow> (nat \<times> string) option" where
  "parse_unit frac s =
     (if \<not> (hd s = CHR ''.'' \<or> is_digit (hd s)) then None
      else case leadingInt s 0 of
             None \<Rightarrow> None
           | Some (v, s1) \<Rightarrow>
               (let dot = (s1 \<noteq> [] \<and> hd s1 = CHR ''.'');
                    (f, k, s2) = (if dot then leadingFraction (tl s1) 0 0 False else (0, 0, s1));
                    pre = (length s1 \<noteq> length s);
                    post = (dot \<and> length s2 \<noteq> length (tl s1));
                    u = takeWhile unit_byte s2
                in if \<not> pre \<and> \<not> post then None
                   else if u = [] then None
                   else case unitMap u of
                          None \<Rightarrow> None
                        | Some unit \<Rightarrow>
                            if 2 ^ 63 div unit < v then None
                            else (let w = v * unit + (if 0 < f then frac f unit k else 0)
                                  in if 0 < f \<and> 2 ^ 63 < w then None else Some (w, dropWhile unit_byte s2))))"

lemma parse_unit_shorter: "parse_unit frac s = Some (w, r) \<Longrightarrow> length r < length s"
proof -
  assume run: "parse_unit frac s = Some (w, r)"
  have drop: "length (dropWhile unit_byte t) < length t" if "takeWhile unit_byte t \<noteq> []" for t
  proof -
    have "length (takeWhile unit_byte t) + length (dropWhile unit_byte t) = length t"
      by (metis length_append takeWhile_dropWhile_id)
    with that show ?thesis by (cases "takeWhile unit_byte t") auto
  qed
  obtain v s1 where s1: "leadingInt s 0 = Some (v, s1)"
    using run by (auto simp: parse_unit_def split: if_splits option.splits)
  obtain s2 where s2: "takeWhile unit_byte s2 \<noteq> []" "r = dropWhile unit_byte s2" "length s2 \<le> length s1"
    using run s1 leadingFraction_shorter [of "tl s1" 0 0 False]
    by (auto simp: parse_unit_def Let_def split: if_splits option.splits prod.splits)
  then show ?thesis using drop [of s2] leadingInt_shorter [OF s1] by simp
qed

text \<open>The sum is a \<open>uint64\<close> and wraps before it is compared.\<close>

function parse_units :: "(nat \<Rightarrow> nat \<Rightarrow> nat \<Rightarrow> nat) \<Rightarrow> string \<Rightarrow> nat \<Rightarrow> nat option" where
  "parse_units frac s d =
     (if s = [] then Some d
      else case parse_unit frac s of
             None \<Rightarrow> None
           | Some (w, r) \<Rightarrow>
               if 2 ^ 63 < (d + w) mod 2 ^ 64 then None else parse_units frac r ((d + w) mod 2 ^ 64))"
  by auto
termination
  by (relation "measure (\<lambda>(frac, s, d). length s)") (auto dest: parse_unit_shorter)

declare parse_units.simps [simp del]

definition ParseDuration :: "(nat \<Rightarrow> nat \<Rightarrow> nat \<Rightarrow> nat) \<Rightarrow> string \<Rightarrow> duration option" where
  "ParseDuration frac value =
     (let neg = (value \<noteq> [] \<and> hd value = CHR ''-'');
          s = (if value \<noteq> [] \<and> (hd value = CHR ''-'' \<or> hd value = CHR ''+'') then tl value else value)
      in if s = ''0'' then Some 0
         else if s = [] then None
         else case parse_units frac s 0 of
                None \<Rightarrow> None
              | Some d \<Rightarrow> if neg then Some (- int d) else if 2 ^ 63 - 1 < d then None else Some (int d))"

section \<open>Whole seconds survive\<close>

lemma foldl_digits_mono: "x \<le> foldl (\<lambda>n c. 10 * n + digit_value c) x xs"
proof (induction xs arbitrary: x)
  case (Cons c xs)
  have "x \<le> 10 * x + digit_value c" by simp
  then show ?case using Cons.IH [of "10 * x + digit_value c"] by simp
qed simp

lemma leadingInt_append:
  assumes "list_all is_digit xs" "foldl (\<lambda>n c. 10 * n + digit_value c) x xs \<le> 2 ^ 63"
  shows "leadingInt (xs @ ys) x = leadingInt ys (foldl (\<lambda>n c. 10 * n + digit_value c) x xs)"
  using assms
proof (induction xs arbitrary: x)
  case (Cons c xs)
  have "10 * x + digit_value c \<le> 2 ^ 63"
    using foldl_digits_mono [of "10 * x + digit_value c" xs] Cons.prems(2) by simp
  then show ?case using Cons by simp
qed simp

lemma leadingInt_digits:
  "n \<le> 2 ^ 63 \<Longrightarrow> ys = [] \<or> \<not> is_digit (hd ys) \<Longrightarrow> leadingInt (nat_digits n @ ys) 0 = Some (n, ys)"
  using leadingInt_append [of "nat_digits n" 0 ys] nat_digits_digits [of n] digits_value_nat_digits [of n]
  by (cases ys) (auto simp: digits_value_def)

lemma takeWhile_unit:
  "list_all unit_byte u \<Longrightarrow> ys = [] \<or> is_digit (hd ys) \<Longrightarrow>
     takeWhile unit_byte (u @ ys) = u \<and> dropWhile unit_byte (u @ ys) = ys"
  by (cases ys) (auto simp: unit_byte_def list_all_iff takeWhile_append2 dropWhile_append2 intro!: takeWhile_tail)

lemma parse_unit_digits:
  assumes n: "n \<le> 2 ^ 63 div unit" "unitMap u = Some unit" "list_all unit_byte u" "u \<noteq> []"
    and ys: "ys = [] \<or> is_digit (hd ys)" and unit: "0 < unit"
  shows "parse_unit frac (nat_digits n @ u @ ys) = Some (n * unit, ys)"
proof -
  have "n \<le> 2 ^ 63" using n(1) div_le_dividend le_trans by blast
  moreover have hd: "\<not> is_digit (hd (u @ ys))" "hd (u @ ys) \<noteq> CHR ''.''"
    using n(3,4) by (cases u; simp add: unit_byte_def)+
  ultimately have int: "leadingInt (nat_digits n @ u @ ys) 0 = Some (n, u @ ys)"
    using leadingInt_digits [of n "u @ ys"] by simp
  have first: "is_digit (hd (nat_digits n @ u @ ys))"
    using nat_digits_hd [of n] by (simp add: hd_append)
  have len: "length (u @ ys) \<noteq> length (nat_digits n @ u @ ys)" by simp
  from int first len hd(2) takeWhile_unit [OF n(3) ys] n show ?thesis
    by (simp add: parse_unit_def Let_def)
qed

lemma fmtFrac_whole: "fmtFrac n (k * 10 ^ n) False [] = ([], k)"
proof (induction n arbitrary: k)
  case (Suc n)
  have "k * 10 ^ Suc n mod 10 = 0" "k * 10 ^ Suc n div 10 = k * 10 ^ n" by simp_all
  with Suc show ?case by (simp add: Let_def)
qed simp

text \<open>A whole number of seconds is printed as hours, minutes and seconds.\<close>

lemma format_large_whole:
  "format_large (k * 1000000000) =
     (let tail = nat_digits (k mod 60) @ ''s''; mins = k div 60; hours = mins div 60
      in if mins = 0 then tail
         else if hours = 0 then nat_digits (mins mod 60) @ ''m'' @ tail
         else nat_digits hours @ ''h'' @ nat_digits (mins mod 60) @ ''m'' @ tail)"
proof -
  have "fmtFrac 9 (k * 1000000000) False [] = ([], k)" using fmtFrac_whole [of 9 k] by simp
  then show ?thesis by (simp add: format_large_def Let_def)
qed

lemma parse_units_Nil: "parse_units frac [] d = Some d"
  by (simp add: parse_units.simps)

lemma parse_units_step:
  assumes "n \<le> 2 ^ 63 div unit" "unitMap u = Some unit" "list_all unit_byte u" "u \<noteq> []"
    "ys = [] \<or> is_digit (hd ys)" "0 < unit" "d + n * unit \<le> 2 ^ 63"
  shows "parse_units frac (nat_digits n @ u @ ys) d = parse_units frac ys (d + n * unit)"
proof -
  have "(d + n * unit) mod 2 ^ 64 = d + n * unit" using assms(7) by simp
  then show ?thesis
    using parse_unit_digits [OF assms(1-6), of frac] assms(7) by (subst parse_units.simps) simp
qed

lemmas time_units = unitMap_def unit_byte_def is_digit_def byte_val_def

lemma parse_seconds: "d + n * 1000000000 \<le> 2 ^ 63 \<Longrightarrow>
    parse_units frac (nat_digits n @ ''s'') d = Some (d + n * 1000000000)"
  using parse_units_step [of n 1000000000 "''s''" "[]" d frac] by (simp add: time_units parse_units_Nil)

lemma parse_minutes: "d + n * 60000000000 \<le> 2 ^ 63 \<Longrightarrow> ys \<noteq> [] \<Longrightarrow> is_digit (hd ys) \<Longrightarrow>
    parse_units frac (nat_digits n @ ''m'' @ ys) d = parse_units frac ys (d + n * 60000000000)"
  using parse_units_step [of n 60000000000 "''m''" ys d frac] by (simp add: time_units)

lemma parse_hours: "d + n * 3600000000000 \<le> 2 ^ 63 \<Longrightarrow> ys \<noteq> [] \<Longrightarrow> is_digit (hd ys) \<Longrightarrow>
    parse_units frac (nat_digits n @ ''h'' @ ys) d = parse_units frac ys (d + n * 3600000000000)"
  using parse_units_step [of n 3600000000000 "''h''" ys d frac] by (simp add: time_units)

lemma parse_format_large:
  assumes "k * 1000000000 \<le> 2 ^ 63"
  shows "parse_units frac (format_large (k * 1000000000)) 0 = Some (k * 1000000000)"
proof -
  obtain h m t where k: "k = h * 3600 + m * 60 + t" and small: "m < 60" "t < 60"
    and parts: "k div 60 div 60 = h" "k div 60 mod 60 = m" "k mod 60 = t" "k div 60 = h * 60 + m"
  proof (rule that [of "k div 60 div 60" "k div 60 mod 60" "k mod 60"])
    have "k div 60 = k div 60 div 60 * 60 + k div 60 mod 60" "k = k div 60 * 60 + k mod 60"
      by (simp_all only: div_mult_mod_eq)
    then show "k = k div 60 div 60 * 3600 + k div 60 mod 60 * 60 + k mod 60"
      "k div 60 = k div 60 div 60 * 60 + k div 60 mod 60" by linarith+
  qed simp_all
  have ns: "k * 1000000000 = h * 3600000000000 + m * 60000000000 + t * 1000000000"
    unfolding k by (simp add: algebra_simps)
  have bounds: "h * 3600000000000 + m * 60000000000 + t * 1000000000 \<le> 2 ^ 63" using assms unfolding ns .
  note parse = parse_hours [of 0 h] parse_minutes [of "h * 3600000000000" m] parse_minutes [of 0 m]
    parse_seconds [of "h * 3600000000000 + m * 60000000000" t] parse_seconds [of "m * 60000000000" t]
    parse_seconds [of 0 t]
  show ?thesis
    unfolding format_large_whole Let_def parts unfolding ns
    using bounds parse by (cases "h = 0"; cases "m = 0") (simp_all add: nat_digits_hd small)
qed

lemma nat_digits_zero: "nat_digits 0 = ''0''"
  by code_simp

text \<open>Printing and parsing a whole number of seconds.\<close>

lemma ParseDuration_String:
  assumes "0 \<le> k" "k * second < 2 ^ 63"
  shows "ParseDuration frac (duration_String (k * second)) = Some (k * second)"
proof (cases "k = 0")
  case True
  have "parse_units frac ''0s'' 0 = Some 0" using parse_seconds [of 0 0 frac] by (simp add: nat_digits_zero)
  then show ?thesis using True by (simp add: duration_String_def format_small_def ParseDuration_def second_def)
next
  case False
  define n where "n = nat k"
  have k: "k = int n" "0 < n" using assms False by (simp_all add: n_def)
  have str: "duration_String (k * second) = format_large (n * 1000000000)"
    using k by (simp add: duration_String_def second_def nat_mult_distrib)
  have le: "n * 1000000000 < 2 ^ 63"
  proof -
    have "int (n * 1000000000) < int (2 ^ 63)" using assms(2) k by (simp add: second_def)
    then show ?thesis by (simp only: of_nat_less_iff)
  qed
  have digit: "is_digit (hd (format_large (n * 1000000000)))" and ne: "format_large (n * 1000000000) \<noteq> []"
    by (auto simp: format_large_whole Let_def nat_digits_hd)
  have zero: "format_large (n * 1000000000) \<noteq> ''0''"
    by (auto simp: format_large_whole Let_def append_eq_Cons_conv)
  from digit have "hd (format_large (n * 1000000000)) \<noteq> CHR ''-''" "hd (format_large (n * 1000000000)) \<noteq> CHR ''+''"
    using digit_not_minus digit_not_plus by blast+
  then show ?thesis
    unfolding str ParseDuration_def Let_def
    using ne zero parse_format_large [of n frac] le k by (simp add: second_def)
qed

end
