(* ===== verification/Config.thy ===== *)
theory Config
  imports Go_Time
begin

text \<open>
  \<open>internal/config\<close>: the configuration of a process, its file form, the defaults, the merge of
  file and environment, and the validation. The environment is a function from variable names to
  values (empty when unset); the file is given decoded, or absent, or unreadable. Reading and
  writing the file itself is not modelled.
\<close>

section \<open>Data\<close>

definition ModeController :: string where "ModeController = ''controller''"
definition ModeEdge :: string where "ModeEdge = ''edge''"
definition ConfigurationAutomatic :: string where "ConfigurationAutomatic = ''automatic''"
definition ConfigurationManual :: string where "ConfigurationManual = ''manual''"

record ConnectionTuning =
  DisableTCPMux :: bool
  TCPMuxKeepaliveSeconds :: int
  TCPKeepaliveSeconds :: int
  MaxPoolCount :: int
  HeartbeatTimeoutSeconds :: int
  UserConnectionTimeoutSeconds :: int
  MTLSHandshakeTimeoutSeconds :: int
  DisableMTLSSessionTickets :: bool
  EnableMTLSSessionResumption :: bool

record NodeRuntimeConfig =
  node_Tag :: string
  node_PublicAPIURL :: string
  node_FRPAdvertiseAddr :: string
  node_FRPBindPort :: int
  node_PortRangeStart :: int
  node_PortRangeEnd :: int
  node_Selectable :: bool

record TLSFiles =
  tls_CAFile :: string
  tls_CertFile :: string
  tls_KeyFile :: string
  tls_CACertificateBase64 :: string
  tls_CAPrivateKeyBase64 :: string
  tls_CertificateBase64 :: string
  tls_PrivateKeyBase64 :: string

record ControllerConfig =
  ctl_EdgeAccessEnabled :: bool
  ctl_ListenAddr :: string
  ctl_PublicAddress :: string
  ctl_TLS :: TLSFiles
  ctl_CAKeyFile :: string
  ctl_HeartbeatIntervalSeconds :: int

record EdgeReportingConfig =
  rep_ClientPresence :: bool
  rep_Connections :: bool
  rep_TrafficStatistics :: bool
  rep_DPIEvents :: bool
  rep_RuntimeLogs :: bool

record EdgeRemoteCommandsConfig =
  rcmd_DisconnectClient :: bool
  rcmd_DisconnectConnection :: bool
  rcmd_BlockIP :: bool
  rcmd_ChangeRuntimeSettings :: bool

record EdgeConfig =
  edge_NodeID :: string
  edge_NodeName :: string
  edge_ControllerAddr :: string
  edge_ControllerAPIAddr :: string
  edge_ServerName :: string
  edge_TLS :: TLSFiles
  edge_StatePath :: string
  edge_ControllerAdministrationEnabled :: bool
  edge_Reporting :: EdgeReportingConfig
  edge_RemoteCommands :: EdgeRemoteCommandsConfig

record InitialAdminConfig =
  ia_Username :: string
  ia_DisplayName :: string
  ia_PasswordHash :: string

record Config =
  cfg_ConfigPath :: string
  cfg_ConfigVersion :: int
  cfg_ConfigurationMode :: string
  cfg_ConnectionTuning :: ConnectionTuning
  cfg_Mode :: string
  cfg_ConfigState :: string
  cfg_ConfigError :: string
  cfg_HTTPAddr :: string
  cfg_MySQLDSN :: string
  cfg_CookieSecret :: string
  cfg_SessionTTL :: duration
  cfg_RuntimeTokenTTL :: duration
  cfg_UDPConnectionTTL :: duration
  cfg_EmbeddedFRPEnabled :: bool
  cfg_FRPBindAddr :: string
  cfg_FRPProxyBindAddr :: string
  cfg_FRPServerAddr :: string
  cfg_FRPServerPort :: int
  cfg_FRPTransportTLS :: bool
  cfg_ClientConfigComment :: string
  cfg_InitialAdmin :: InitialAdminConfig
  cfg_Controller :: ControllerConfig
  cfg_Edge :: EdgeConfig
  cfg_Node :: NodeRuntimeConfig
  cfg_Initialized :: bool

record FileConfig =
  fc_ConfigVersion :: int
  fc_ConfigurationMode :: string
  fc_ConnectionTuning :: ConnectionTuning
  fc_Mode :: string
  fc_MySQLDSN :: string
  fc_CookieSecret :: string
  fc_SessionTTL :: string
  fc_RuntimeTokenTTL :: string
  fc_UDPConnectionTTL :: string
  fc_EmbeddedFRPEnabled :: "bool option"
  fc_FRPBindAddr :: string
  fc_FRPProxyBindAddr :: string
  fc_FRPServerAddr :: string
  fc_FRPServerPort :: int
  fc_FRPTransportTLS :: bool
  fc_ClientConfigComment :: string
  fc_InitialAdmin :: InitialAdminConfig
  fc_Controller :: ControllerConfig
  fc_Edge :: EdgeConfig
  fc_Node :: NodeRuntimeConfig
  fc_Initialized :: bool
  fc_CreatedAt :: go_time

datatype file_result = FileMissing | FileUnreadable string | FileRead FileConfig

definition empty_TLSFiles :: TLSFiles where
  "empty_TLSFiles = \<lparr>tls_CAFile = [], tls_CertFile = [], tls_KeyFile = [], tls_CACertificateBase64 = [],
     tls_CAPrivateKeyBase64 = [], tls_CertificateBase64 = [], tls_PrivateKeyBase64 = []\<rparr>"

definition zero_ConnectionTuning :: ConnectionTuning where
  "zero_ConnectionTuning = \<lparr>DisableTCPMux = False, TCPMuxKeepaliveSeconds = 0, TCPKeepaliveSeconds = 0,
     MaxPoolCount = 0, HeartbeatTimeoutSeconds = 0, UserConnectionTimeoutSeconds = 0,
     MTLSHandshakeTimeoutSeconds = 0, DisableMTLSSessionTickets = False, EnableMTLSSessionResumption = False\<rparr>"

section \<open>The environment\<close>

type_synonym environment = "string \<Rightarrow> string"
type_synonym frac_rule = "nat \<Rightarrow> nat \<Rightarrow> nat \<Rightarrow> nat"

definition env :: "environment \<Rightarrow> string \<Rightarrow> string \<Rightarrow> string" where
  "env getenv key fallback = (if getenv key \<noteq> [] then getenv key else fallback)"

definition envInt :: "environment \<Rightarrow> string \<Rightarrow> int \<Rightarrow> int" where
  "envInt getenv key fallback =
     (if getenv key = [] then fallback
      else case Atoi (getenv key) of (parsed, ok) \<Rightarrow> if ok then parsed else fallback)"

definition ParseBool :: "string \<Rightarrow> bool option" where
  "ParseBool s =
     (if s \<in> {''1'', ''t'', ''T'', ''true'', ''TRUE'', ''True''} then Some True
      else if s \<in> {''0'', ''f'', ''F'', ''false'', ''FALSE'', ''False''} then Some False
      else None)"

definition envBool :: "environment \<Rightarrow> string \<Rightarrow> bool \<Rightarrow> bool" where
  "envBool getenv key fallback =
     (if getenv key = [] then fallback
      else case ParseBool (getenv key) of None \<Rightarrow> fallback | Some b \<Rightarrow> b)"

definition parseDuration :: "frac_rule \<Rightarrow> string \<Rightarrow> duration \<Rightarrow> duration" where
  "parseDuration frac s fallback = (case ParseDuration frac s of None \<Rightarrow> fallback | Some d \<Rightarrow> d)"

definition envDuration :: "frac_rule \<Rightarrow> environment \<Rightarrow> string \<Rightarrow> duration \<Rightarrow> duration" where
  "envDuration frac getenv key fallback =
     (if getenv key = [] then fallback else parseDuration frac (getenv key) fallback)"

definition defaults :: "frac_rule \<Rightarrow> environment \<Rightarrow> Config" where
  "defaults frac getenv =
     \<lparr>cfg_ConfigPath = [], cfg_ConfigVersion = 2, cfg_ConfigurationMode = ConfigurationAutomatic,
      cfg_ConnectionTuning = zero_ConnectionTuning, cfg_Mode = [], cfg_ConfigState = [], cfg_ConfigError = [],
      cfg_HTTPAddr = env getenv ''FRP_CONTROL_HTTP_ADDR'' '':8080'', cfg_MySQLDSN = [],
      cfg_CookieSecret = env getenv ''FRP_CONTROL_COOKIE_SECRET'' ''dev-change-me-before-production'',
      cfg_SessionTTL = envDuration frac getenv ''FRP_CONTROL_SESSION_TTL'' (3600 * second),
      cfg_RuntimeTokenTTL = envDuration frac getenv ''FRP_CONTROL_RUNTIME_TOKEN_TTL'' (24 * 3600 * second),
      cfg_UDPConnectionTTL = envDuration frac getenv ''FRP_CONTROL_UDP_CONNECTION_TTL'' (10 * second),
      cfg_EmbeddedFRPEnabled = envBool getenv ''FRP_CONTROL_EMBEDDED_FRPS_ENABLED'' True,
      cfg_FRPBindAddr = env getenv ''FRP_CONTROL_FRP_BIND_ADDR'' ''0.0.0.0'',
      cfg_FRPProxyBindAddr = env getenv ''FRP_CONTROL_FRP_PROXY_BIND_ADDR'' ''0.0.0.0'',
      cfg_FRPServerAddr = env getenv ''FRP_CONTROL_FRP_SERVER_ADDR'' ''127.0.0.1'',
      cfg_FRPServerPort = envInt getenv ''FRP_CONTROL_FRP_SERVER_PORT'' 7000,
      cfg_FRPTransportTLS = envBool getenv ''FRP_CONTROL_FRP_TRANSPORT_TLS'' True,
      cfg_ClientConfigComment = env getenv ''FRP_CONTROL_CLIENT_CONFIG_COMMENT'' ''generated by frp-control-server'',
      cfg_InitialAdmin = \<lparr>ia_Username = [], ia_DisplayName = [], ia_PasswordHash = []\<rparr>,
      cfg_Controller = \<lparr>ctl_EdgeAccessEnabled = False, ctl_ListenAddr = ''0.0.0.0:9443'', ctl_PublicAddress = [],
        ctl_TLS = empty_TLSFiles, ctl_CAKeyFile = [], ctl_HeartbeatIntervalSeconds = 5\<rparr>,
      cfg_Edge = \<lparr>edge_NodeID = [], edge_NodeName = [], edge_ControllerAddr = [], edge_ControllerAPIAddr = [],
        edge_ServerName = [], edge_TLS = empty_TLSFiles, edge_StatePath = ''data/edge-state.db'',
        edge_ControllerAdministrationEnabled = False,
        edge_Reporting = \<lparr>rep_ClientPresence = True, rep_Connections = False, rep_TrafficStatistics = False,
          rep_DPIEvents = False, rep_RuntimeLogs = False\<rparr>,
        edge_RemoteCommands = \<lparr>rcmd_DisconnectClient = True, rcmd_DisconnectConnection = True,
          rcmd_BlockIP = False, rcmd_ChangeRuntimeSettings = False\<rparr>\<rparr>,
      cfg_Node = \<lparr>node_Tag = [], node_PublicAPIURL = [], node_FRPAdvertiseAddr = [], node_FRPBindPort = 7000,
        node_PortRangeStart = 1024, node_PortRangeEnd = 65535, node_Selectable = True\<rparr>,
      cfg_Initialized = False\<rparr>"

section \<open>Merging the file\<close>

definition or_else :: "string \<Rightarrow> string \<Rightarrow> string" where
  "or_else value base = (if value \<noteq> [] then value else base)"

definition mergeTLSMaterial :: "TLSFiles \<Rightarrow> TLSFiles \<Rightarrow> TLSFiles" where
  "mergeTLSMaterial base value = base\<lparr>
     tls_CACertificateBase64 := or_else (tls_CACertificateBase64 value) (tls_CACertificateBase64 base),
     tls_CAPrivateKeyBase64 := or_else (tls_CAPrivateKeyBase64 value) (tls_CAPrivateKeyBase64 base),
     tls_CertificateBase64 := or_else (tls_CertificateBase64 value) (tls_CertificateBase64 base),
     tls_PrivateKeyBase64 := or_else (tls_PrivateKeyBase64 value) (tls_PrivateKeyBase64 base)\<rparr>"

text \<open>The three file names both roles merge in the same way.\<close>

definition merge_TLS_files :: "TLSFiles \<Rightarrow> TLSFiles \<Rightarrow> TLSFiles" where
  "merge_TLS_files base value = base\<lparr>
     tls_CAFile := or_else (tls_CAFile value) (tls_CAFile base),
     tls_CertFile := or_else (tls_CertFile value) (tls_CertFile base),
     tls_KeyFile := or_else (tls_KeyFile value) (tls_KeyFile base)\<rparr>"

definition mergeControllerConfig :: "ControllerConfig \<Rightarrow> ControllerConfig \<Rightarrow> ControllerConfig" where
  "mergeControllerConfig base value = base\<lparr>
     ctl_EdgeAccessEnabled := ctl_EdgeAccessEnabled value,
     ctl_ListenAddr := or_else (ctl_ListenAddr value) (ctl_ListenAddr base),
     ctl_PublicAddress := or_else (ctl_PublicAddress value) (ctl_PublicAddress base),
     ctl_HeartbeatIntervalSeconds :=
       (if 0 < ctl_HeartbeatIntervalSeconds value then ctl_HeartbeatIntervalSeconds value
        else ctl_HeartbeatIntervalSeconds base),
     ctl_CAKeyFile := or_else (ctl_CAKeyFile value) (ctl_CAKeyFile base),
     ctl_TLS := mergeTLSMaterial (merge_TLS_files (ctl_TLS base) (ctl_TLS value)) (ctl_TLS value)\<rparr>"

definition mergeEdgeConfig :: "EdgeConfig \<Rightarrow> EdgeConfig \<Rightarrow> EdgeConfig" where
  "mergeEdgeConfig base value = base\<lparr>
     edge_NodeID := or_else (edge_NodeID value) (edge_NodeID base),
     edge_NodeName := or_else (edge_NodeName value) (edge_NodeName base),
     edge_ControllerAddr := or_else (edge_ControllerAddr value) (edge_ControllerAddr base),
     edge_ControllerAPIAddr := or_else (edge_ControllerAPIAddr value) (edge_ControllerAPIAddr base),
     edge_ServerName := or_else (edge_ServerName value) (edge_ServerName base),
     edge_StatePath := or_else (edge_StatePath value) (edge_StatePath base),
     edge_TLS := mergeTLSMaterial (merge_TLS_files (edge_TLS base) (edge_TLS value)) (edge_TLS value),
     edge_ControllerAdministrationEnabled := edge_ControllerAdministrationEnabled value,
     edge_Reporting := edge_Reporting value,
     edge_RemoteCommands := edge_RemoteCommands value\<rparr>"

definition nodeRuntimeConfigured :: "NodeRuntimeConfig \<Rightarrow> bool" where
  "nodeRuntimeConfigured v \<longleftrightarrow> node_Tag v \<noteq> [] \<or> node_PublicAPIURL v \<noteq> [] \<or> node_FRPAdvertiseAddr v \<noteq> [] \<or>
     node_FRPBindPort v \<noteq> 0 \<or> node_PortRangeStart v \<noteq> 0 \<or> node_PortRangeEnd v \<noteq> 0"

definition mergeNodeRuntimeConfig :: "NodeRuntimeConfig \<Rightarrow> NodeRuntimeConfig \<Rightarrow> NodeRuntimeConfig" where
  "mergeNodeRuntimeConfig base v = base\<lparr>
     node_Tag := node_Tag v, node_PublicAPIURL := node_PublicAPIURL v,
     node_FRPAdvertiseAddr := node_FRPAdvertiseAddr v,
     node_FRPBindPort := (if 0 < node_FRPBindPort v then node_FRPBindPort v else node_FRPBindPort base),
     node_PortRangeStart := (if 0 < node_PortRangeStart v then node_PortRangeStart v else node_PortRangeStart base),
     node_PortRangeEnd := (if 0 < node_PortRangeEnd v then node_PortRangeEnd v else node_PortRangeEnd base),
     node_Selectable := node_Selectable v\<rparr>"

text \<open>The node section of a file, or what the older top-level fields say.\<close>

definition node_from_file :: "string \<Rightarrow> FileConfig \<Rightarrow> NodeRuntimeConfig \<Rightarrow> NodeRuntimeConfig" where
  "node_from_file mode file node =
     (if nodeRuntimeConfigured (fc_Node file) then mergeNodeRuntimeConfig node (fc_Node file)
      else node\<lparr>node_FRPAdvertiseAddr := fc_FRPServerAddr file, node_FRPBindPort := fc_FRPServerPort file,
                 node_Tag := (if mode = ModeEdge \<and> edge_NodeName (fc_Edge file) \<noteq> [] then edge_NodeName (fc_Edge file)
                              else node_Tag node)\<rparr>)"

text \<open>The fields that are still zero after the merge.\<close>

definition fill_node :: "string \<Rightarrow> int \<Rightarrow> NodeRuntimeConfig \<Rightarrow> NodeRuntimeConfig" where
  "fill_node addr port node = node\<lparr>
     node_FRPBindPort := (if node_FRPBindPort node = 0 then port else node_FRPBindPort node),
     node_FRPAdvertiseAddr := or_else (node_FRPAdvertiseAddr node) addr,
     node_PortRangeStart := (if node_PortRangeStart node = 0 then 1024 else node_PortRangeStart node),
     node_PortRangeEnd := (if node_PortRangeEnd node = 0 then 65535 else node_PortRangeEnd node)\<rparr>"

definition applyFileConfig :: "frac_rule \<Rightarrow> Config \<Rightarrow> FileConfig \<Rightarrow> Config" where
  "applyFileConfig frac cfg file =
     (let mode = (if fc_Mode file = [] \<and> (fc_MySQLDSN file \<noteq> [] \<or> fc_Initialized file) then ModeController
                  else fc_Mode file);
          bindAddr = or_else (fc_FRPBindAddr file) ''0.0.0.0'';
          addr = or_else (fc_FRPServerAddr file) ''127.0.0.1'';
          port = (if fc_FRPServerPort file = 0 then 7000 else fc_FRPServerPort file);
          node = fill_node addr port (node_from_file mode file (cfg_Node cfg))
      in cfg\<lparr>
        cfg_ConnectionTuning := fc_ConnectionTuning file,
        cfg_ConfigurationMode := or_else (fc_ConfigurationMode file) ConfigurationManual,
        cfg_ConfigVersion := (if fc_ConfigVersion file = 0 then 1 else fc_ConfigVersion file),
        cfg_Mode := mode,
        cfg_MySQLDSN := fc_MySQLDSN file,
        cfg_CookieSecret := or_else (fc_CookieSecret file) ''dev-change-me-before-production'',
        cfg_SessionTTL := parseDuration frac (fc_SessionTTL file) (cfg_SessionTTL cfg),
        cfg_RuntimeTokenTTL := parseDuration frac (fc_RuntimeTokenTTL file) (cfg_RuntimeTokenTTL cfg),
        cfg_UDPConnectionTTL := parseDuration frac (fc_UDPConnectionTTL file) (cfg_UDPConnectionTTL cfg),
        cfg_EmbeddedFRPEnabled := (case fc_EmbeddedFRPEnabled file of None \<Rightarrow> cfg_EmbeddedFRPEnabled cfg | Some b \<Rightarrow> b),
        cfg_FRPBindAddr := bindAddr,
        cfg_FRPProxyBindAddr := or_else (fc_FRPProxyBindAddr file) bindAddr,
        cfg_FRPServerAddr := node_FRPAdvertiseAddr node,
        cfg_FRPServerPort := node_FRPBindPort node,
        cfg_FRPTransportTLS := True,
        cfg_ClientConfigComment := or_else (fc_ClientConfigComment file) ''generated by frp-control-server'',
        cfg_InitialAdmin := fc_InitialAdmin file,
        cfg_Initialized := (fc_Initialized file \<or> ia_PasswordHash (fc_InitialAdmin file) \<noteq> []),
        cfg_Controller := mergeControllerConfig (cfg_Controller cfg) (fc_Controller file),
        cfg_Edge := mergeEdgeConfig (cfg_Edge cfg) (fc_Edge file),
        cfg_Node := node\<rparr>)"

section \<open>Validation\<close>

definition tuning_fields :: "ConnectionTuning \<Rightarrow> (string \<times> int \<times> int \<times> int) list" where
  "tuning_fields v =
     [(''tcp_mux_keepalive_seconds'', TCPMuxKeepaliveSeconds v, 0, 3600),
      (''tcp_keepalive_seconds'', TCPKeepaliveSeconds v, -1, 86400),
      (''max_pool_count'', MaxPoolCount v, 0, 1024),
      (''heartbeat_timeout_seconds'', HeartbeatTimeoutSeconds v, -1, 3600),
      (''user_connection_timeout_seconds'', UserConnectionTimeoutSeconds v, 0, 600),
      (''mtls_handshake_timeout_seconds'', MTLSHandshakeTimeoutSeconds v, 0, 120)]"

definition ValidateConnectionTuning :: "ConnectionTuning \<Rightarrow> string option" where
  "ValidateConnectionTuning v =
     (case find (\<lambda>(_, x, lo, hi). x < lo \<or> x > hi) (tuning_fields v) of
        None \<Rightarrow> None
      | Some (name, _, lo, hi) \<Rightarrow> Some (name @ '' must be between '' @ itoa lo @ '' and '' @ itoa hi))"

definition ValidateNodeRuntime :: "NodeRuntimeConfig \<Rightarrow> string option" where
  "ValidateNodeRuntime node =
     (if node_FRPBindPort node \<le> 0 \<or> node_FRPBindPort node > 65535
      then Some ''node frp_bind_port must be between 1 and 65535''
      else if node_PortRangeStart node < 1 \<or> node_PortRangeEnd node > 65535 \<or>
              node_PortRangeStart node > node_PortRangeEnd node
      then Some ''node port range is invalid''
      else None)"

definition hasTLS :: "TLSFiles \<Rightarrow> bool" where
  "hasTLS t \<longleftrightarrow>
     tls_CACertificateBase64 t \<noteq> [] \<and> tls_CertificateBase64 t \<noteq> [] \<and> tls_PrivateKeyBase64 t \<noteq> [] \<or>
     tls_CAFile t \<noteq> [] \<and> tls_CertFile t \<noteq> [] \<and> tls_KeyFile t \<noteq> []"

definition Validate :: "Config \<Rightarrow> string option" where
  "Validate cfg =
     (case ValidateConnectionTuning (cfg_ConnectionTuning cfg) of
        Some e \<Rightarrow> Some e
      | None \<Rightarrow>
          if cfg_ConfigurationMode cfg \<notin> {[], ConfigurationAutomatic, ConfigurationManual}
          then Some ''configuration_mode must be automatic or manual''
          else if cfg_Mode cfg \<noteq> ModeController \<and> cfg_Mode cfg \<noteq> ModeEdge
          then Some (''mode must be \"controller\" or \"edge\"'')
          else if \<not> cfg_Initialized cfg then Some ''configuration is not initialized''
          else if ia_Username (cfg_InitialAdmin cfg) = [] \<or> ia_PasswordHash (cfg_InitialAdmin cfg) = []
          then Some ''local administrator credential is missing''
          else if cfg_Mode cfg = ModeController \<and> cfg_MySQLDSN cfg = []
          then Some ''controller mysql configuration is missing''
          else if cfg_Mode cfg = ModeEdge \<and>
                  (edge_NodeID (cfg_Edge cfg) = [] \<or> edge_ControllerAddr (cfg_Edge cfg) = [])
          then Some ''edge enrollment information is missing''
          else if cfg_Mode cfg = ModeEdge \<and> \<not> hasTLS (edge_TLS (cfg_Edge cfg))
          then Some ''edge mTLS files are missing''
          else ValidateNodeRuntime (cfg_Node cfg))"

section \<open>Loading and saving\<close>

definition ApplyRecommended :: "Config \<Rightarrow> Config" where
  "ApplyRecommended cfg = cfg\<lparr>cfg_EmbeddedFRPEnabled := True, cfg_FRPTransportTLS := True\<rparr>"

definition applyEnv :: "frac_rule \<Rightarrow> environment \<Rightarrow> Config \<Rightarrow> Config" where
  "applyEnv frac getenv cfg =
     (let addr = env getenv ''FRP_CONTROL_FRP_SERVER_ADDR'' (cfg_FRPServerAddr cfg);
          port = envInt getenv ''FRP_CONTROL_FRP_SERVER_PORT'' (cfg_FRPServerPort cfg)
      in cfg\<lparr>
        cfg_MySQLDSN := env getenv ''FRP_CONTROL_MYSQL_DSN'' (cfg_MySQLDSN cfg),
        cfg_HTTPAddr := env getenv ''FRP_CONTROL_HTTP_ADDR'' (cfg_HTTPAddr cfg),
        cfg_CookieSecret := env getenv ''FRP_CONTROL_COOKIE_SECRET'' (cfg_CookieSecret cfg),
        cfg_SessionTTL := envDuration frac getenv ''FRP_CONTROL_SESSION_TTL'' (cfg_SessionTTL cfg),
        cfg_RuntimeTokenTTL := envDuration frac getenv ''FRP_CONTROL_RUNTIME_TOKEN_TTL'' (cfg_RuntimeTokenTTL cfg),
        cfg_UDPConnectionTTL := envDuration frac getenv ''FRP_CONTROL_UDP_CONNECTION_TTL'' (cfg_UDPConnectionTTL cfg),
        cfg_EmbeddedFRPEnabled := envBool getenv ''FRP_CONTROL_EMBEDDED_FRPS_ENABLED'' (cfg_EmbeddedFRPEnabled cfg),
        cfg_FRPBindAddr := env getenv ''FRP_CONTROL_FRP_BIND_ADDR'' (cfg_FRPBindAddr cfg),
        cfg_FRPProxyBindAddr := env getenv ''FRP_CONTROL_FRP_PROXY_BIND_ADDR'' (cfg_FRPProxyBindAddr cfg),
        cfg_FRPServerAddr := addr,
        cfg_FRPServerPort := port,
        cfg_FRPTransportTLS := True,
        cfg_ClientConfigComment := env getenv ''FRP_CONTROL_CLIENT_CONFIG_COMMENT'' (cfg_ClientConfigComment cfg),
        cfg_Node := (cfg_Node cfg)\<lparr>node_FRPAdvertiseAddr := addr, node_FRPBindPort := port\<rparr>\<rparr>)"

text \<open>\<open>Load\<close>, with the default path of the configuration file and the outcome of reading it.\<close>

definition Load :: "frac_rule \<Rightarrow> environment \<Rightarrow> string \<Rightarrow> file_result \<Rightarrow> Config" where
  "Load frac getenv defaultPath file =
     (let cfg0 = (defaults frac getenv)\<lparr>cfg_ConfigPath := env getenv ''FRP_CONTROL_CONFIG'' defaultPath\<rparr>
      in case file of
           FileRead f \<Rightarrow>
             (let cfg1 = applyFileConfig frac cfg0 f;
                  cfg2 = (if cfg_ConfigurationMode cfg1 = ConfigurationAutomatic then ApplyRecommended cfg1 else cfg1)
              in case Validate cfg2 of
                   Some e \<Rightarrow> cfg2\<lparr>cfg_ConfigState := ''invalid'', cfg_ConfigError := e, cfg_Initialized := False\<rparr>
                 | None \<Rightarrow> applyEnv frac getenv (cfg2\<lparr>cfg_ConfigState := ''configured''\<rparr>))
         | FileMissing \<Rightarrow> applyEnv frac getenv (ApplyRecommended (cfg0\<lparr>cfg_ConfigState := ''unconfigured''\<rparr>))
         | FileUnreadable e \<Rightarrow>
             cfg0\<lparr>cfg_ConfigState := ''invalid'', cfg_ConfigError := e, cfg_Initialized := False\<rparr>)"

definition FileConfig_of :: "Config \<Rightarrow> FileConfig" where
  "FileConfig_of c =
     \<lparr>fc_ConfigVersion = cfg_ConfigVersion c, fc_ConfigurationMode = cfg_ConfigurationMode c,
      fc_ConnectionTuning = cfg_ConnectionTuning c, fc_Mode = cfg_Mode c, fc_MySQLDSN = cfg_MySQLDSN c,
      fc_CookieSecret = cfg_CookieSecret c, fc_SessionTTL = duration_String (cfg_SessionTTL c),
      fc_RuntimeTokenTTL = duration_String (cfg_RuntimeTokenTTL c),
      fc_UDPConnectionTTL = duration_String (cfg_UDPConnectionTTL c),
      fc_EmbeddedFRPEnabled = Some (cfg_EmbeddedFRPEnabled c), fc_FRPBindAddr = cfg_FRPBindAddr c,
      fc_FRPProxyBindAddr = cfg_FRPProxyBindAddr c, fc_FRPServerAddr = cfg_FRPServerAddr c,
      fc_FRPServerPort = cfg_FRPServerPort c, fc_FRPTransportTLS = cfg_FRPTransportTLS c,
      fc_ClientConfigComment = cfg_ClientConfigComment c, fc_InitialAdmin = cfg_InitialAdmin c,
      fc_Controller = cfg_Controller c, fc_Edge = cfg_Edge c, fc_Node = cfg_Node c,
      fc_Initialized = cfg_Initialized c, fc_CreatedAt = 0\<rparr>"

text \<open>What \<open>WriteFileConfig\<close> puts into the file, given the time and a fresh secret.\<close>

definition WriteFileConfig :: "go_time \<Rightarrow> string \<Rightarrow> FileConfig \<Rightarrow> FileConfig" where
  "WriteFileConfig now secret f = f\<lparr>
     fc_ConfigVersion := (if fc_ConfigVersion f = 0 then 2 else fc_ConfigVersion f),
     fc_CreatedAt := (if time_is_zero (fc_CreatedAt f) then now else fc_CreatedAt f),
     fc_CookieSecret := or_else (fc_CookieSecret f) secret,
     fc_SessionTTL := or_else (fc_SessionTTL f) ''1h'',
     fc_RuntimeTokenTTL := or_else (fc_RuntimeTokenTTL f) ''24h'',
     fc_UDPConnectionTTL := or_else (fc_UDPConnectionTTL f) ''10s'',
     fc_EmbeddedFRPEnabled := (case fc_EmbeddedFRPEnabled f of None \<Rightarrow> Some True | Some b \<Rightarrow> Some b),
     fc_ClientConfigComment := or_else (fc_ClientConfigComment f) ''generated by frp-control-server''\<rparr>"

section \<open>A saved configuration is loaded as it was\<close>

text \<open>
  A configuration as the process holds it: what \<open>Load\<close> fills in is filled in, the older server
  fields follow the node section, the lifetimes are whole seconds, and the administrator form has
  not left the state file or the listener empty.
\<close>

definition whole_seconds :: "duration \<Rightarrow> bool" where
  "whole_seconds d \<longleftrightarrow> 0 \<le> d \<and> d < 2 ^ 63 \<and> d mod second = 0"

definition settled :: "Config \<Rightarrow> bool" where
  "settled c \<longleftrightarrow> cfg_ConfigVersion c \<noteq> 0 \<and> cfg_ConfigurationMode c \<noteq> [] \<and> cfg_CookieSecret c \<noteq> [] \<and>
     (cfg_ConfigurationMode c = ConfigurationAutomatic \<longrightarrow> cfg_EmbeddedFRPEnabled c) \<and>
     whole_seconds (cfg_SessionTTL c) \<and> whole_seconds (cfg_RuntimeTokenTTL c) \<and> whole_seconds (cfg_UDPConnectionTTL c) \<and>
     cfg_FRPBindAddr c \<noteq> [] \<and> cfg_FRPProxyBindAddr c \<noteq> [] \<and> cfg_ClientConfigComment c \<noteq> [] \<and>
     cfg_FRPTransportTLS c \<and> node_FRPAdvertiseAddr (cfg_Node c) \<noteq> [] \<and>
     cfg_FRPServerAddr c = node_FRPAdvertiseAddr (cfg_Node c) \<and> cfg_FRPServerPort c = node_FRPBindPort (cfg_Node c) \<and>
     ctl_ListenAddr (cfg_Controller c) \<noteq> [] \<and> 0 < ctl_HeartbeatIntervalSeconds (cfg_Controller c) \<and>
     edge_StatePath (cfg_Edge c) \<noteq> []"

lemma or_else_simps [simp]: "or_else v [] = v" "v \<noteq> [] \<Longrightarrow> or_else v b = v"
  by (simp_all add: or_else_def)

lemma duration_String_not_Nil [simp]: "duration_String d \<noteq> []"
  by (auto simp: duration_String_def Let_def format_small_def format_large_def split: prod.splits)

lemma parseDuration_String: "whole_seconds d \<Longrightarrow> parseDuration frac (duration_String d) fallback = d"
proof -
  assume d: "whole_seconds d"
  then have "d = d div second * second" using div_mult_mod_eq [of d second] by (simp add: whole_seconds_def)
  moreover have "0 \<le> d div second" using d by (simp add: whole_seconds_def second_def pos_imp_zdiv_nonneg_iff)
  ultimately show ?thesis
    using ParseDuration_String [of "d div second" frac] d by (simp add: parseDuration_def whole_seconds_def)
qed

lemma merge_onto_defaults:
  "mergeTLSMaterial (merge_TLS_files empty_TLSFiles t) t = t"
  by (cases t) (simp add: mergeTLSMaterial_def merge_TLS_files_def empty_TLSFiles_def)

lemma merge_controller_defaults:
  "ctl_ListenAddr c \<noteq> [] \<Longrightarrow> 0 < ctl_HeartbeatIntervalSeconds c \<Longrightarrow>
     mergeControllerConfig (cfg_Controller (defaults frac getenv)) c = c"
  by (cases c) (simp add: mergeControllerConfig_def defaults_def merge_onto_defaults)

lemma merge_edge_defaults:
  "edge_StatePath e \<noteq> [] \<Longrightarrow> mergeEdgeConfig (cfg_Edge (defaults frac getenv)) e = e"
  by (cases e) (simp add: mergeEdgeConfig_def defaults_def merge_onto_defaults)

lemma merge_node_valid:
  assumes "ValidateNodeRuntime n = None" "node_FRPAdvertiseAddr n \<noteq> []"
  shows "fill_node addr port (mergeNodeRuntimeConfig base n) = n"
  using assms by (cases n) (auto simp: fill_node_def mergeNodeRuntimeConfig_def ValidateNodeRuntime_def split: if_splits)

definition checks_passed :: "Config \<Rightarrow> bool" where
  "checks_passed c \<longleftrightarrow> ValidateConnectionTuning (cfg_ConnectionTuning c) = None \<and>
     cfg_ConfigurationMode c \<in> {[], ConfigurationAutomatic, ConfigurationManual} \<and>
     (cfg_Mode c = ModeController \<or> cfg_Mode c = ModeEdge) \<and> cfg_Initialized c \<and>
     ia_Username (cfg_InitialAdmin c) \<noteq> [] \<and> ia_PasswordHash (cfg_InitialAdmin c) \<noteq> [] \<and>
     (cfg_Mode c = ModeController \<longrightarrow> cfg_MySQLDSN c \<noteq> []) \<and>
     (cfg_Mode c = ModeEdge \<longrightarrow> edge_NodeID (cfg_Edge c) \<noteq> [] \<and> edge_ControllerAddr (cfg_Edge c) \<noteq> [] \<and>
        hasTLS (edge_TLS (cfg_Edge c)))"

lemma Validate_checks: "checks_passed c \<Longrightarrow> Validate c = ValidateNodeRuntime (cfg_Node c)"
  by (auto simp: Validate_def checks_passed_def)

lemma Validate_failed: "\<not> checks_passed c \<Longrightarrow> \<exists>e. Validate c = Some e"
  by (auto simp: Validate_def checks_passed_def split: option.splits)

lemma Validate_iff: "Validate c = None \<longleftrightarrow> checks_passed c \<and> ValidateNodeRuntime (cfg_Node c) = None"
  using Validate_checks [of c] Validate_failed [of c] by fastforce

lemma Validate_other_node:
  assumes "Validate c = None" "cfg_ConnectionTuning d = cfg_ConnectionTuning c" "cfg_Mode d = cfg_Mode c"
    "cfg_ConfigurationMode d = cfg_ConfigurationMode c" "cfg_Initialized d = cfg_Initialized c"
    "cfg_InitialAdmin d = cfg_InitialAdmin c" "cfg_MySQLDSN d = cfg_MySQLDSN c" "cfg_Edge d = cfg_Edge c"
  shows "Validate d = ValidateNodeRuntime (cfg_Node d)"
  using assms by (intro Validate_checks) (simp add: Validate_iff checks_passed_def)

lemma Validate_parts:
  assumes "Validate c = None"
  shows "cfg_Mode c = ModeController \<or> cfg_Mode c = ModeEdge" "cfg_Initialized c" "cfg_Mode c \<noteq> []"
  using assms by (auto simp: Validate_iff checks_passed_def ModeController_def ModeEdge_def)

lemma applyFile_saved:
  assumes valid: "Validate c = None" and set: "settled c"
  shows "applyFileConfig frac ((defaults frac getenv)\<lparr>cfg_ConfigPath := path\<rparr>)
      (WriteFileConfig now secret (FileConfig_of c)) =
    c\<lparr>cfg_ConfigPath := path, cfg_HTTPAddr := cfg_HTTPAddr (defaults frac getenv), cfg_ConfigError := [], cfg_ConfigState := []\<rparr>"
proof -
  have node: "ValidateNodeRuntime (cfg_Node c) = None" using valid by (simp add: Validate_iff)
  have conf: "nodeRuntimeConfigured (cfg_Node c)" using set by (simp add: settled_def nodeRuntimeConfigured_def)
  have merged: "fill_node addr port (mergeNodeRuntimeConfig base (cfg_Node c)) = cfg_Node c" for addr port base
    by (rule merge_node_valid [OF node]) (use set in \<open>simp add: settled_def\<close>)
  note facts = set [unfolded settled_def] Validate_parts [OF valid]
  have ctl: "mergeControllerConfig (cfg_Controller (defaults frac getenv)) (cfg_Controller c) = cfg_Controller c"
    and edge: "mergeEdgeConfig (cfg_Edge (defaults frac getenv)) (cfg_Edge c) = cfg_Edge c"
    using facts by (simp_all add: merge_controller_defaults merge_edge_defaults)
  have empty: "cfg_ConfigState (defaults frac getenv) = []" "cfg_ConfigError (defaults frac getenv) = []"
    by (simp_all add: defaults_def)
  show ?thesis
  proof (rule Config.Config.equality)
  qed (use facts conf ctl edge merged empty in
      \<open>simp_all add: applyFileConfig_def WriteFileConfig_def FileConfig_of_def Let_def node_from_file_def
        parseDuration_String\<close>)
qed

definition no_env :: environment where
  "no_env = (\<lambda>_. [])"

definition env_only :: "string \<Rightarrow> string \<Rightarrow> environment" where
  "env_only key v = (\<lambda>k. if k = key then v else [])"

lemma Validate_cong:
  "Validate (c\<lparr>cfg_ConfigPath := a, cfg_HTTPAddr := b, cfg_ConfigError := e, cfg_ConfigState := d\<rparr>) = Validate c"
  by (simp add: Validate_def cong: if_cong option.case_cong)

lemma Load_saved:
  assumes valid: "Validate c = None" and set: "settled c"
  shows "Load frac getenv path (FileRead (WriteFileConfig now secret (FileConfig_of c))) =
    applyEnv frac getenv (c\<lparr>cfg_ConfigPath := env getenv ''FRP_CONTROL_CONFIG'' path,
      cfg_HTTPAddr := cfg_HTTPAddr (defaults frac getenv), cfg_ConfigError := [], cfg_ConfigState := ''configured''\<rparr>)"
proof -
  have same: "(if cfg_ConfigurationMode c = ConfigurationAutomatic then ApplyRecommended (c\<lparr>cfg_ConfigPath := p,
      cfg_HTTPAddr := h, cfg_ConfigError := [], cfg_ConfigState := []\<rparr>)
      else c\<lparr>cfg_ConfigPath := p, cfg_HTTPAddr := h, cfg_ConfigError := [], cfg_ConfigState := []\<rparr>) =
      c\<lparr>cfg_ConfigPath := p, cfg_HTTPAddr := h, cfg_ConfigError := [], cfg_ConfigState := []\<rparr>" for p h
    using set by (cases c) (auto simp: settled_def ApplyRecommended_def)
  show ?thesis
    using valid by (simp add: Load_def Let_def applyFile_saved [OF valid set] Validate_cong same cong: if_cong)
qed



definition sample_config :: Config where
  "sample_config = (defaults (\<lambda>_ _ _. 0) no_env)\<lparr>cfg_Mode := ModeController, cfg_MySQLDSN := ''dsn'',
     cfg_Initialized := True,
     cfg_InitialAdmin := \<lparr>ia_Username = ''root'', ia_DisplayName = ''Root'', ia_PasswordHash = ''h''\<rparr>,
     cfg_Node := (cfg_Node (defaults (\<lambda>_ _ _. 0) no_env))\<lparr>node_FRPAdvertiseAddr := ''127.0.0.1''\<rparr>\<rparr>"

lemma sample_config_facts: "Validate sample_config = None" "settled sample_config"
  by (simp_all add: sample_config_def defaults_def no_env_def env_def envInt_def envBool_def envDuration_def
      Validate_def ValidateConnectionTuning_def tuning_fields_def zero_ConnectionTuning_def ValidateNodeRuntime_def
      ConfigurationAutomatic_def settled_def whole_seconds_def second_def ModeController_def ModeEdge_def)


text \<open>What a file describes, before the environment is applied.\<close>

definition described :: "frac_rule \<Rightarrow> environment \<Rightarrow> string \<Rightarrow> FileConfig \<Rightarrow> Config" where
  "described frac getenv path f =
     (let cfg = applyFileConfig frac ((defaults frac getenv)\<lparr>cfg_ConfigPath := env getenv ''FRP_CONTROL_CONFIG'' path\<rparr>) f
      in if cfg_ConfigurationMode cfg = ConfigurationAutomatic then ApplyRecommended cfg else cfg)"

lemma Load_read:
  "Load frac getenv path (FileRead f) =
     (case Validate (described frac getenv path f) of
        Some e \<Rightarrow> (described frac getenv path f)\<lparr>cfg_ConfigState := ''invalid'', cfg_ConfigError := e,
          cfg_Initialized := False\<rparr>
      | None \<Rightarrow> applyEnv frac getenv ((described frac getenv path f)\<lparr>cfg_ConfigState := ''configured''\<rparr>))"
  unfolding Load_def described_def Let_def file_result.case by (rule refl)

text \<open>
  C26. Loading fails closed. A process considers itself initialised exactly if its file was read and
  what the file describes passes validation; otherwise its state is \<open>unconfigured\<close> (no file) or
  \<open>invalid\<close> with the error of the reader or of the first violated rule.
\<close>

theorem load_fails_closed:
  "(let cfg = Load frac getenv path content in
    case content of
      FileMissing \<Rightarrow> \<not> cfg_Initialized cfg \<and> cfg_ConfigState cfg = ''unconfigured''
    | FileUnreadable e \<Rightarrow> \<not> cfg_Initialized cfg \<and> cfg_ConfigState cfg = ''invalid'' \<and> cfg_ConfigError cfg = e
    | FileRead f \<Rightarrow>
        (case Validate (described frac getenv path f) of
           None \<Rightarrow> cfg_Initialized cfg \<and> cfg_ConfigState cfg = ''configured''
         | Some e \<Rightarrow> \<not> cfg_Initialized cfg \<and> cfg_ConfigState cfg = ''invalid'' \<and> cfg_ConfigError cfg = e))"
proof -
  have init: "cfg_Initialized (described frac getenv path f)" if "Validate (described frac getenv path f) = None" for f
    using Validate_parts [OF that] by simp
  have unset: "\<not> cfg_Initialized (defaults frac getenv)" by (simp add: defaults_def)
  show ?thesis
    using init unset
    by (cases content) (auto simp: Load_def [of _ _ _ FileMissing] Load_def [of _ _ _ "FileUnreadable _"] Load_read
        Let_def applyEnv_def ApplyRecommended_def split: option.splits)
qed

text \<open>
  C27. The validation does not cover the environment. With the variable for the frps port set to a
  number outside the port range, every valid configuration loads as \<open>configured\<close> although it no
  longer passes the validation.
\<close>

theorem env_port_unchecked:
  assumes "Validate c = None" and "settled c"
  shows "let cfg = Load frac (env_only ''FRP_CONTROL_FRP_SERVER_PORT'' ''70000'') path
             (FileRead (WriteFileConfig now secret (FileConfig_of c)))
         in cfg_ConfigState cfg = ''configured'' \<and> cfg_Initialized cfg \<and> node_FRPBindPort (cfg_Node cfg) = 70000 \<and>
            Validate cfg = Some ''node frp_bind_port must be between 1 and 65535''"
proof -
  have port: "envInt (env_only ''FRP_CONTROL_FRP_SERVER_PORT'' ''70000'') ''FRP_CONTROL_FRP_SERVER_PORT'' p = 70000" for p
    by (simp add: envInt_def env_only_def Atoi_def is_digit_def digits_value_def digit_value_def byte_val_def)
  note parts = Validate_parts [OF assms(1)]
  have dsn: "env (env_only ''FRP_CONTROL_FRP_SERVER_PORT'' ''70000'') ''FRP_CONTROL_MYSQL_DSN'' d = d" for d
    by (simp add: env_def env_only_def)
  have checks: "Validate (applyEnv frac (env_only ''FRP_CONTROL_FRP_SERVER_PORT'' ''70000'') (c\<lparr>cfg_ConfigPath := a,
      cfg_HTTPAddr := h, cfg_ConfigError := e, cfg_ConfigState := st\<rparr>)) =
      Some ''node frp_bind_port must be between 1 and 65535''" for a h st e
    by (subst Validate_other_node [OF assms(1)]) (simp_all add: applyEnv_def Let_def port dsn ValidateNodeRuntime_def)
  show ?thesis
    unfolding Load_saved [OF assms] Let_def using checks parts by (simp add: applyEnv_def Let_def port)
qed

theorem env_port_unchecked_witness:
  "cfg_ConfigState (Load (\<lambda>_ _ _. 0) (env_only ''FRP_CONTROL_FRP_SERVER_PORT'' ''70000'') ''cfg.json''
     (FileRead (WriteFileConfig 1 ''s'' (FileConfig_of sample_config)))) = ''configured''"
  using env_port_unchecked [OF sample_config_facts, of "\<lambda>_ _ _. 0" "''cfg.json''" 1 "''s''"] by (simp add: Let_def)

end
