(* ===== verification/Go_Net.thy ===== *)
theory Go_Net
  imports Go_Strings
begin

text \<open>
  The parts of Go's \<open>net\<close>, \<open>net/netip\<close> and \<open>strings\<close> packages that read addresses:
  \<open>net.ParseIP\<close>, \<open>IP.IsLoopback\<close>, \<open>IP.IsUnspecified\<close>, \<open>strings.Trim\<close>, \<open>strings.Cut\<close>
  and \<open>strings.EqualFold\<close> against an ASCII word.
\<close>

section \<open>Strings\<close>

definition trim_set :: "char list \<Rightarrow> string \<Rightarrow> string" where
  "trim_set cutset s = rev (dropWhile (\<lambda>c. c \<in> set cutset) (rev (dropWhile (\<lambda>c. c \<in> set cutset) s)))"

definition TrimRight :: "char \<Rightarrow> string \<Rightarrow> string" where
  "TrimRight c s = rev (dropWhile (\<lambda>x. x = c) (rev s))"

definition ContainsAny :: "string \<Rightarrow> char list \<Rightarrow> bool" where
  "ContainsAny s chars \<longleftrightarrow> list_ex (\<lambda>c. c \<in> set chars) s"

definition before_char :: "char \<Rightarrow> string \<Rightarrow> string" where
  "before_char c s = takeWhile (\<lambda>x. x \<noteq> c) s"

text \<open>
  \<open>EqualFold\<close> with an ASCII word: beside the ASCII letters, only U+212A (Kelvin sign) and U+017F
  (long s) fold to an ASCII letter.
\<close>

fun fold_case :: "string \<Rightarrow> string" where
  "fold_case [] = []"
| "fold_case (c # d # e # cs) =
     (if c = CHR 0xE2 \<and> d = CHR 0x84 \<and> e = CHR 0xAA then CHR ''k'' # fold_case cs
      else if c = CHR 0xC5 \<and> d = CHR 0xBF then CHR ''s'' # fold_case (e # cs)
      else lower_char c # fold_case (d # e # cs))"
| "fold_case [c, d] = (if c = CHR 0xC5 \<and> d = CHR 0xBF then [CHR ''s''] else [lower_char c, lower_char d])"
| "fold_case [c] = [lower_char c]"

definition EqualFold :: "string \<Rightarrow> string \<Rightarrow> bool" where
  "EqualFold s ascii \<longleftrightarrow> fold_case s = map lower_char ascii"

section \<open>net.ParseIP\<close>

text \<open>An address is its eight 16-bit groups; an IPv4 address is kept in its mapped form.\<close>

type_synonym ip = "nat list"

definition octet :: "string \<Rightarrow> nat option" where
  "octet p =
     (if p = [] \<or> \<not> list_all is_digit p then None
      else if 1 < length p \<and> hd p = CHR ''0'' then None
      else if 255 < digits_value p then None
      else Some (digits_value p))"

fun parse_octets :: "string list \<Rightarrow> nat list option" where
  "parse_octets [] = Some []"
| "parse_octets (p # ps) =
     (case (octet p, parse_octets ps) of (Some v, Some vs) \<Rightarrow> Some (v # vs) | _ \<Rightarrow> None)"

definition parse_ipv4 :: "string \<Rightarrow> (nat \<times> nat) option" where
  "parse_ipv4 s =
     (case parse_octets (Split s CHR ''.'') of
        Some [a, b, c, d] \<Rightarrow> Some (a * 256 + b, c * 256 + d)
      | _ \<Rightarrow> None)"

definition hex_value :: "char \<Rightarrow> nat option" where
  "hex_value c =
     (let v = byte_val c in
      if 48 \<le> v \<and> v \<le> 57 then Some (v - 48)
      else if 97 \<le> v \<and> v \<le> 102 then Some (v - 87)
      else if 65 \<le> v \<and> v \<le> 70 then Some (v - 55)
      else None)"

text \<open>The hexadecimal digits at the front: their value, their number and the rest.\<close>

fun hex_prefix :: "nat \<Rightarrow> nat \<Rightarrow> string \<Rightarrow> nat \<times> nat \<times> string" where
  "hex_prefix acc n [] = (acc, n, [])"
| "hex_prefix acc n (c # cs) =
     (case hex_value c of None \<Rightarrow> (acc, n, c # cs) | Some v \<Rightarrow> hex_prefix (acc * 16 + v) (n + 1) cs)"

text \<open>
  The loop over the groups. \<open>left\<close> is how many groups may still follow, \<open>acc\<close> the groups so far
  and \<open>gap\<close> the position of the ellipsis. The result has the groups and the position.
\<close>

fun ipv6_groups :: "nat \<Rightarrow> nat list \<Rightarrow> nat option \<Rightarrow> string \<Rightarrow> (nat list \<times> nat option) option" where
  "ipv6_groups 0 acc gap s = (if s = [] then Some (acc, gap) else None)"
| "ipv6_groups (Suc left) acc gap s =
     (case hex_prefix 0 0 s of
        (v, n, rest) \<Rightarrow>
          if n = 0 \<or> 4 < n then None
          else if rest \<noteq> [] \<and> hd rest = CHR ''.'' then
            (if gap = None \<and> length acc \<noteq> 6 then None
             else if 6 < length acc then None
             else case parse_ipv4 s of None \<Rightarrow> None | Some (h, l) \<Rightarrow> Some (acc @ [h, l], gap))
          else if rest = [] then Some (acc @ [v], gap)
          else if hd rest \<noteq> CHR '':'' then None
          else if tl rest = [] then None
          else if hd (tl rest) = CHR '':'' then
            (if gap \<noteq> None then None
             else if tl (tl rest) = [] then Some (acc @ [v], Some (length acc + 1))
             else ipv6_groups left (acc @ [v]) (Some (length acc + 1)) (tl (tl rest)))
          else ipv6_groups left (acc @ [v]) gap (tl rest))"

definition parse_ipv6 :: "string \<Rightarrow> ip option" where
  "parse_ipv6 s =
     (if CHR ''%'' \<in> set s then None
      else if s = ''::'' then Some (replicate 8 0)
      else
        (let lead = HasPrefix s ''::'';
             body = (if lead then drop 2 s else s)
         in case ipv6_groups 8 [] (if lead then Some 0 else None) body of
              None \<Rightarrow> None
            | Some (gs, None) \<Rightarrow> if length gs = 8 then Some gs else None
            | Some (gs, Some g) \<Rightarrow>
                if length gs = 8 then None
                else Some (take g gs @ replicate (8 - length gs) 0 @ drop g gs)))"

definition ParseIP :: "string \<Rightarrow> ip option" where
  "ParseIP s =
     (case find (\<lambda>c. c \<in> {CHR ''.'', CHR '':'', CHR ''%''}) s of
        None \<Rightarrow> None
      | Some c \<Rightarrow>
          if c = CHR ''.'' then map_option (\<lambda>(h, l). [0, 0, 0, 0, 0, 65535, h, l]) (parse_ipv4 s)
          else if c = CHR '':'' then parse_ipv6 s
          else None)"

definition is_mapped :: "ip \<Rightarrow> bool" where
  "is_mapped ip \<longleftrightarrow> take 6 ip = [0, 0, 0, 0, 0, 65535]"

definition IsLoopback :: "ip \<Rightarrow> bool" where
  "IsLoopback ip = (if is_mapped ip then ip ! 6 div 256 = 127 else ip = [0, 0, 0, 0, 0, 0, 0, 1])"

definition IsUnspecified :: "ip \<Rightarrow> bool" where
  "IsUnspecified ip \<longleftrightarrow> ip = [0, 0, 0, 0, 0, 65535, 0, 0] \<or> ip = replicate 8 0"

section \<open>Facts\<close>

text \<open>\<open>TrimSpace\<close> keeps a string of plain characters: ASCII and not white space.\<close>

definition plain_char :: "char \<Rightarrow> bool" where
  "plain_char c \<longleftrightarrow> byte_val c < 128 \<and> \<not> ascii_space c"

lemma plain_not_space2: "plain_char c \<Longrightarrow> \<not> space2 c d" "plain_char d \<Longrightarrow> \<not> space2 c d"
  by (auto simp: plain_char_def space2_def byte_val_def)

lemma plain_not_space3: "plain_char c \<Longrightarrow> \<not> space3 c d e" "plain_char e \<Longrightarrow> \<not> space3 c d e"
  by (auto simp: plain_char_def space3_def byte_val_def)

lemma trim_left_plain: "s = [] \<or> plain_char (hd s) \<Longrightarrow> trim_left s = s"
  by (cases s rule: trim_left.cases)
    (auto simp: plain_not_space2 plain_not_space3 plain_char_def [of "_ :: char"])

lemma trim_left_rev_plain: "s = [] \<or> plain_char (hd s) \<Longrightarrow> trim_left_rev s = s"
  by (cases s rule: trim_left_rev.cases)
    (auto simp: plain_not_space2 plain_not_space3 plain_char_def [of "_ :: char"])

lemma TrimSpace_plain: "list_all plain_char s \<Longrightarrow> TrimSpace s = s"
  by (cases "s = []") (simp_all add: TrimSpace_def trim_left_plain trim_left_rev_plain list_all_iff hd_rev)

lemma parse_octets_length: "parse_octets ps = Some vs \<Longrightarrow> length vs = length ps"
  by (induction ps arbitrary: vs) (auto split: option.splits)

lemma octet_bound: "octet p = Some v \<Longrightarrow> v \<le> 255"
  by (auto simp: octet_def split: if_splits)

lemma parse_ipv4_bound: "parse_ipv4 s = Some (h, l) \<Longrightarrow> h < 65536 \<and> l < 65536"
proof -
  have bound: "\<forall>v \<in> set vs. v \<le> 255" if "parse_octets ps = Some vs" for ps vs
    using that by (induction ps arbitrary: vs) (auto split: option.splits dest: octet_bound)
  assume "parse_ipv4 s = Some (h, l)"
  then obtain a b c d where "parse_octets (Split s CHR ''.'') = Some [a, b, c, d]" "h = a * 256 + b" "l = c * 256 + d"
    by (auto simp: parse_ipv4_def split: option.splits list.splits)
  with bound [of _ "[a, b, c, d]"] show ?thesis by fastforce
qed

lemma ipv6_groups_length:
  "ipv6_groups n acc gap s = Some (gs, g) \<Longrightarrow> length acc + n = 8 \<Longrightarrow> length gs \<le> 8"
proof (induction n acc gap s rule: ipv6_groups.induct)
  case (2 left acc gap s)
  then show ?case
    by (auto split: prod.splits if_splits option.splits)
qed (auto split: if_splits)

text \<open>A parsed address has eight groups.\<close>

lemma ParseIP_length: "ParseIP s = Some ip \<Longrightarrow> length ip = 8"
proof -
  assume p: "ParseIP s = Some ip"
  have "length x = 8" if "parse_ipv6 s = Some x" for x
  proof -
    have "length (take g gs @ replicate (8 - length gs) (0 :: nat) @ drop g gs) = 8" if "length gs \<le> 8" for g and gs :: "nat list"
      using that by (simp add: min_def)
    with that ipv6_groups_length [of 8 "[]"] show ?thesis
      by (fastforce simp: parse_ipv6_def Let_def simp del: length_append split: if_splits option.splits)
  qed
  with p show ?thesis by (auto simp: ParseIP_def split: option.splits if_splits)
qed

end
