(* ===== verification/Node_Runtime.thy ===== *)
theory Node_Runtime
  imports Go_Net Config Db_Types
begin

text \<open>
  \<open>internal/httpapi/node_runtime.go\<close>: the public settings of a node. The address and URL checks of
  the settings form, the defaults a setup request gives, and the ports a tunnel may use on the
  node. A request is the part of \<open>http.Request\<close> the functions read.
\<close>

section \<open>Requests\<close>

record http_request =
  req_Host :: string
  req_TLS :: bool
  req_RemoteAddr :: string
  req_ForwardedProto :: string
  req_ForwardedHost :: string

definition brackets :: "char list" where
  "brackets = ''[]''"

definition firstHeaderValue :: "string \<Rightarrow> string" where
  "firstHeaderValue v = TrimSpace (before_char CHR '','' v)"

definition requestFromLoopbackProxy :: "http_request \<Rightarrow> bool" where
  "requestFromLoopbackProxy r =
     (let host = (case SplitHostPort (req_RemoteAddr r) of Some (h, _) \<Rightarrow> h | None \<Rightarrow> req_RemoteAddr r)
      in case ParseIP (trim_set brackets host) of None \<Rightarrow> False | Some ip \<Rightarrow> IsLoopback ip)"

definition forwarded_host :: "http_request \<Rightarrow> string" where
  "forwarded_host r =
     (if requestFromLoopbackProxy r \<and> firstHeaderValue (req_ForwardedHost r) \<noteq> []
      then firstHeaderValue (req_ForwardedHost r)
      else TrimSpace (req_Host r))"

definition externalRequestBaseURL :: "http_request \<Rightarrow> string" where
  "externalRequestBaseURL r =
     (let forwarded = firstHeaderValue (req_ForwardedProto r);
          scheme = (if requestFromLoopbackProxy r \<and> (forwarded = ''http'' \<or> forwarded = ''https'')
                    then forwarded else if req_TLS r then ''https'' else ''http'');
          host = forwarded_host r
      in if host = [] then [] else scheme @ ''://'' @ host @ ''/api'')"

definition requestPublicHost :: "http_request \<Rightarrow> string" where
  "requestPublicHost r =
     (let host = forwarded_host r;
          host = (case SplitHostPort host of Some (h, _) \<Rightarrow> h | None \<Rightarrow> host)
      in trim_set brackets host)"

section \<open>Addresses\<close>

definition isLocalAdvertiseAddress :: "string \<Rightarrow> bool" where
  "isLocalAdvertiseAddress v =
     (let value = TrimSpace (trim_set brackets v)
      in if value = [] \<or> EqualFold value ''localhost'' \<or> value = ''0.0.0.0'' \<or> value = ''::'' then True
         else case ParseIP value of None \<Rightarrow> False | Some ip \<Rightarrow> IsLoopback ip \<or> IsUnspecified ip)"

definition hostname_char :: "char \<Rightarrow> bool" where
  "hostname_char c \<longleftrightarrow>
     97 \<le> byte_val c \<and> byte_val c \<le> 122 \<or> 65 \<le> byte_val c \<and> byte_val c \<le> 90 \<or>
     48 \<le> byte_val c \<and> byte_val c \<le> 57 \<or> c = CHR ''-''"

definition valid_label :: "string \<Rightarrow> bool" where
  "valid_label l \<longleftrightarrow>
     l \<noteq> [] \<and> length l \<le> 63 \<and> \<not> HasPrefix l ''-'' \<and> \<not> HasSuffix l ''-'' \<and> list_all hostname_char l"

definition validateFRPAdvertiseAddress :: "string \<Rightarrow> string option" where
  "validateFRPAdvertiseAddress v =
     (if ParseIP (trim_set brackets v) \<noteq> None then None
      else if v = [] \<or> 253 < length v \<or>
              ContainsAny v (CHR 0x5C # CHR 0x09 # CHR 0x0D # CHR 0x0A # '':/?#@[] '')
      then Some ''FRP address must be an IP address or hostname without a scheme, port or path''
      else if \<not> list_all valid_label (Split (TrimSuffix v ''.'') CHR ''.'')
      then Some ''invalid FRP hostname''
      else None)"

definition isLoopbackAPIHost :: "string \<Rightarrow> bool" where
  "isLoopbackAPIHost host =
     (if EqualFold (TrimSpace host) ''localhost'' then True
      else case ParseIP (TrimSpace host) of None \<Rightarrow> False | Some ip \<Rightarrow> IsLoopback ip)"

section \<open>The settings\<close>

definition normalizeNodeRuntime :: "NodeRuntimeConfig \<Rightarrow> NodeRuntimeConfig" where
  "normalizeNodeRuntime node =
     node\<lparr>node_Tag := TrimSpace (node_Tag node),
          node_PublicAPIURL := TrimRight CHR ''/'' (TrimSpace (node_PublicAPIURL node)),
          node_FRPAdvertiseAddr := TrimSpace (node_FRPAdvertiseAddr node)\<rparr>"

definition syncLegacyFRPFields :: "Config \<Rightarrow> Config" where
  "syncLegacyFRPFields cfg =
     cfg\<lparr>cfg_FRPServerAddr := node_FRPAdvertiseAddr (cfg_Node cfg),
         cfg_FRPServerPort := node_FRPBindPort (cfg_Node cfg)\<rparr>"

text \<open>The default tag is the product name followed by the UTF-8 bytes of the word for node.\<close>

definition default_node_tag :: string where
  "default_node_tag =
     ''MeowFRP '' @ [CHR 0xE8, CHR 0x8A, CHR 0x82, CHR 0xE7, CHR 0x82, CHR 0xB9]"

definition request_tag :: "string \<Rightarrow> string \<Rightarrow> string" where
  "request_tag configured tag =
     (let t = (if TrimSpace configured = [] then TrimSpace tag else configured)
      in if t = [] then default_node_tag else t)"

definition request_advertise :: "string \<Rightarrow> http_request \<Rightarrow> string \<Rightarrow> string" where
  "request_advertise mode r addr =
     (if isLocalAdvertiseAddress addr \<or> addr = [] then
        (if mode = ModeController then (if addr = [] then ''127.0.0.1'' else addr)
         else requestPublicHost r)
      else addr)"

definition initializeNodeRuntimeFromRequest :: "http_request \<Rightarrow> string \<Rightarrow> Config \<Rightarrow> Config" where
  "initializeNodeRuntimeFromRequest r tag cfg =
     (let node = cfg_Node cfg;
          node' = node
            \<lparr>node_Tag := request_tag (node_Tag node) tag,
             node_PublicAPIURL :=
               (if node_PublicAPIURL node = [] then externalRequestBaseURL r else node_PublicAPIURL node),
             node_FRPAdvertiseAddr := request_advertise (cfg_Mode cfg) r (node_FRPAdvertiseAddr node),
             node_FRPBindPort :=
               (if node_FRPBindPort node = 0 then cfg_FRPServerPort cfg else node_FRPBindPort node),
             node_PortRangeStart := (if node_PortRangeStart node = 0 then 1024 else node_PortRangeStart node),
             node_PortRangeEnd := (if node_PortRangeEnd node = 0 then 65535 else node_PortRangeEnd node),
             node_Selectable := True\<rparr>
      in syncLegacyFRPFields (cfg\<lparr>cfg_Node := node'\<rparr>))"

section \<open>Ports of the node\<close>

definition portFromAddress :: "string \<Rightarrow> int" where
  "portFromAddress v =
     (case SplitHostPort v of
        None \<Rightarrow> 0
      | Some (_, raw) \<Rightarrow>
          (case Atoi raw of (p, ok) \<Rightarrow> if \<not> ok \<or> p < 1 \<or> p > 65535 then 0 else p))"

definition reserve :: "int \<Rightarrow> string \<Rightarrow> (int, string) go_map \<Rightarrow> (int, string) go_map" where
  "reserve port reason m = (if port > 0 then AList.update port reason m else m)"

definition nodeReservedPorts :: "Config \<Rightarrow> (int, string) go_map" where
  "nodeReservedPorts cfg =
     (let m = reserve (node_FRPBindPort (cfg_Node cfg)) ''frps control'' [];
          m = reserve (portFromAddress (cfg_HTTPAddr cfg)) ''node API'' m
      in if cfg_Mode cfg = ModeController
         then reserve (portFromAddress (ctl_ListenAddr (cfg_Controller cfg))) ''controller mTLS'' m
         else m)"

definition validateNodeRemotePort :: "Config \<Rightarrow> int \<Rightarrow> string option" where
  "validateNodeRemotePort cfg port =
     (let node = cfg_Node cfg
      in if port < node_PortRangeStart node \<or> port > node_PortRangeEnd node
         then Some (''remote port '' @ itoa port @ '' is outside node range '' @
                    itoa (node_PortRangeStart node) @ ''-'' @ itoa (node_PortRangeEnd node))
         else map_option (\<lambda>reason. ''remote port '' @ itoa port @ '' is reserved for '' @ reason)
                (map_of (nodeReservedPorts cfg) port))"

definition intersect_range :: "NodeRuntimeConfig \<Rightarrow> UserResourcePolicy \<Rightarrow> UserResourcePolicy" where
  "intersect_range node p =
     p\<lparr>policy_PortStart :=
         (if policy_PortStart p < node_PortRangeStart node
          then node_PortRangeStart node else policy_PortStart p),
       policy_PortEnd :=
         (if policy_PortEnd p = 0 \<or> policy_PortEnd p > node_PortRangeEnd node
          then node_PortRangeEnd node else policy_PortEnd p)\<rparr>"

definition intersectNodePortRange ::
  "Config \<Rightarrow> UserResourcePolicy option \<Rightarrow> UserResourcePolicy option \<times> bool" where
  "intersectNodePortRange cfg policy =
     (case policy of
        None \<Rightarrow> (None, False)
      | Some p \<Rightarrow>
          (let q = intersect_range (cfg_Node cfg) p in (Some q, policy_PortStart q \<le> policy_PortEnd q)))"

section \<open>Facts\<close>

text \<open>A port passes iff it lies in the node's range and is not one of the node's own ports.\<close>

lemma map_of_reserve:
  "map_of (reserve p reason m) x = (if p > 0 \<and> x = p then Some reason else map_of m x)"
  by (auto simp: reserve_def)

definition own_ports :: "Config \<Rightarrow> int set" where
  "own_ports cfg =
     {p. p > 0 \<and> (p = node_FRPBindPort (cfg_Node cfg) \<or> p = portFromAddress (cfg_HTTPAddr cfg) \<or>
         cfg_Mode cfg = ModeController \<and> p = portFromAddress (ctl_ListenAddr (cfg_Controller cfg)))}"

lemma dom_nodeReservedPorts: "map_of (nodeReservedPorts cfg) p = None \<longleftrightarrow> p \<notin> own_ports cfg"
  by (auto simp: nodeReservedPorts_def own_ports_def map_of_reserve Let_def)

lemma validateNodeRemotePort_iff:
  "validateNodeRemotePort cfg p = None \<longleftrightarrow>
     node_PortRangeStart (cfg_Node cfg) \<le> p \<and> p \<le> node_PortRangeEnd (cfg_Node cfg) \<and> p \<notin> own_ports cfg"
  by (auto simp: validateNodeRemotePort_def Let_def dom_nodeReservedPorts)

text \<open>The intersected range holds exactly the ports of both ranges; an end of 0 means no user limit.\<close>

lemma intersect_range_mem:
  "policy_PortStart (intersect_range node p) \<le> x \<and> x \<le> policy_PortEnd (intersect_range node p) \<longleftrightarrow>
     policy_PortStart p \<le> x \<and> (policy_PortEnd p = 0 \<or> x \<le> policy_PortEnd p) \<and>
     node_PortRangeStart node \<le> x \<and> x \<le> node_PortRangeEnd node"
  by (auto simp: intersect_range_def)

lemma intersect_range_fields [simp]:
  "policy_UserID (intersect_range node p) = policy_UserID p"
  "policy_MaxPorts (intersect_range node p) = policy_MaxPorts p"
  "policy_AllowedProtocols (intersect_range node p) = policy_AllowedProtocols p"
  "policy_Enabled (intersect_range node p) = policy_Enabled p"
  by (simp_all add: intersect_range_def)

end
