(* ===== verification/Cluster_Types.thy ===== *)
theory Cluster_Types
  imports Go_Strings Db_Types Dpi_Types
begin

text \<open>
  The messages of \<open>internal/cluster/protocol.go\<close> between the controller and its nodes. A JSON payload
  is given decoded where the receiver reads it, and as its text where it is only stored.
\<close>

record SnapshotUser =
  su_ID :: int
  su_Username :: string
  su_Role :: string
  su_Status :: string
  su_BanReason :: string

record SnapshotToken =
  sn_ID :: int
  sn_UserID :: int
  sn_Name :: string
  sn_TokenHash :: string
  sn_Status :: string
  sn_BanReason :: string
  sn_MaxProxyCount :: int
  sn_ExpiresAt :: "go_time option"

record BlockedIP =
  blk_IP :: string
  blk_Reason :: string
  blk_CreatedBy :: int
  blk_CreatedAt :: go_time

record IdentitySnapshot =
  snap_Baseline :: bool
  snap_BaselineEnd :: bool
  snap_ReplaceBlockedIPs :: bool
  snap_Incremental :: bool
  snap_RemovedUserIDs :: "int list"
  snap_NodeAccessEnforced :: bool
  snap_Revision :: int
  snap_Users :: "SnapshotUser list"
  snap_Tokens :: "SnapshotToken list"
  snap_Policies :: "UserResourcePolicy list"
  snap_Grants :: "PortGrant list"
  snap_DPIPolicies :: "Policy list"
  snap_BlockedIPs :: "BlockedIP list"
  snap_RemovedBlockedIPs :: "string list"

record NodeCommand =
  ncmd_CommandID :: string
  ncmd_NodeID :: string
  ncmd_Command :: string
  ncmd_Payload :: string
  ncmd_ExpiresAt :: go_time

record CommandResult =
  res_CommandID :: string
  res_Status :: string
  res_Result :: string
  res_Error :: string

record EventEnvelope =
  env_EventID :: string
  env_EventType :: string
  env_Payload :: string
  env_CreatedAt :: go_time

record ClientPresence =
  pres_UserID :: int
  pres_TokenID :: int
  pres_ClientID :: string
  pres_FRPCRunning :: bool
  pres_LastSeenAt :: "go_time option"

text \<open>How long a silent control session lives, from the heartbeat interval in seconds.\<close>

definition heartbeatTimeout :: "int \<Rightarrow> duration" where
  "heartbeatTimeout interval =
     (let timeout = interval * 3 * second in if timeout < 15 * second then 15 * second else timeout)"

definition NormalizeControllerAddress :: "string \<Rightarrow> string" where
  "NormalizeControllerAddress value =
     TrimSuffix (TrimPrefix (TrimPrefix (TrimSpace value) ''https://'') ''http://'') ''/''"

end
