(* ===== verification/Sha256.thy ===== *)
theory Sha256
  imports Prelude "HOL-Library.Word"
begin

text \<open>
  The standard library's \<open>crypto/sha256\<close> and \<open>crypto/hmac\<close> as the program uses them: the digest
  of a byte string and the keyed digest. A byte is a \<open>char\<close>; the working variables are 32-bit words.
\<close>

unbundle bit_operations_syntax

section \<open>The compression function\<close>

definition round_constants :: "32 word list" where
  "round_constants =
    [0x428A2F98, 0x71374491, 0xB5C0FBCF, 0xE9B5DBA5, 0x3956C25B, 0x59F111F1, 0x923F82A4, 0xAB1C5ED5,
     0xD807AA98, 0x12835B01, 0x243185BE, 0x550C7DC3, 0x72BE5D74, 0x80DEB1FE, 0x9BDC06A7, 0xC19BF174,
     0xE49B69C1, 0xEFBE4786, 0x0FC19DC6, 0x240CA1CC, 0x2DE92C6F, 0x4A7484AA, 0x5CB0A9DC, 0x76F988DA,
     0x983E5152, 0xA831C66D, 0xB00327C8, 0xBF597FC7, 0xC6E00BF3, 0xD5A79147, 0x06CA6351, 0x14292967,
     0x27B70A85, 0x2E1B2138, 0x4D2C6DFC, 0x53380D13, 0x650A7354, 0x766A0ABB, 0x81C2C92E, 0x92722C85,
     0xA2BFE8A1, 0xA81A664B, 0xC24B8B70, 0xC76C51A3, 0xD192E819, 0xD6990624, 0xF40E3585, 0x106AA070,
     0x19A4C116, 0x1E376C08, 0x2748774C, 0x34B0BCB5, 0x391C0CB3, 0x4ED8AA4A, 0x5B9CCA4F, 0x682E6FF3,
     0x748F82EE, 0x78A5636F, 0x84C87814, 0x8CC70208, 0x90BEFFFA, 0xA4506CEB, 0xBEF9A3F7, 0xC67178F2]"

definition initial_hash :: "32 word list" where
  "initial_hash =
    [0x6A09E667, 0xBB67AE85, 0x3C6EF372, 0xA54FF53A, 0x510E527F, 0x9B05688C, 0x1F83D9AB, 0x5BE0CD19]"

definition rotr :: "nat \<Rightarrow> 32 word \<Rightarrow> 32 word" where
  "rotr n w = drop_bit n w OR push_bit (32 - n) w"

definition small_sigma0 :: "32 word \<Rightarrow> 32 word" where
  "small_sigma0 w = rotr 7 w XOR rotr 18 w XOR drop_bit 3 w"

definition small_sigma1 :: "32 word \<Rightarrow> 32 word" where
  "small_sigma1 w = rotr 17 w XOR rotr 19 w XOR drop_bit 10 w"

definition big_sigma0 :: "32 word \<Rightarrow> 32 word" where
  "big_sigma0 w = rotr 2 w XOR rotr 13 w XOR rotr 22 w"

definition big_sigma1 :: "32 word \<Rightarrow> 32 word" where
  "big_sigma1 w = rotr 6 w XOR rotr 11 w XOR rotr 25 w"

text \<open>The message schedule: the sixteen words of the block extended to sixty-four.\<close>

fun extend_schedule :: "nat \<Rightarrow> 32 word list \<Rightarrow> 32 word list" where
  "extend_schedule 0 ws = ws"
| "extend_schedule (Suc n) ws =
     (let t = length ws
      in extend_schedule n
           (ws @ [small_sigma1 (ws ! (t - 2)) + ws ! (t - 7) + small_sigma0 (ws ! (t - 15)) + ws ! (t - 16)]))"

fun sha_round :: "32 word list \<Rightarrow> 32 word \<times> 32 word \<Rightarrow> 32 word list" where
  "sha_round [a, b, c, d, e, f, g, h] (k, w) =
     (let t1 = h + big_sigma1 e + ((e AND f) XOR (NOT e AND g)) + k + w;
          t2 = big_sigma0 a + ((a AND b) XOR (a AND c) XOR (b AND c))
      in [t1 + t2, a, b, c, d + t1, e, f, g])"
| "sha_round vs kw = vs"

definition compress :: "32 word list \<Rightarrow> 32 word list \<Rightarrow> 32 word list" where
  "compress hs block =
     map2 (+) hs (foldl sha_round hs (zip round_constants (extend_schedule 48 block)))"

section \<open>Padding and digest\<close>

definition be_byte :: "nat \<Rightarrow> int \<Rightarrow> char" where
  "be_byte i n = char_of (n div 256 ^ i mod 256)"

definition be_bytes :: "nat \<Rightarrow> int \<Rightarrow> string" where
  "be_bytes k n = map (\<lambda>i. be_byte i n) (rev [0..<k])"

definition padding :: "nat \<Rightarrow> string" where
  "padding len =
     CHR 0x80 # replicate ((119 - len mod 64) mod 64) (CHR 0x00) @ be_bytes 8 (8 * int len mod 2 ^ 64)"

fun words_of :: "string \<Rightarrow> 32 word list" where
  "words_of (a # b # c # d # cs) =
     word_of_int (((of_char a * 256 + of_char b) * 256 + of_char c) * 256 + of_char d) # words_of cs"
| "words_of _ = []"

fun sha_blocks :: "nat \<Rightarrow> 32 word list \<Rightarrow> 32 word list \<Rightarrow> 32 word list" where
  "sha_blocks 0 hs ws = hs"
| "sha_blocks (Suc n) hs ws = sha_blocks n (compress hs (take 16 ws)) (drop 16 ws)"

definition Sum256 :: "string \<Rightarrow> string" where
  "Sum256 msg =
     (let ws = words_of (msg @ padding (length msg))
      in concat (map (\<lambda>w. be_bytes 4 (uint w)) (sha_blocks (length ws div 16) initial_hash ws)))"

section \<open>HMAC\<close>

definition xor_byte :: "int \<Rightarrow> char \<Rightarrow> char" where
  "xor_byte v c = char_of (v XOR (of_char c :: int))"

definition hmac_key :: "string \<Rightarrow> string" where
  "hmac_key key =
     (let k = (if 64 < length key then Sum256 key else key)
      in k @ replicate (64 - length k) (CHR 0x00))"

definition hmac_sha256 :: "string \<Rightarrow> string \<Rightarrow> string" where
  "hmac_sha256 key msg =
     (let k = hmac_key key
      in Sum256 (map (xor_byte 0x5C) k @ Sum256 (map (xor_byte 0x36) k @ msg)))"

section \<open>Sizes\<close>

lemma length_sha_round [simp]: "length (sha_round vs kw) = length vs"
  by (cases "(vs, kw)" rule: sha_round.cases) (simp_all add: Let_def)

lemma length_foldl_sha_round [simp]: "length (foldl sha_round vs kws) = length vs"
  by (induction kws arbitrary: vs) simp_all

lemma length_sha_blocks [simp]: "length (sha_blocks n hs ws) = length hs"
  by (induction n arbitrary: hs ws) (simp_all add: compress_def)

lemma length_be_bytes [simp]: "length (be_bytes k n) = k"
  by (simp add: be_bytes_def)

text \<open>The padded message is a whole number of 64-byte blocks, and a digest is 32 bytes.\<close>

lemma padding_blocks: "64 dvd len + length (padding len)"
proof -
  define m where "m = len mod 64"
  have m: "m < 64" by (simp add: m_def)
  have "64 dvd m + (9 + (119 - m) mod 64)"
  proof (cases "m \<le> 55")
    case True
    then have "(119 - m) mod 64 = 55 - m" by (simp add: mod_if)
    with True show ?thesis by simp
  next
    case False
    with m have "(119 - m) mod 64 = 119 - m" by simp
    with False m show ?thesis by simp
  qed
  moreover have "len + (9 + (119 - m) mod 64) = 64 * (len div 64) + (m + (9 + (119 - m) mod 64))"
    unfolding m_def by simp
  ultimately have "64 dvd len + (9 + (119 - m) mod 64)"
    by (metis dvd_add dvd_triv_left)
  then show ?thesis by (simp add: padding_def m_def)
qed

lemma length_Sum256 [simp]: "length (Sum256 msg) = 32"
proof -
  have "length (concat (map (\<lambda>w. be_bytes 4 (uint w)) ws)) = 4 * length ws" for ws :: "32 word list"
    by (induction ws) simp_all
  then show ?thesis by (simp add: Sum256_def Let_def initial_hash_def)
qed

end
