(* ===== verification/Security.thy ===== *)
theory Security
  imports Sha256 Go_Net
begin

text \<open>
  \<open>internal/security/security.go\<close>: opaque tokens, browser tokens of administrators and signed
  sessions, over the standard library's URL-safe base64 (theory part below) and HMAC (theory
  \<open>Sha256\<close>). Random bytes and the clock are arguments. The password functions only call the
  third-party bcrypt package, which is a parameter where a caller uses it.
\<close>

section \<open>base64.RawURLEncoding\<close>

definition b64_char :: "nat \<Rightarrow> char" where
  "b64_char i =
     char_of (if i < 26 then i + 65 else if i < 52 then i + 71 else if i < 62 then i - 4
              else if i = 62 then 45 else 95)"

definition b64_value :: "char \<Rightarrow> nat option" where
  "b64_value c =
     (let v = byte_val c
      in if 65 \<le> v \<and> v \<le> 90 then Some (v - 65)
         else if 97 \<le> v \<and> v \<le> 122 then Some (v - 71)
         else if 48 \<le> v \<and> v \<le> 57 then Some (v + 4)
         else if v = 45 then Some 62
         else if v = 95 then Some 63
         else None)"

fun EncodeToString :: "string \<Rightarrow> string" where
  "EncodeToString [] = []"
| "EncodeToString [a] = [b64_char (byte_val a div 4), b64_char (byte_val a mod 4 * 16)]"
| "EncodeToString [a, b] =
     [b64_char (byte_val a div 4), b64_char (byte_val a mod 4 * 16 + byte_val b div 16),
      b64_char (byte_val b mod 16 * 4)]"
| "EncodeToString (a # b # c # cs) =
     b64_char (byte_val a div 4) # b64_char (byte_val a mod 4 * 16 + byte_val b div 16) #
     b64_char (byte_val b mod 16 * 4 + byte_val c div 64) # b64_char (byte_val c mod 64) # EncodeToString cs"

text \<open>
  Decoding skips line breaks, fails on any other character outside the alphabet and on a single
  left-over character, and does not look at the unused bits of the last character.
\<close>

fun decode_quanta :: "nat list \<Rightarrow> string option" where
  "decode_quanta [] = Some []"
| "decode_quanta [p] = None"
| "decode_quanta [p, q] = Some [char_of (p * 4 + q div 16)]"
| "decode_quanta [p, q, r] = Some [char_of (p * 4 + q div 16), char_of (q mod 16 * 16 + r div 4)]"
| "decode_quanta (p # q # r # s # vs) =
     map_option (\<lambda>rest. char_of (p * 4 + q div 16) # char_of (q mod 16 * 16 + r div 4) #
       char_of (r mod 4 * 64 + s) # rest) (decode_quanta vs)"

fun b64_values :: "string \<Rightarrow> nat list option" where
  "b64_values [] = Some []"
| "b64_values (c # cs) =
     (case (b64_value c, b64_values cs) of (Some v, Some vs) \<Rightarrow> Some (v # vs) | _ \<Rightarrow> None)"

definition DecodeString :: "string \<Rightarrow> string option" where
  "DecodeString s =
     (case b64_values (filter (\<lambda>c. c \<noteq> CHR 0x0A \<and> c \<noteq> CHR 0x0D) s) of
        None \<Rightarrow> None
      | Some vs \<Rightarrow> decode_quanta vs)"

definition hex_digit :: "nat \<Rightarrow> char" where
  "hex_digit v = char_of (if v < 10 then v + 48 else v + 87)"

definition hex_encode :: "string \<Rightarrow> string" where
  "hex_encode s = concat (map (\<lambda>c. [hex_digit (byte_val c div 16), hex_digit (byte_val c mod 16)]) s)"

section \<open>Opaque tokens\<close>

definition TokenHash :: "string \<Rightarrow> string" where
  "TokenHash token = hex_encode (Sum256 token)"

definition NewOpaqueToken :: "string \<Rightarrow> string \<Rightarrow> string \<times> string" where
  "NewOpaqueToken prefix raw = (let plain = prefix @ EncodeToString raw in (plain, TokenHash plain))"

definition TokenPrefix :: "string \<Rightarrow> string" where
  "TokenPrefix token = (if length token \<le> 12 then token else take 12 token)"

definition DisabledPasswordValue :: string where
  "DisabledPasswordValue = ''__frp_control_disabled_password__''"

section \<open>Browser tokens of administrators\<close>

text \<open>Seconds from Go's zero time to the Unix epoch; \<open>time.Unix\<close> adds them in 64 bits.\<close>

definition unix_epoch :: int where
  "unix_epoch = 62135596800"

definition unix :: "go_time \<Rightarrow> int" where
  "unix t = t div second - unix_epoch"





definition ParseInt :: "string \<Rightarrow> string + int" where
  "ParseInt s = (case Atoi s of (v, ok) \<Rightarrow> if ok then Inr v else Inl ''invalid number'')"



section \<open>Sessions\<close>

definition SignSession :: "go_time \<Rightarrow> string \<Rightarrow> int \<Rightarrow> duration \<Rightarrow> string" where
  "SignSession now secret userID ttl =
     (let expires = unix (now + ttl);
          body = itoa userID @ '':'' @ itoa expires;
          sig = EncodeToString (hmac_sha256 secret body)
      in EncodeToString (body @ '':'' @ sig))"

definition ParseSession :: "go_time \<Rightarrow> string \<Rightarrow> string \<Rightarrow> string + int" where
  "ParseSession now secret value =
     (case DecodeString value of
        None \<Rightarrow> Inl ''illegal base64 data''
      | Some decoded \<Rightarrow>
          (let parts = Split decoded CHR '':''
           in if length parts \<noteq> 3 then Inl ''invalid session format''
              else
                (let body = parts ! 0 @ '':'' @ parts ! 1
                 in if EncodeToString (hmac_sha256 secret body) \<noteq> parts ! 2
                    then Inl ''invalid session signature''
                    else case ParseInt (parts ! 1) of
                           Inl e \<Rightarrow> Inl e
                         | Inr expires \<Rightarrow>
                             if unix now > expires then Inl ''session expired''
                             else ParseInt (parts ! 0))))"

section \<open>Decoding inverts encoding\<close>

lemma byte_val_less [simp]: "byte_val c < 256"
  by (simp add: byte_val_def)

lemma char_of_byte_val [simp]: "char_of (byte_val c) = c"
  by (simp add: byte_val_def)

lemma byte_val_char_of: "n < 256 \<Longrightarrow> byte_val (char_of n) = n"
  by (simp add: byte_val_def)

lemma b64_value_char: "i < 64 \<Longrightarrow> b64_value (b64_char i) = Some i"
  by (auto simp: b64_char_def b64_value_def byte_val_char_of Let_def)

definition b64_alphabet :: "char \<Rightarrow> bool" where
  "b64_alphabet c \<longleftrightarrow> b64_value c \<noteq> None"

lemma b64_char_alphabet: "i < 64 \<Longrightarrow> b64_alphabet (b64_char i)"
  by (simp add: b64_alphabet_def b64_value_char)

lemma byte_val_div [simp]:
  "byte_val c div 4 < 64" "byte_val c div 16 < 16" "byte_val c div 64 < 4"
  by (rule less_mult_imp_div_less, simp)+

lemma sextets:
  "byte_val a div 4 < 64" "byte_val a mod 4 * 16 < 64" "byte_val a mod 4 * 16 + byte_val b div 16 < 64"
  "byte_val b mod 16 * 4 < 64" "byte_val b mod 16 * 4 + byte_val c div 64 < 64" "byte_val c mod 64 < 64"
proof -
  have "byte_val a mod 4 < 4" "byte_val b mod 16 < 16" by simp_all
  then show "byte_val a mod 4 * 16 < 64" "byte_val a mod 4 * 16 + byte_val b div 16 < 64"
    "byte_val b mod 16 * 4 < 64" "byte_val b mod 16 * 4 + byte_val c div 64 < 64"
    using byte_val_div(2) [of b] byte_val_div(3) [of c] by linarith+
qed simp_all

lemma EncodeToString_alphabet: "list_all b64_alphabet (EncodeToString s)"
  by (induction s rule: EncodeToString.induct) (auto intro!: b64_char_alphabet sextets)

lemma not_alphabet:
  "b64_alphabet c \<Longrightarrow> c \<noteq> CHR 0x0A \<and> c \<noteq> CHR 0x0D \<and> c \<noteq> CHR '':''"
  by (auto simp: b64_alphabet_def b64_value_def byte_val_def)

lemma colon_notin_encoded [simp]: "CHR '':'' \<notin> set (EncodeToString s)"
  using EncodeToString_alphabet [of s] not_alphabet by (auto simp: list_all_iff)





section \<open>Browser tokens round trip\<close>










end
