(* ===== verification/Edge_Store.thy ===== *)
theory Edge_Store
  imports Cluster_Types Security Dpi_Service
begin

text \<open>
  \<open>internal/edgestate\<close>: the SQLite file of an edge node. It caches the users, tokens, policies and
  grants the controller sends, and keeps the node's own clients, leases, bans, queued events and
  received commands. A table is the list of its rows in insertion order; a transaction that fails
  leaves the store unchanged. SQLite's \<open>julianday\<close>, by which stored times are compared, is the
  parameter \<open>jd\<close>. Failures of the file itself are the business of the callers.
\<close>

section \<open>Tables\<close>

record EdgeClient =
  ec_ID :: int
  ec_UserID :: int
  ec_TokenID :: int
  ec_ClientID :: string
  ec_Status :: string
  ec_BanReason :: string
  ec_LastSeenAt :: "go_time option"
  ec_FRPCRunning :: bool
  ec_DisconnectNotified :: bool

record OutboundEvent =
  oe_ID :: int
  oe_EventID :: string
  oe_EventType :: string
  oe_Payload :: string
  oe_CreatedAt :: go_time
  oe_Acknowledged :: bool

record ReceivedCommand =
  rc_CommandID :: string
  rc_CommandType :: string
  rc_Payload :: string
  rc_Status :: string
  rc_Result :: "CommandResult option"

record EdgeCommand =
  eq_ID :: int
  eq_ClientRowID :: int
  eq_Command :: string
  eq_Message :: string
  eq_Status :: string

record LocalBlock =
  lb_IP :: string
  lb_Reason :: string
  lb_Source :: string
  lb_CreatedAt :: go_time

record EdgeStore =
  identityResetPending :: bool
  dpiEventsEnabled :: "bool option"
  configurationRevisions :: "(string \<times> int) list"
  lastRevision :: "int option"
  lastSyncAt :: "go_time option"
  outboundEvents :: "OutboundEvent list"
  nextEventID :: int
  receivedCommands :: "ReceivedCommand list"
  disconnectEffects :: "(string \<times> string list) list"
  cachedUsers :: "SnapshotUser list"
  cachedTokens :: "SnapshotToken list"
  cachedPolicies :: "UserResourcePolicy list"
  cachedGrants :: "PortGrant list"
  cachedDPIPolicies :: "Policy list"
  edgeClients :: "EdgeClient list"
  nextEdgeClientID :: int
  edgeLeases :: "RuntimeLease list"
  leaseIssuers :: "(string \<times> string) list"
  edgeAllocations :: "ProxyAllocation list"
  localBlocks :: "LocalBlock list"
  controllerBlocks :: "BlockedIP list"
  edgeCommands :: "EdgeCommand list"
  nextEdgeCommandID :: int

text \<open>
  \<open>EdgeNoRows\<close> is \<open>sql.ErrNoRows\<close> or \<open>db.ErrNotFound\<close>, \<open>EdgeConstraint\<close> a violated key of the schema,
  \<open>EdgeError\<close> an error with its text.
\<close>

datatype edge_error = EdgeNoRows | EdgeConstraint | EdgeError string

type_synonym 'a edge_result = "edge_error + 'a \<times> EdgeStore"
type_synonym julian = "go_time \<Rightarrow> int"

text \<open>\<open>INSERT\<close> of several rows into a table with a key; \<open>None\<close> when a key is taken.\<close>

fun insert_rows :: "('r \<Rightarrow> 'r \<Rightarrow> bool) \<Rightarrow> 'r list \<Rightarrow> 'r list \<Rightarrow> 'r list option" where
  "insert_rows clash [] table = Some table"
| "insert_rows clash (r # rs) table =
     (if list_ex (clash r) table then None else insert_rows clash rs (table @ [r]))"

section \<open>Applying a snapshot\<close>

definition check_snapshot :: "IdentitySnapshot \<Rightarrow> EdgeStore \<Rightarrow> edge_error option" where
  "check_snapshot snap s =
     (if snap_Baseline snap \<and> \<not> identityResetPending s
      then Some (EdgeError ''baseline received without committed cache reset'')
      else if snap_Baseline snap \<and> snap_Incremental snap
      then Some (EdgeError ''invalid baseline/incremental flags'')
      else if snap_Revision snap \<le> 0 then Some (EdgeError ''invalid identity revision'')
      else if snap_Baseline snap \<and>
              (case lastRevision s of None \<Rightarrow> False | Some previous \<Rightarrow> snap_Revision snap \<le> previous)
      then Some (EdgeError ''stale baseline page revision'')
      else if snap_Incremental snap
      then (case lastRevision s of
              None \<Rightarrow> Some (EdgeError ''incremental identity received before initial synchronization'')
            | Some previous \<Rightarrow>
                if snap_Revision snap \<le> previous
                then Some (EdgeError ''stale incremental identity revision'') else None)
      else None)"

definition revoke :: "(RuntimeLease \<Rightarrow> bool) \<Rightarrow> EdgeStore \<Rightarrow> EdgeStore" where
  "revoke P s = s\<lparr>edgeLeases := update_where (\<lambda>l. lease_Status l = ''active'' \<and> P l)
     (\<lambda>l. l\<lparr>lease_Status := ''revoked''\<rparr>) (edgeLeases s)\<rparr>"

text \<open>Rotation of a token revokes the leases issued under the old hash.\<close>

definition revoke_rotated :: "SnapshotToken \<Rightarrow> EdgeStore \<Rightarrow> EdgeStore" where
  "revoke_rotated t s =
     revoke (\<lambda>l. lease_TokenID l = sn_ID t \<and>
       list_ex (\<lambda>c. sn_ID c = sn_ID t \<and> sn_TokenHash c \<noteq> sn_TokenHash t) (cachedTokens s)) s"

definition drop_cached_user :: "int \<Rightarrow> EdgeStore \<Rightarrow> EdgeStore" where
  "drop_cached_user u s =
     s\<lparr>cachedUsers := delete_where (\<lambda>x. su_ID x = u) (cachedUsers s),
       cachedTokens := delete_where (\<lambda>t. sn_UserID t = u) (cachedTokens s),
       cachedPolicies := delete_where (\<lambda>p. policy_UserID p = u) (cachedPolicies s),
       cachedGrants := delete_where (\<lambda>g. list_ex (\<lambda>t. sn_ID t = grant_TokenID g \<and> sn_UserID t = u) (cachedTokens s)) (cachedGrants s),
       cachedDPIPolicies := delete_where (\<lambda>p. dpi_UserID p = u) (cachedDPIPolicies s)\<rparr>"

definition clear_identities :: "EdgeStore \<Rightarrow> EdgeStore" where
  "clear_identities s =
     s\<lparr>cachedUsers := [], cachedTokens := [], cachedPolicies := [], cachedGrants := [], cachedDPIPolicies := []\<rparr>"

definition touched_users :: "IdentitySnapshot \<Rightarrow> int list" where
  "touched_users snap = snap_RemovedUserIDs snap @ map su_ID (snap_Users snap)"

definition clear_replaced :: "IdentitySnapshot \<Rightarrow> EdgeStore \<Rightarrow> EdgeStore" where
  "clear_replaced snap s =
     (if snap_Incremental snap then fold drop_cached_user (touched_users snap) s
      else if \<not> snap_Baseline snap then clear_identities s
      else s)"

text \<open>
  The reason a node gives the users of a controller that does not enforce node access; the bytes
  are the UTF-8 text of the source.
\<close>

definition access_not_synced :: string where
  "access_not_synced = map char_of
     [0xE4, 0xB8, 0xAD, 0xE5, 0xBF, 0x83, 0xE5, 0xB0, 0x9A, 0xE6, 0x9C, 0xAA, 0xE5, 0x90, 0x8C, 0xE6,
      0xAD, 0xA5, 0xE8, 0x8A, 0x82, 0xE7, 0x82, 0xB9, 0xE6, 0x9D, 0x83, 0xE9, 0x99, 0x90, 0xEF, 0xBC,
      0x8C, 0xE8, 0xAF, 0xB7, 0xE5, 0x8D, 0x87, 0xE7, 0xBA, 0xA7, 0xE4, 0xB8, 0xAD, 0xE5, 0xBF, 0x83,
      0xE6, 0x9C, 0x8D, 0xE5, 0x8A, 0xA1, 0xE7, 0xAB, 0xAF :: nat]"

definition admitted_user :: "bool \<Rightarrow> SnapshotUser \<Rightarrow> SnapshotUser" where
  "admitted_user enforced u =
     (if enforced then u else u\<lparr>su_Status := ''banned'', su_BanReason := access_not_synced\<rparr>)"

definition insert_identities :: "IdentitySnapshot \<Rightarrow> EdgeStore \<Rightarrow> EdgeStore option" where
  "insert_identities snap s =
     (case (insert_rows (\<lambda>r x. su_ID r = su_ID x)
              (map (admitted_user (snap_NodeAccessEnforced snap)) (snap_Users snap)) (cachedUsers s),
            insert_rows (\<lambda>r x. sn_ID r = sn_ID x \<or> sn_TokenHash r = sn_TokenHash x) (snap_Tokens snap) (cachedTokens s),
            insert_rows (\<lambda>r x. policy_UserID r = policy_UserID x) (snap_Policies snap) (cachedPolicies s),
            insert_rows (\<lambda>r x. grant_ID r = grant_ID x) (snap_Grants snap) (cachedGrants s),
            insert_rows (\<lambda>r x. dpi_UserID r = dpi_UserID x) (snap_DPIPolicies snap) (cachedDPIPolicies s)) of
        (Some us, Some ts, Some ps, Some gs, Some ds) \<Rightarrow>
          Some (s\<lparr>cachedUsers := us, cachedTokens := ts, cachedPolicies := ps, cachedGrants := gs,
                  cachedDPIPolicies := ds\<rparr>)
      | _ \<Rightarrow> None)"

definition upsert_block :: "BlockedIP \<Rightarrow> BlockedIP list \<Rightarrow> BlockedIP list" where
  "upsert_block b bs =
     (if list_ex (\<lambda>x. blk_IP x = blk_IP b) bs
      then update_where (\<lambda>x. blk_IP x = blk_IP b) (\<lambda>x. x\<lparr>blk_Reason := blk_Reason b, blk_CreatedAt := blk_CreatedAt b\<rparr>) bs
      else bs @ [b])"

definition apply_blocks :: "IdentitySnapshot \<Rightarrow> EdgeStore \<Rightarrow> EdgeStore" where
  "apply_blocks snap s =
     (let old = (if snap_ReplaceBlockedIPs snap \<or>
                    \<not> snap_Incremental snap \<and> (\<not> snap_Baseline snap \<or> snap_BaselineEnd snap)
                 then [] else controllerBlocks s);
          added = fold upsert_block (snap_BlockedIPs snap) old
      in s\<lparr>controllerBlocks := delete_where (\<lambda>b. blk_IP b \<in> set (snap_RemovedBlockedIPs snap)) added\<rparr>)"

text \<open>The leases a completed snapshot leaves active.\<close>

definition token_live :: "julian \<Rightarrow> go_time \<Rightarrow> SnapshotToken \<Rightarrow> bool" where
  "token_live jd now t \<longleftrightarrow> sn_Status t = ''active'' \<and> (case sn_ExpiresAt t of None \<Rightarrow> True | Some e \<Rightarrow> jd now < jd e)"

definition lease_backed :: "julian \<Rightarrow> go_time \<Rightarrow> EdgeStore \<Rightarrow> RuntimeLease \<Rightarrow> bool" where
  "lease_backed jd now s l \<longleftrightarrow>
     list_ex (\<lambda>u. su_ID u = lease_UserID l \<and> su_Status u = ''active'' \<and> su_Role u = ''user'') (cachedUsers s) \<and>
     list_ex (\<lambda>p. policy_UserID p = lease_UserID l \<and> policy_Enabled p) (cachedPolicies s) \<and>
     list_ex (\<lambda>t. sn_ID t = lease_TokenID l \<and> sn_UserID t = lease_UserID l \<and> token_live jd now t) (cachedTokens s) \<and>
     list_all (\<lambda>(lid, h). lid = lease_LeaseID l \<longrightarrow>
       list_ex (\<lambda>t. sn_ID t = lease_TokenID l \<and> sn_TokenHash t = h) (cachedTokens s)) (leaseIssuers s)"

definition revoke_unbacked :: "julian \<Rightarrow> go_time \<Rightarrow> EdgeStore \<Rightarrow> EdgeStore" where
  "revoke_unbacked jd now s = revoke (\<lambda>l. \<not> lease_backed jd now s l) s"

definition reset_notices :: "IdentitySnapshot \<Rightarrow> EdgeStore \<Rightarrow> EdgeStore" where
  "reset_notices snap s =
     s\<lparr>edgeClients := update_where (\<lambda>c. \<not> snap_Incremental snap \<or> ec_UserID c \<in> set (touched_users snap))
        (\<lambda>c. c\<lparr>ec_DisconnectNotified := False\<rparr>) (edgeClients s)\<rparr>"

definition finish_snapshot :: "julian \<Rightarrow> go_time \<Rightarrow> IdentitySnapshot \<Rightarrow> EdgeStore \<Rightarrow> EdgeStore" where
  "finish_snapshot jd now snap s =
     (let s1 = apply_blocks snap s;
          s2 = (if \<not> snap_Baseline snap \<or> snap_BaselineEnd snap then revoke_unbacked jd now s1 else s1);
          s3 = reset_notices snap (s2\<lparr>lastRevision := Some (snap_Revision snap), lastSyncAt := Some now\<rparr>)
      in if \<not> snap_Incremental snap \<and> (\<not> snap_Baseline snap \<or> snap_BaselineEnd snap)
         then s3\<lparr>identityResetPending := False\<rparr> else s3)"

text \<open>\<open>None\<close> is a payload that does not decode.\<close>

definition ApplyIdentitySnapshot ::
  "julian \<Rightarrow> go_time \<Rightarrow> IdentitySnapshot option \<Rightarrow> EdgeStore \<Rightarrow> unit edge_result" where
  "ApplyIdentitySnapshot jd now payload s =
     (case payload of
        None \<Rightarrow> Inl (EdgeError ''invalid snapshot payload'')
      | Some snap \<Rightarrow>
          (case check_snapshot snap s of
             Some e \<Rightarrow> Inl e
           | None \<Rightarrow>
               (case insert_identities snap (clear_replaced snap (fold revoke_rotated (snap_Tokens snap) s)) of
                  None \<Rightarrow> Inl EdgeConstraint
                | Some s' \<Rightarrow> Inr ((), finish_snapshot jd now snap s'))))"

section \<open>Dropping the cache\<close>

definition resetIdentityCache :: "bool \<Rightarrow> EdgeStore \<Rightarrow> EdgeStore" where
  "resetIdentityCache boot s =
     (let s1 = clear_identities (s\<lparr>identityResetPending := True\<rparr>);
          s2 = (if boot
                then s1\<lparr>edgeClients := map (\<lambda>c. c\<lparr>ec_LastSeenAt := None, ec_FRPCRunning := False,
                          ec_DisconnectNotified := False\<rparr>) (edgeClients s1),
                        edgeLeases := [], leaseIssuers := [], edgeAllocations := [], edgeCommands := []\<rparr>
                else s1)
      in s2\<lparr>lastRevision := None, lastSyncAt := None, controllerBlocks := []\<rparr>)"

definition ResetIdentityCache :: "EdgeStore \<Rightarrow> EdgeStore" where
  "ResetIdentityCache s = resetIdentityCache True s"

definition DiscardControlIdentityCache :: "EdgeStore \<Rightarrow> EdgeStore" where
  "DiscardControlIdentityCache s = resetIdentityCache False s"

section \<open>Credentials\<close>

definition access_token_of :: "SnapshotToken \<Rightarrow> AccessToken" where
  "access_token_of t =
     \<lparr>token_ID = sn_ID t, token_UserID = sn_UserID t, token_Name = sn_Name t, token_TokenHash = sn_TokenHash t,
      token_TokenPrefix = [], token_PlainToken = [], token_Status = sn_Status t, token_BanReason = sn_BanReason t,
      token_MaxProxyCount = sn_MaxProxyCount t, token_ExpiresAt = sn_ExpiresAt t, token_CreatedAt = 0,
      token_UpdatedAt = 0\<rparr>"

definition user_of :: "SnapshotUser \<Rightarrow> User" where
  "user_of u =
     \<lparr>user_ID = su_ID u, user_Username = su_Username u, user_DisplayName = [], user_PasswordHash = [],
      user_Role = su_Role u, user_Status = su_Status u, user_BanReason = su_BanReason u, user_CreatedAt = 0,
      user_UpdatedAt = 0\<rparr>"

definition client_of :: "EdgeClient \<Rightarrow> Client" where
  "client_of c =
     \<lparr>client_ID = ec_ID c, client_UserID = ec_UserID c, client_TokenID = ec_TokenID c, client_ClientID = ec_ClientID c,
      client_Status = ec_Status c, client_BanReason = ec_BanReason c, client_FrpcAddr = [], client_FRPCRunning = False,
      client_LastSeenAt = ec_LastSeenAt c\<rparr>"

definition find_client :: "int \<Rightarrow> string \<Rightarrow> EdgeStore \<Rightarrow> EdgeClient option" where
  "find_client tokenID clientID s = find (\<lambda>c. ec_TokenID c = tokenID \<and> ec_ClientID c = clientID) (edgeClients s)"

definition insert_client :: "int \<Rightarrow> int \<Rightarrow> string \<Rightarrow> EdgeStore \<Rightarrow> EdgeStore" where
  "insert_client userID tokenID clientID s =
     (case find_client tokenID clientID s of
        Some _ \<Rightarrow> s
      | None \<Rightarrow> s\<lparr>edgeClients := edgeClients s @
           [\<lparr>ec_ID = nextEdgeClientID s, ec_UserID = userID, ec_TokenID = tokenID, ec_ClientID = clientID,
             ec_Status = ''active'', ec_BanReason = [], ec_LastSeenAt = None, ec_FRPCRunning = False,
             ec_DisconnectNotified = False\<rparr>],
           nextEdgeClientID := nextEdgeClientID s + 1\<rparr>)"

definition Credential ::
  "string \<Rightarrow> string \<Rightarrow> bool \<Rightarrow> EdgeStore \<Rightarrow> (AccessToken \<times> User \<times> Client) edge_result" where
  "Credential tokenHash clientID create s =
     (case find (\<lambda>t. sn_TokenHash t = tokenHash) (cachedTokens s) of
        None \<Rightarrow> Inl EdgeNoRows
      | Some t \<Rightarrow>
          (case find (\<lambda>u. su_ID u = sn_UserID t) (cachedUsers s) of
             None \<Rightarrow> Inl EdgeNoRows
           | Some u \<Rightarrow>
               (let s' = (if create then insert_client (su_ID u) (sn_ID t) clientID s else s)
                in case find_client (sn_ID t) clientID s' of
                     None \<Rightarrow> Inl EdgeNoRows
                   | Some c \<Rightarrow> Inr ((access_token_of t, user_of u, client_of c), s'))))"

definition ValidateCredential :: "go_time \<Rightarrow> AccessToken \<Rightarrow> User \<Rightarrow> Client \<Rightarrow> string option" where
  "ValidateCredential now t u c =
     (if user_Role u \<noteq> ''user'' \<or> user_Status u \<noteq> ''active''
      then Some (if user_BanReason u \<noteq> [] then user_BanReason u else ''user is not active'')
      else if token_Status t \<noteq> ''active''
      then Some (if token_BanReason t \<noteq> [] then token_BanReason t else ''token is not active'')
      else if (case token_ExpiresAt t of None \<Rightarrow> False | Some e \<Rightarrow> time_after now e) then Some ''token expired''
      else if client_Status c \<noteq> ''active'' then Some (TrimSpace (client_BanReason c))
      else None)"

text \<open>\<open>Policy\<close> returns the zero policy beside an error, \<open>Grants\<close> the rows in table order.\<close>

definition Policy_edge :: "int \<Rightarrow> EdgeStore \<Rightarrow> UserResourcePolicy option" where
  "Policy_edge userID s = find (\<lambda>p. policy_UserID p = userID) (cachedPolicies s)"

definition Grants :: "int \<Rightarrow> EdgeStore \<Rightarrow> PortGrant list" where
  "Grants tokenID s = filter (\<lambda>g. grant_TokenID g = tokenID) (cachedGrants s)"

definition GetPolicy_edge :: "int \<Rightarrow> EdgeStore \<Rightarrow> policy_error + Policy" where
  "GetPolicy_edge userID s =
     (if identityResetPending s then Inl ErrPolicySynchronizing
      else if userID \<le> 0 then Inr DefaultPolicy
      else case find (\<lambda>p. dpi_UserID p = userID) (cachedDPIPolicies s) of
             None \<Rightarrow> Inr DefaultPolicy
           | Some p \<Rightarrow> Inr p)"

section \<open>Presence\<close>

definition TouchClient :: "go_time \<Rightarrow> int \<Rightarrow> bool \<Rightarrow> EdgeStore \<Rightarrow> EdgeStore" where
  "TouchClient now cid running s =
     s\<lparr>edgeClients := update_where (\<lambda>c. ec_ID c = cid)
        (\<lambda>c. c\<lparr>ec_LastSeenAt := Some now, ec_FRPCRunning := running\<rparr>) (edgeClients s)\<rparr>"

definition TouchClientSeen :: "go_time \<Rightarrow> int \<Rightarrow> EdgeStore \<Rightarrow> EdgeStore" where
  "TouchClientSeen now cid s =
     s\<lparr>edgeClients := update_where (\<lambda>c. ec_ID c = cid)
        (\<lambda>c. c\<lparr>ec_LastSeenAt := Some now, ec_DisconnectNotified := False\<rparr>) (edgeClients s)\<rparr>"

definition ClientFresh :: "go_time \<Rightarrow> int \<Rightarrow> int \<Rightarrow> EdgeStore \<Rightarrow> bool" where
  "ClientFresh now cid seconds s =
     (case find (\<lambda>c. ec_ID c = cid) (edgeClients s) of
        None \<Rightarrow> False
      | Some c \<Rightarrow> (case ec_LastSeenAt c of None \<Rightarrow> False | Some t \<Rightarrow> time_sub now t \<le> seconds * second))"

definition RuntimeClientFresh :: "go_time \<Rightarrow> int \<Rightarrow> string \<Rightarrow> int \<Rightarrow> EdgeStore \<Rightarrow> bool" where
  "RuntimeClientFresh now tokenID clientID seconds s =
     (case find (\<lambda>c. ec_TokenID c = tokenID \<and> ec_ClientID c = clientID \<and> ec_Status c = ''active'') (edgeClients s) of
        None \<Rightarrow> False
      | Some c \<Rightarrow> ClientFresh now (ec_ID c) seconds s)"

definition ClearClient :: "int \<Rightarrow> EdgeStore \<Rightarrow> EdgeStore" where
  "ClearClient cid s =
     s\<lparr>edgeClients := update_where (\<lambda>c. ec_ID c = cid)
        (\<lambda>c. c\<lparr>ec_LastSeenAt := None, ec_FRPCRunning := False, ec_DisconnectNotified := False\<rparr>) (edgeClients s)\<rparr>"

definition StaleClients :: "julian \<Rightarrow> go_time \<Rightarrow> EdgeStore \<Rightarrow> Client list" where
  "StaleClients jd cutoff s =
     map client_of (filter (\<lambda>c. ec_Status c = ''active'' \<and>
       (case ec_LastSeenAt c of None \<Rightarrow> True | Some t \<Rightarrow> jd t < jd cutoff)) (edgeClients s))"

definition DisconnectWarning :: "int \<Rightarrow> EdgeStore \<Rightarrow> bool \<times> EdgeStore" where
  "DisconnectWarning cid s =
     (let P = (\<lambda>c. ec_ID c = cid \<and> \<not> ec_DisconnectNotified c)
      in (count_where P (edgeClients s) > 0,
          s\<lparr>edgeClients := update_where P (\<lambda>c. c\<lparr>ec_DisconnectNotified := True\<rparr>) (edgeClients s)\<rparr>))"

section \<open>Leases\<close>

definition RuntimeAuthorized :: "go_time \<Rightarrow> int \<Rightarrow> int \<Rightarrow> EdgeStore \<Rightarrow> edge_error option" where
  "RuntimeAuthorized now userID tokenID s =
     (case find (\<lambda>u. su_ID u = userID) (cachedUsers s) of
        None \<Rightarrow> Some EdgeNoRows
      | Some u \<Rightarrow>
          (case find (\<lambda>t. sn_ID t = tokenID \<and> sn_UserID t = userID) (cachedTokens s) of
             None \<Rightarrow> Some EdgeNoRows
           | Some t \<Rightarrow>
               if su_Status u \<noteq> ''active'' \<or> su_Role u \<noteq> ''user''
               then Some (EdgeError (if su_BanReason u \<noteq> [] then su_BanReason u else ''user is not active''))
               else if sn_Status t \<noteq> ''active''
               then Some (EdgeError (if sn_BanReason t \<noteq> [] then sn_BanReason t else ''token is not active''))
               else (case sn_ExpiresAt t of
                       None \<Rightarrow> None
                     | Some e \<Rightarrow> if \<not> time_before now e then Some (EdgeError ''token expired or invalid expiry'') else None)))"

definition RuntimeConnectionAuthorized ::
  "julian \<Rightarrow> go_time \<Rightarrow> int \<Rightarrow> int \<Rightarrow> string \<Rightarrow> EdgeStore \<Rightarrow> edge_error option" where
  "RuntimeConnectionAuthorized jd now userID tokenID leaseID s =
     (case RuntimeAuthorized now userID tokenID s of
        Some e \<Rightarrow> Some e
      | None \<Rightarrow>
          if count_where (\<lambda>l. lease_LeaseID l = leaseID \<and> lease_UserID l = userID \<and> lease_TokenID l = tokenID \<and>
               lease_Status l = ''active'' \<and> jd now < jd (lease_ExpiresAt l)) (edgeLeases s) \<noteq> 1
          then Some (EdgeError ''runtime lease revoked or expired after identity update'') else None)"

definition edge_allocation_row :: "string \<Rightarrow> ProxyAllocationInput \<Rightarrow> ProxyAllocation" where
  "edge_allocation_row leaseID a =
     \<lparr>alloc_ID = 0, alloc_LeaseID = leaseID, alloc_ProxyName = pin_ProxyName a, alloc_ProxyType = pin_ProxyType a,
      alloc_LocalIP = pin_LocalIP a, alloc_LocalPort = pin_LocalPort a, alloc_RemotePort = pin_RemotePort a,
      alloc_Domain = pin_Domain a, alloc_Subdomain = pin_Subdomain a\<rparr>"

definition CreateLease :: "RuntimeLease \<Rightarrow> ProxyAllocationInput list \<Rightarrow> EdgeStore \<Rightarrow> unit edge_result" where
  "CreateLease lease allocations s =
     (if identityResetPending s then Inl (EdgeError ''identity cache is synchronizing; retry later'')
      else
        (let s1 = revoke (\<lambda>l. lease_TokenID l = lease_TokenID lease \<and> lease_ClientID l = lease_ClientID lease) s
         in case insert_rows (\<lambda>r x. lease_LeaseID r = lease_LeaseID x \<or> lease_RuntimeTokenHash r = lease_RuntimeTokenHash x)
                   [lease\<lparr>lease_ID := 0, lease_Status := ''active''\<rparr>] (edgeLeases s1) of
              None \<Rightarrow> Inl EdgeConstraint
            | Some leases \<Rightarrow>
                (let issuers = map (\<lambda>t. (lease_LeaseID lease, sn_TokenHash t))
                       (filter (\<lambda>t. sn_ID t = lease_TokenID lease) (cachedTokens s1))
                 in if list_ex (\<lambda>(lid, _). lid = lease_LeaseID lease) (leaseIssuers s1) \<and> issuers \<noteq> [] then Inl EdgeConstraint
                    else if length issuers \<noteq> 1 then Inl (EdgeError ''lease issuer identity unavailable'')
                    else case insert_rows (\<lambda>r x. alloc_LeaseID r = alloc_LeaseID x \<and> alloc_ProxyName r = alloc_ProxyName x)
                                (map (edge_allocation_row (lease_LeaseID lease)) allocations) (edgeAllocations s1) of
                           None \<Rightarrow> Inl EdgeConstraint
                         | Some allocs \<Rightarrow>
                             Inr ((), s1\<lparr>edgeLeases := leases, leaseIssuers := leaseIssuers s1 @ issuers,
                                        edgeAllocations := allocs\<rparr>))))"

definition RuntimeLease_edge :: "string \<Rightarrow> EdgeStore \<Rightarrow> RuntimeLease option" where
  "RuntimeLease_edge hash s = find (\<lambda>l. lease_RuntimeTokenHash l = hash) (edgeLeases s)"

definition AllocationExists ::
  "string \<Rightarrow> string \<Rightarrow> string \<Rightarrow> int \<Rightarrow> string \<Rightarrow> string \<Rightarrow> EdgeStore \<Rightarrow> bool" where
  "AllocationExists leaseID name kind port domain subdomain s \<longleftrightarrow>
     count_where (\<lambda>a. alloc_LeaseID a = leaseID \<and> alloc_ProxyName a = name \<and> alloc_ProxyType a = kind \<and>
       alloc_RemotePort a = port \<and> alloc_Domain a = domain \<and> alloc_Subdomain a = subdomain) (edgeAllocations s) > 0"

definition RemotePortInUseExceptClient_edge ::
  "julian \<Rightarrow> go_time \<Rightarrow> string \<Rightarrow> int \<Rightarrow> int \<Rightarrow> string \<Rightarrow> EdgeStore \<Rightarrow> bool" where
  "RemotePortInUseExceptClient_edge jd now protocol port tokenID clientID s \<longleftrightarrow>
     list_ex (\<lambda>a. alloc_ProxyType a = protocol \<and> alloc_RemotePort a = port \<and>
       list_ex (\<lambda>l. lease_LeaseID l = alloc_LeaseID a \<and> lease_Status l = ''active'' \<and> jd now < jd (lease_ExpiresAt l) \<and>
         \<not> (lease_TokenID l = tokenID \<and> lease_ClientID l = clientID)) (edgeLeases s)) (edgeAllocations s)"

definition RemotePortInUse_edge :: "julian \<Rightarrow> go_time \<Rightarrow> string \<Rightarrow> int \<Rightarrow> EdgeStore \<Rightarrow> bool" where
  "RemotePortInUse_edge jd now protocol port s = RemotePortInUseExceptClient_edge jd now protocol port 0 [] s"

definition RevokeClient :: "int \<Rightarrow> string \<Rightarrow> EdgeStore \<Rightarrow> EdgeStore" where
  "RevokeClient tokenID clientID s = revoke (\<lambda>l. lease_TokenID l = tokenID \<and> lease_ClientID l = clientID) s"

definition ReleaseRuntimeLease_edge :: "string \<Rightarrow> int \<Rightarrow> string \<Rightarrow> EdgeStore \<Rightarrow> bool \<times> EdgeStore" where
  "ReleaseRuntimeLease_edge leaseID tokenID clientID s =
     (let P = (\<lambda>l. lease_LeaseID l = leaseID \<and> lease_TokenID l = tokenID \<and> lease_ClientID l = clientID)
      in (count_where (\<lambda>l. lease_Status l = ''active'' \<and> P l) (edgeLeases s) > 0, revoke P s))"

section \<open>Outbound events\<close>

definition maxQueuedTelemetryEvents :: nat where
  "maxQueuedTelemetryEvents = 5000"

text \<open>\<open>id NOT IN (SELECT id ... ORDER BY id DESC LIMIT n)\<close> on the rows that satisfy \<open>P\<close>.\<close>

definition newest_ids :: "nat \<Rightarrow> (OutboundEvent \<Rightarrow> bool) \<Rightarrow> OutboundEvent list \<Rightarrow> int list" where
  "newest_ids n P rows = take n (rev (sort (map oe_ID (filter P rows))))"

definition keep_newest :: "string \<Rightarrow> OutboundEvent list \<Rightarrow> OutboundEvent list" where
  "keep_newest kind rows =
     delete_where (\<lambda>e. oe_EventType e = kind \<and>
       oe_ID e \<notin> set (newest_ids maxQueuedTelemetryEvents (\<lambda>x. oe_EventType x = kind) rows)) rows"

definition QueueEvent :: "go_time \<Rightarrow> string \<Rightarrow> string \<Rightarrow> string \<Rightarrow> EdgeStore \<Rightarrow> EdgeStore" where
  "QueueEvent db_now eventID eventType payload s =
     (if eventType = ''dpi_event'' \<and> dpiEventsEnabled s = Some False then s
      else
        (let s1 = (if list_ex (\<lambda>e. oe_EventID e = eventID) (outboundEvents s) then s
                   else s\<lparr>outboundEvents := outboundEvents s @
                          [\<lparr>oe_ID = nextEventID s, oe_EventID = eventID, oe_EventType = eventType, oe_Payload = payload,
                            oe_CreatedAt = db_now, oe_Acknowledged = False\<rparr>],
                        nextEventID := nextEventID s + 1\<rparr>)
         in if eventType = ''runtime_log'' \<or> eventType = ''dpi_event''
            then s1\<lparr>outboundEvents := keep_newest eventType (outboundEvents s1)\<rparr> else s1))"

definition SetDPIEventReporting :: "bool option \<Rightarrow> EdgeStore \<Rightarrow> EdgeStore" where
  "SetDPIEventReporting enabled s = s\<lparr>dpiEventsEnabled := enabled\<rparr>"

definition PruneDisabledDPIEvents :: "EdgeStore \<Rightarrow> EdgeStore" where
  "PruneDisabledDPIEvents s =
     (if dpiEventsEnabled s \<noteq> Some False then s
      else s\<lparr>outboundEvents := delete_where (\<lambda>e. oe_EventType e = ''dpi_event'') (outboundEvents s)\<rparr>)"

definition envelope_of :: "OutboundEvent \<Rightarrow> EventEnvelope" where
  "envelope_of e = \<lparr>env_EventID = oe_EventID e, env_EventType = oe_EventType e, env_Payload = oe_Payload e,
                    env_CreatedAt = oe_CreatedAt e\<rparr>"

definition pendingEvents :: "string list \<Rightarrow> EdgeStore \<Rightarrow> EventEnvelope list" where
  "pendingEvents types s =
     take 100 (map envelope_of (sort_key oe_ID (filter (\<lambda>e. \<not> oe_Acknowledged e \<and>
       (types = [] \<or> oe_EventType e \<in> set types)) (outboundEvents s))))"

definition PendingEvents :: "EdgeStore \<Rightarrow> EventEnvelope list" where
  "PendingEvents s = pendingEvents [] s"

definition PendingEventsForTypes :: "string list \<Rightarrow> EdgeStore \<Rightarrow> EventEnvelope list" where
  "PendingEventsForTypes types s = (if types = [] then [] else pendingEvents types s)"

definition AcknowledgeEvents :: "string list \<Rightarrow> EdgeStore \<Rightarrow> EdgeStore" where
  "AcknowledgeEvents ids s =
     (let rows = update_where (\<lambda>e. oe_EventID e \<in> set ids) (\<lambda>e. e\<lparr>oe_Acknowledged := True\<rparr>) (outboundEvents s)
      in s\<lparr>outboundEvents := delete_where (\<lambda>e. oe_Acknowledged e \<and> oe_ID e \<notin> set (newest_ids 1000 (\<lambda>x. True) rows)) rows\<rparr>)"

definition HeartbeatPayload :: "go_time \<Rightarrow> EdgeStore \<Rightarrow> ClientPresence list \<times> nat" where
  "HeartbeatPayload now s =
     (map (\<lambda>c. \<lparr>pres_UserID = ec_UserID c, pres_TokenID = ec_TokenID c, pres_ClientID = ec_ClientID c,
                 pres_FRPCRunning = ec_FRPCRunning c, pres_LastSeenAt = ec_LastSeenAt c\<rparr>)
        (filter (\<lambda>c. ec_Status c = ''active'' \<and>
          (case ec_LastSeenAt c of None \<Rightarrow> False | Some t \<Rightarrow> \<not> time_sub now t > 60 * second)) (edgeClients s)),
      count_where (\<lambda>e. \<not> oe_Acknowledged e) (outboundEvents s))"

section \<open>Commands of the controller\<close>

definition idempotent_commands :: "string list" where
  "idempotent_commands =
     [''update_edge_runtime_settings'', ''update_edge_permissions'', ''update_edge_advanced_settings'', ''block_ip'',
      ''unblock_ip'', ''disconnect_client'', ''disconnect_connection'', ''reset_frp_tls'']"

text \<open>Whether the command is to be executed, and otherwise the result to repeat.\<close>

definition BeginCommand :: "NodeCommand \<Rightarrow> EdgeStore \<Rightarrow> (bool \<times> CommandResult option) \<times> EdgeStore" where
  "BeginCommand command s =
     (case find (\<lambda>r. rc_CommandID r = ncmd_CommandID command) (receivedCommands s) of
        Some r \<Rightarrow>
          if rc_Status r = ''executing'' \<and> ncmd_Command command \<in> set idempotent_commands then ((True, None), s)
          else ((False, Some
            (case (rc_Status r = ''executing'', rc_Result r) of
               (False, Some cached) \<Rightarrow> cached
             | _ \<Rightarrow> \<lparr>res_CommandID = ncmd_CommandID command, res_Status = ''failed'', res_Result = [],
                     res_Error = ''previous command execution did not complete''\<rparr>)), s)
      | None \<Rightarrow>
          ((True, None), s\<lparr>receivedCommands := receivedCommands s @
             [\<lparr>rc_CommandID = ncmd_CommandID command, rc_CommandType = ncmd_Command command,
               rc_Payload = ncmd_Payload command, rc_Status = ''executing'', rc_Result = None\<rparr>]\<rparr>))"

definition FinishCommand :: "CommandResult \<Rightarrow> EdgeStore \<Rightarrow> EdgeStore" where
  "FinishCommand result s =
     s\<lparr>receivedCommands := update_where (\<lambda>r. rc_CommandID r = res_CommandID result)
        (\<lambda>r. r\<lparr>rc_Status := res_Status result, rc_Result := Some result\<rparr>) (receivedCommands s)\<rparr>"

text \<open>The revision is the decoded \<open>_configuration_revision\<close> (0 when absent), \<open>None\<close> when the payload does not decode.\<close>

definition configuration_kinds :: "string list" where
  "configuration_kinds =
     [''update_edge_runtime_settings'', ''update_edge_permissions'', ''update_edge_advanced_settings'']"

definition ConfigurationSuperseded :: "string \<Rightarrow> int option \<Rightarrow> EdgeStore \<Rightarrow> edge_error + bool" where
  "ConfigurationSuperseded kind revision s =
     (if kind \<notin> set configuration_kinds then Inr False
      else case revision of
             None \<Rightarrow> Inl (EdgeError ''invalid command payload'')
           | Some r \<Rightarrow>
               (case map_of (configurationRevisions s) kind of
                  None \<Rightarrow> Inr False
                | Some applied \<Rightarrow> Inr (applied > 0 \<and> r < applied)))"

definition ConfirmConfiguration :: "string \<Rightarrow> int option \<Rightarrow> EdgeStore \<Rightarrow> unit edge_result" where
  "ConfirmConfiguration kind revision s =
     (if kind \<notin> set configuration_kinds then Inr ((), s)
      else case revision of
             None \<Rightarrow> Inl (EdgeError ''invalid command payload'')
           | Some r \<Rightarrow>
               Inr ((), s\<lparr>configurationRevisions := AList.update kind
                  (case map_of (configurationRevisions s) kind of None \<Rightarrow> r | Some old \<Rightarrow> max old r)
                  (configurationRevisions s)\<rparr>))"

definition push_command :: "int \<Rightarrow> string \<Rightarrow> string \<Rightarrow> EdgeStore \<Rightarrow> EdgeStore" where
  "push_command row command message s =
     s\<lparr>edgeCommands := edgeCommands s @
        [\<lparr>eq_ID = nextEdgeCommandID s, eq_ClientRowID = row, eq_Command = command, eq_Message = message, eq_Status = ''queued''\<rparr>],
      nextEdgeCommandID := nextEdgeCommandID s + 1\<rparr>"

definition DisconnectClientForCommand ::
  "string \<Rightarrow> int \<Rightarrow> string \<Rightarrow> string \<Rightarrow> EdgeStore \<Rightarrow> string list edge_result" where
  "DisconnectClientForCommand commandID tokenID clientID reason s =
     (case map_of (disconnectEffects s) commandID of
        Some ids \<Rightarrow> Inr (ids, s)
      | None \<Rightarrow>
          (case find_client tokenID clientID s of
             None \<Rightarrow> Inl EdgeNoRows
           | Some c \<Rightarrow>
               (let ids = map lease_LeaseID (filter (\<lambda>l. lease_TokenID l = tokenID \<and> lease_ClientID l = clientID \<and>
                            lease_Status l = ''active'') (edgeLeases s));
                    s1 = push_command (ec_ID c) ''reauth'' reason (RevokeClient tokenID clientID s)
                in Inr (ids, s1\<lparr>disconnectEffects := disconnectEffects s1 @ [(commandID, ids)]\<rparr>))))"

section \<open>Bans\<close>

definition UpsertBlockedIP :: "go_time \<Rightarrow> string \<Rightarrow> string \<Rightarrow> EdgeStore \<Rightarrow> EdgeStore" where
  "UpsertBlockedIP now ip reason s =
     (let row = \<lparr>lb_IP = ip, lb_Reason = reason, lb_Source = ''controller_command'', lb_CreatedAt = now\<rparr>
      in s\<lparr>localBlocks :=
            (if list_ex (\<lambda>b. lb_IP b = ip) (localBlocks s)
             then update_where (\<lambda>b. lb_IP b = ip) (\<lambda>b. row) (localBlocks s)
             else localBlocks s @ [row])\<rparr>)"

definition DeleteBlockedIP :: "string \<Rightarrow> EdgeStore \<Rightarrow> EdgeStore" where
  "DeleteBlockedIP ip s = s\<lparr>localBlocks := delete_where (\<lambda>b. lb_IP b = ip) (localBlocks s)\<rparr>"

definition ListBlockedIPs :: "EdgeStore \<Rightarrow> BlockedIP list" where
  "ListBlockedIPs s =
     map (\<lambda>b. b\<lparr>blk_CreatedBy := 0\<rparr>) (controllerBlocks s) @
     map (\<lambda>b. \<lparr>blk_IP = lb_IP b, blk_Reason = lb_Reason b, blk_CreatedBy = 0, blk_CreatedAt = lb_CreatedAt b\<rparr>)
       (filter (\<lambda>b. \<not> list_ex (\<lambda>x. blk_IP x = lb_IP b) (controllerBlocks s)) (localBlocks s))"

section \<open>Commands to clients\<close>

definition EnqueueClientCommand_edge :: "int \<Rightarrow> string \<Rightarrow> string \<Rightarrow> string \<Rightarrow> EdgeStore \<Rightarrow> unit edge_result" where
  "EnqueueClientCommand_edge tokenID clientID command message s =
     (case find_client tokenID clientID s of
        None \<Rightarrow> Inl EdgeNoRows
      | Some c \<Rightarrow> Inr ((), push_command (ec_ID c) command message s))"

definition PopClientCommands :: "int \<Rightarrow> EdgeStore \<Rightarrow> (int \<times> string \<times> string) list \<times> EdgeStore" where
  "PopClientCommands row s =
     (let due = sort_key eq_ID (filter (\<lambda>q. eq_ClientRowID q = row \<and> eq_Status q \<in> {''queued'', ''delivered''}) (edgeCommands s))
      in (map (\<lambda>q. (eq_ID q, eq_Command q, eq_Message q)) due,
          s\<lparr>edgeCommands := update_where (\<lambda>q. eq_ID q \<in> set (map eq_ID due) \<and> eq_Status q = ''queued'')
             (\<lambda>q. q\<lparr>eq_Status := ''delivered''\<rparr>) (edgeCommands s)\<rparr>))"

definition AcknowledgeClientCommand_edge :: "int \<Rightarrow> int \<Rightarrow> EdgeStore \<Rightarrow> unit edge_result" where
  "AcknowledgeClientCommand_edge commandID row s =
     (let P = (\<lambda>q. eq_ID q = commandID \<and> eq_ClientRowID q = row \<and>
                 eq_Status q \<in> {''queued'', ''delivered'', ''acknowledged''})
      in if count_where P (edgeCommands s) = 0 then Inl EdgeNoRows
         else Inr ((), s\<lparr>edgeCommands := update_where P (\<lambda>q. q\<lparr>eq_Status := ''acknowledged''\<rparr>) (edgeCommands s)\<rparr>))"

definition DeleteUnacknowledgedClientCommands :: "int \<Rightarrow> EdgeStore \<Rightarrow> nat \<times> EdgeStore" where
  "DeleteUnacknowledgedClientCommands row s =
     (let P = (\<lambda>q. eq_ClientRowID q = row \<and> eq_Status q \<in> {''queued'', ''delivered''})
      in (count_where P (edgeCommands s), s\<lparr>edgeCommands := delete_where P (edgeCommands s)\<rparr>))"

end
