(* ===== verification/Edge_Steps.thy ===== *)
theory Edge_Steps
  imports Edge_Store
begin

text \<open>
  The edge store as a transition system: every operation is a value of \<open>edge_op\<close>, the invariant of
  its tables holds in every reachable store, and what the operations keep or lose of leases,
  commands and events follows from it.
\<close>

section \<open>All operations\<close>

datatype edge_op =
    EO_ApplyIdentitySnapshot "IdentitySnapshot option"
  | EO_ResetIdentityCache
  | EO_DiscardControlIdentityCache
  | EO_Credential string string bool
  | EO_TouchClient int bool
  | EO_TouchClientSeen int
  | EO_ClearClient int
  | EO_DisconnectWarning int
  | EO_CreateLease RuntimeLease "ProxyAllocationInput list"
  | EO_RevokeClient int string
  | EO_ReleaseRuntimeLease string int string
  | EO_QueueEvent string string string
  | EO_SetDPIEventReporting "bool option"
  | EO_PruneDisabledDPIEvents
  | EO_AcknowledgeEvents "string list"
  | EO_BeginCommand NodeCommand
  | EO_FinishCommand CommandResult
  | EO_ConfirmConfiguration string "int option"
  | EO_DisconnectClientForCommand string int string string
  | EO_UpsertBlockedIP string string
  | EO_DeleteBlockedIP string
  | EO_EnqueueClientCommand int string string string
  | EO_PopClientCommands int
  | EO_AcknowledgeClientCommand int int
  | EO_DeleteUnacknowledgedClientCommands int

definition edge_commit :: "EdgeStore \<Rightarrow> 'a edge_result \<Rightarrow> EdgeStore" where
  "edge_commit s r = (case r of Inl _ \<Rightarrow> s | Inr (_, s') \<Rightarrow> s')"

fun edge_exec :: "julian \<Rightarrow> go_time \<Rightarrow> edge_op \<Rightarrow> EdgeStore \<Rightarrow> EdgeStore" where
  "edge_exec jd t (EO_ApplyIdentitySnapshot p) s = edge_commit s (ApplyIdentitySnapshot jd t p s)"
| "edge_exec jd t EO_ResetIdentityCache s = ResetIdentityCache s"
| "edge_exec jd t EO_DiscardControlIdentityCache s = DiscardControlIdentityCache s"
| "edge_exec jd t (EO_Credential h c b) s = edge_commit s (Credential h c b s)"
| "edge_exec jd t (EO_TouchClient c b) s = TouchClient t c b s"
| "edge_exec jd t (EO_TouchClientSeen c) s = TouchClientSeen t c s"
| "edge_exec jd t (EO_ClearClient c) s = ClearClient c s"
| "edge_exec jd t (EO_DisconnectWarning c) s = snd (DisconnectWarning c s)"
| "edge_exec jd t (EO_CreateLease l as) s = edge_commit s (CreateLease l as s)"
| "edge_exec jd t (EO_RevokeClient k c) s = RevokeClient k c s"
| "edge_exec jd t (EO_ReleaseRuntimeLease l k c) s = snd (ReleaseRuntimeLease_edge l k c s)"
| "edge_exec jd t (EO_QueueEvent i k p) s = QueueEvent t i k p s"
| "edge_exec jd t (EO_SetDPIEventReporting b) s = SetDPIEventReporting b s"
| "edge_exec jd t EO_PruneDisabledDPIEvents s = PruneDisabledDPIEvents s"
| "edge_exec jd t (EO_AcknowledgeEvents ids) s = AcknowledgeEvents ids s"
| "edge_exec jd t (EO_BeginCommand c) s = snd (BeginCommand c s)"
| "edge_exec jd t (EO_FinishCommand r) s = FinishCommand r s"
| "edge_exec jd t (EO_ConfirmConfiguration k r) s = edge_commit s (ConfirmConfiguration k r s)"
| "edge_exec jd t (EO_DisconnectClientForCommand i k c r) s = edge_commit s (DisconnectClientForCommand i k c r s)"
| "edge_exec jd t (EO_UpsertBlockedIP ip r) s = UpsertBlockedIP t ip r s"
| "edge_exec jd t (EO_DeleteBlockedIP ip) s = DeleteBlockedIP ip s"
| "edge_exec jd t (EO_EnqueueClientCommand k c q m) s = edge_commit s (EnqueueClientCommand_edge k c q m s)"
| "edge_exec jd t (EO_PopClientCommands c) s = snd (PopClientCommands c s)"
| "edge_exec jd t (EO_AcknowledgeClientCommand q c) s = edge_commit s (AcknowledgeClientCommand_edge q c s)"
| "edge_exec jd t (EO_DeleteUnacknowledgedClientCommands c) s = snd (DeleteUnacknowledgedClientCommands c s)"

inductive edge_step :: "julian \<Rightarrow> EdgeStore \<Rightarrow> EdgeStore \<Rightarrow> bool" for jd where
  edge_step: "edge_step jd s (edge_exec jd t op s)"

definition empty_edge :: EdgeStore where
  "empty_edge =
     \<lparr>identityResetPending = False, dpiEventsEnabled = None, configurationRevisions = [], lastRevision = None,
      lastSyncAt = None, outboundEvents = [], nextEventID = 1, receivedCommands = [], disconnectEffects = [],
      cachedUsers = [], cachedTokens = [], cachedPolicies = [], cachedGrants = [], cachedDPIPolicies = [],
      edgeClients = [], nextEdgeClientID = 1, edgeLeases = [], leaseIssuers = [], edgeAllocations = [],
      localBlocks = [], controllerBlocks = [], edgeCommands = [], nextEdgeCommandID = 1\<rparr>"

section \<open>The invariant of the tables\<close>

definition cache_wf :: "EdgeStore \<Rightarrow> bool" where
  "cache_wf s \<longleftrightarrow>
     distinct (map su_ID (cachedUsers s)) \<and> distinct (map sn_ID (cachedTokens s)) \<and>
     distinct (map sn_TokenHash (cachedTokens s)) \<and> distinct (map policy_UserID (cachedPolicies s)) \<and>
     distinct (map grant_ID (cachedGrants s)) \<and> distinct (map dpi_UserID (cachedDPIPolicies s))"

definition edge_client_key :: "EdgeClient \<Rightarrow> int \<times> string" where
  "edge_client_key c = (ec_TokenID c, ec_ClientID c)"

definition clients_wf :: "EdgeStore \<Rightarrow> bool" where
  "clients_wf s \<longleftrightarrow>
     distinct (map ec_ID (edgeClients s)) \<and> distinct (map edge_client_key (edgeClients s)) \<and>
     list_all (\<lambda>c. ec_ID c < nextEdgeClientID s) (edgeClients s)"

definition active_client_keys :: "RuntimeLease list \<Rightarrow> (int \<times> string) list" where
  "active_client_keys ls =
     map (\<lambda>l. (lease_TokenID l, lease_ClientID l)) (filter (\<lambda>l. lease_Status l = ''active'') ls)"

definition edge_alloc_key :: "ProxyAllocation \<Rightarrow> string \<times> string" where
  "edge_alloc_key a = (alloc_LeaseID a, alloc_ProxyName a)"

definition leases_wf :: "EdgeStore \<Rightarrow> bool" where
  "leases_wf s \<longleftrightarrow>
     distinct (map lease_LeaseID (edgeLeases s)) \<and> distinct (map lease_RuntimeTokenHash (edgeLeases s)) \<and>
     distinct (active_client_keys (edgeLeases s)) \<and>
     map fst (leaseIssuers s) = map lease_LeaseID (edgeLeases s) \<and>
     distinct (map edge_alloc_key (edgeAllocations s)) \<and>
     list_all (\<lambda>a. alloc_LeaseID a \<in> set (map lease_LeaseID (edgeLeases s))) (edgeAllocations s)"

definition telemetry :: "string \<Rightarrow> bool" where
  "telemetry kind \<longleftrightarrow> kind = ''runtime_log'' \<or> kind = ''dpi_event''"

definition events_wf :: "EdgeStore \<Rightarrow> bool" where
  "events_wf s \<longleftrightarrow>
     distinct (map oe_ID (outboundEvents s)) \<and> distinct (map oe_EventID (outboundEvents s)) \<and>
     list_all (\<lambda>e. oe_ID e < nextEventID s) (outboundEvents s) \<and>
     (\<forall>kind. telemetry kind \<longrightarrow>
        count_where (\<lambda>e. oe_EventType e = kind) (outboundEvents s) \<le> maxQueuedTelemetryEvents)"

definition commands_wf :: "EdgeStore \<Rightarrow> bool" where
  "commands_wf s \<longleftrightarrow>
     distinct (map eq_ID (edgeCommands s)) \<and> list_all (\<lambda>q. eq_ID q < nextEdgeCommandID s) (edgeCommands s) \<and>
     distinct (map rc_CommandID (receivedCommands s)) \<and> distinct (map fst (disconnectEffects s)) \<and>
     distinct (map fst (configurationRevisions s))"

definition blocks_wf :: "EdgeStore \<Rightarrow> bool" where
  "blocks_wf s \<longleftrightarrow> distinct (map lb_IP (localBlocks s)) \<and> distinct (map blk_IP (controllerBlocks s))"

definition edge_wf :: "EdgeStore \<Rightarrow> bool" where
  "edge_wf s \<longleftrightarrow> cache_wf s \<and> clients_wf s \<and> leases_wf s \<and> events_wf s \<and> commands_wf s \<and> blocks_wf s"

lemmas edge_wf_defs = cache_wf_def clients_wf_def leases_wf_def events_wf_def commands_wf_def blocks_wf_def

subsection \<open>Rows of a table with a key\<close>

lemma insert_rows_append: "insert_rows clash rs table = Some table' \<Longrightarrow> table' = table @ rs"
  by (induction rs arbitrary: table) (fastforce split: if_splits)+

lemma insert_rows_distinct:
  assumes "insert_rows clash rs table = Some table'" "distinct (map key table)"
    and "\<And>r x. key r = key x \<Longrightarrow> clash r x"
  shows "distinct (map key table')"
  using assms(1,2)
proof (induction rs arbitrary: table)
  case (Cons r rs)
  then have "\<not> list_ex (clash r) table" "insert_rows clash rs (table @ [r]) = Some table'"
    by (auto split: if_splits)
  moreover from this Cons.prems(2) assms(3) have "distinct (map key (table @ [r]))"
    by (force simp: list_ex_iff)
  ultimately show ?case using Cons.IH by blast
qed simp

lemma insert_rows_ok:
  assumes "distinct (map key (table @ rs))" "\<And>r x. clash r x \<Longrightarrow> key r = key x"
  shows "insert_rows clash rs table = Some (table @ rs)"
  using assms(1)
proof (induction rs arbitrary: table)
  case (Cons r rs)
  then have "\<not> list_ex (clash r) table" using assms(2) by (force simp: list_ex_iff)
  with Cons show ?case by simp
qed simp

subsection \<open>The cache\<close>

lemma revoke_tables [simp]:
  "cachedUsers (revoke P s) = cachedUsers s" "cachedTokens (revoke P s) = cachedTokens s"
  "cachedPolicies (revoke P s) = cachedPolicies s" "cachedGrants (revoke P s) = cachedGrants s"
  "cachedDPIPolicies (revoke P s) = cachedDPIPolicies s" "edgeClients (revoke P s) = edgeClients s"
  "nextEdgeClientID (revoke P s) = nextEdgeClientID s" "leaseIssuers (revoke P s) = leaseIssuers s"
  "edgeAllocations (revoke P s) = edgeAllocations s" "outboundEvents (revoke P s) = outboundEvents s"
  "nextEventID (revoke P s) = nextEventID s" "edgeCommands (revoke P s) = edgeCommands s"
  "nextEdgeCommandID (revoke P s) = nextEdgeCommandID s" "receivedCommands (revoke P s) = receivedCommands s"
  "disconnectEffects (revoke P s) = disconnectEffects s"
  "configurationRevisions (revoke P s) = configurationRevisions s" "localBlocks (revoke P s) = localBlocks s"
  "controllerBlocks (revoke P s) = controllerBlocks s" "identityResetPending (revoke P s) = identityResetPending s"
  "lastRevision (revoke P s) = lastRevision s" "dpiEventsEnabled (revoke P s) = dpiEventsEnabled s"
  by (simp_all add: revoke_def)

text \<open>Revoking leases touches no other part of the invariant.\<close>

lemma revoke_frame [simp]:
  "cache_wf (revoke P s) = cache_wf s" "clients_wf (revoke P s) = clients_wf s"
  "events_wf (revoke P s) = events_wf s" "commands_wf (revoke P s) = commands_wf s"
  "blocks_wf (revoke P s) = blocks_wf s"
  by (simp_all add: edge_wf_defs)

lemma active_client_keys_revoke:
  "active_client_keys (edgeLeases (revoke P s)) =
     map (\<lambda>l. (lease_TokenID l, lease_ClientID l))
       (filter (\<lambda>l. lease_Status l = ''active'' \<and> \<not> P l) (edgeLeases s))"
proof -
  have "active_client_keys (update_where (\<lambda>l. lease_Status l = ''active'' \<and> P l) (\<lambda>l. l\<lparr>lease_Status := ''revoked''\<rparr>) ls) =
      map (\<lambda>l. (lease_TokenID l, lease_ClientID l)) (filter (\<lambda>l. lease_Status l = ''active'' \<and> \<not> P l) ls)" for ls
    by (induction ls) (simp_all add: active_client_keys_def update_where_def)
  then show ?thesis by (simp add: revoke_def)
qed

lemma leases_wf_revoke [simp]: "leases_wf s \<Longrightarrow> leases_wf (revoke P s)"
proof -
  assume wf: "leases_wf s"
  have ids: "map lease_LeaseID (edgeLeases (revoke P s)) = map lease_LeaseID (edgeLeases s)"
    "map lease_RuntimeTokenHash (edgeLeases (revoke P s)) = map lease_RuntimeTokenHash (edgeLeases s)"
    by (simp_all add: revoke_def map_update_where_same)
  have "distinct (active_client_keys (edgeLeases (revoke P s)))"
  proof -
    have "filter (\<lambda>l. lease_Status l = ''active'' \<and> \<not> P l) (edgeLeases s) =
        filter (\<lambda>l. \<not> P l) (filter (\<lambda>l. lease_Status l = ''active'') (edgeLeases s))"
      by (auto intro: filter_cong)
    with wf show ?thesis
      unfolding active_client_keys_revoke by (simp add: leases_wf_def active_client_keys_def distinct_map_filter del: filter_filter)
  qed
  with wf ids show ?thesis unfolding leases_wf_def by simp
qed

lemma drop_cached_user_frame [simp]:
  "clients_wf (drop_cached_user u s) = clients_wf s" "leases_wf (drop_cached_user u s) = leases_wf s"
  "events_wf (drop_cached_user u s) = events_wf s" "commands_wf (drop_cached_user u s) = commands_wf s"
  "blocks_wf (drop_cached_user u s) = blocks_wf s"
  by (simp_all add: edge_wf_defs drop_cached_user_def)

lemma cache_wf_drop [simp]: "cache_wf s \<Longrightarrow> cache_wf (drop_cached_user u s)"
  by (simp add: cache_wf_def drop_cached_user_def)

lemma edge_wf_revoke [simp, inv_intros]: "edge_wf s \<Longrightarrow> edge_wf (revoke P s)"
  by (simp add: edge_wf_def)

lemma edge_wf_drop [simp, inv_intros]: "edge_wf s \<Longrightarrow> edge_wf (drop_cached_user u s)"
  by (simp add: edge_wf_def)

lemma fold_preserves: "(\<And>x s. P s \<Longrightarrow> P (f x s)) \<Longrightarrow> P s \<Longrightarrow> P (fold f xs s)"
  by (induction xs arbitrary: s) auto

lemma edge_wf_clear_identities [simp, inv_intros]: "edge_wf s \<Longrightarrow> edge_wf (clear_identities s)"
  by (simp add: edge_wf_def edge_wf_defs clear_identities_def)

lemma edge_wf_clear_replaced [simp, inv_intros]: "edge_wf s \<Longrightarrow> edge_wf (clear_replaced snap s)"
  by (simp add: clear_replaced_def fold_preserves [where P = edge_wf])

lemma edge_wf_revoke_rotated: "edge_wf s \<Longrightarrow> edge_wf (fold revoke_rotated ts s)"
  by (rule fold_preserves [where P = edge_wf]) (simp_all add: revoke_rotated_def)

lemma su_ID_admitted [simp]: "su_ID (admitted_user b u) = su_ID u"
  by (simp add: admitted_user_def)

lemma insert_identities_SomeD:
  assumes "insert_identities snap s = Some s'"
  shows "s' = s\<lparr>cachedUsers := cachedUsers s @ map (admitted_user (snap_NodeAccessEnforced snap)) (snap_Users snap),
      cachedTokens := cachedTokens s @ snap_Tokens snap, cachedPolicies := cachedPolicies s @ snap_Policies snap,
      cachedGrants := cachedGrants s @ snap_Grants snap,
      cachedDPIPolicies := cachedDPIPolicies s @ snap_DPIPolicies snap\<rparr>"
  using assms unfolding insert_identities_def
  by (auto split: option.splits dest!: insert_rows_append)

lemma cache_wf_insert:
  assumes "insert_identities snap s = Some s'" "cache_wf s"
  shows "cache_wf s'"
  using assms unfolding insert_identities_def
  by (auto simp: cache_wf_def split: option.splits elim!: insert_rows_distinct)

lemma edge_wf_insert:
  assumes "insert_identities snap s = Some s'" "edge_wf s"
  shows "edge_wf s'"
proof -
  have "cache_wf s'" using assms cache_wf_insert by (auto simp: edge_wf_def)
  with assms(2) show ?thesis
    unfolding insert_identities_SomeD [OF assms(1)] by (simp add: edge_wf_def edge_wf_defs)
qed

subsection \<open>Snapshots and resets\<close>

lemma distinct_upsert_block: "distinct (map blk_IP bs) \<Longrightarrow> distinct (map blk_IP (upsert_block b bs))"
  by (auto simp: upsert_block_def map_update_where_same list_ex_iff)

lemma edge_wf_apply_blocks: "edge_wf s \<Longrightarrow> edge_wf (apply_blocks snap s)"
proof -
  assume wf: "edge_wf s"
  have "distinct (map blk_IP (fold upsert_block bs old))" if "distinct (map blk_IP old)" for bs old
    using that by (induction bs arbitrary: old) (simp_all add: distinct_upsert_block)
  with wf show ?thesis by (simp add: edge_wf_def edge_wf_defs apply_blocks_def Let_def)
qed

lemma edge_wf_reset_notices: "edge_wf s \<Longrightarrow> edge_wf (reset_notices snap s)"
  by (auto simp: edge_wf_def edge_wf_defs reset_notices_def edge_client_key_def comp_def map_update_where_same
      list_all_iff in_update_where)

lemma edge_wf_flags [simp]:
  "edge_wf (s\<lparr>identityResetPending := b\<rparr>) = edge_wf s"
  "edge_wf (s\<lparr>lastRevision := r, lastSyncAt := t\<rparr>) = edge_wf s"
  "edge_wf (s\<lparr>dpiEventsEnabled := d\<rparr>) = edge_wf s"
  by (simp_all add: edge_wf_def edge_wf_defs)

lemma edge_wf_finish: "edge_wf s \<Longrightarrow> edge_wf (finish_snapshot jd now snap s)"
  by (simp add: finish_snapshot_def Let_def revoke_unbacked_def edge_wf_apply_blocks edge_wf_reset_notices)

lemma edge_wf_ApplyIdentitySnapshot:
  assumes "edge_wf s" "ApplyIdentitySnapshot jd now p s = Inr (x, s')"
  shows "edge_wf s'"
  using assms
  by (auto simp: ApplyIdentitySnapshot_def split: option.splits
      intro: edge_wf_finish edge_wf_insert [OF _ edge_wf_clear_replaced [OF edge_wf_revoke_rotated]])

lemma edge_wf_reset: "edge_wf s \<Longrightarrow> edge_wf (resetIdentityCache boot s)"
  by (auto simp: resetIdentityCache_def Let_def edge_wf_def edge_wf_defs clear_identities_def active_client_keys_def
      edge_client_key_def [abs_def] comp_def list_all_iff)

subsection \<open>Clients, leases, events, commands and bans\<close>

lemma edge_wf_update_client:
  assumes "edge_wf s" "\<And>c. ec_ID (f c) = ec_ID c" "\<And>c. edge_client_key (f c) = edge_client_key c"
  shows "edge_wf (s\<lparr>edgeClients := update_where P f (edgeClients s)\<rparr>)"
  using assms by (auto simp: edge_wf_def edge_wf_defs map_update_where_same list_all_iff in_update_where)

lemma edge_wf_insert_client: "edge_wf s \<Longrightarrow> edge_wf (insert_client u k c s)"
  by (auto simp: insert_client_def find_client_def edge_wf_def edge_wf_defs edge_client_key_def list_all_iff find_None_iff
      split: option.splits)

lemma edge_wf_CreateLease:
  assumes wf: "edge_wf s" and r: "CreateLease lease as s = Inr (x, s')"
  shows "edge_wf s'"
proof -
  define s1 where "s1 = revoke (\<lambda>l. lease_TokenID l = lease_TokenID lease \<and> lease_ClientID l = lease_ClientID lease) s"
  define row where "row = lease\<lparr>lease_ID := 0, lease_Status := ''active''\<rparr>"
  from r obtain h allocs where
    lease: "insert_rows (\<lambda>r x. lease_LeaseID r = lease_LeaseID x \<or> lease_RuntimeTokenHash r = lease_RuntimeTokenHash x)
      [row] (edgeLeases s1) = Some (edgeLeases s1 @ [row])"
    and allocs: "insert_rows (\<lambda>r x. alloc_LeaseID r = alloc_LeaseID x \<and> alloc_ProxyName r = alloc_ProxyName x)
      (map (edge_allocation_row (lease_LeaseID lease)) as) (edgeAllocations s1) = Some allocs"
    and s': "s' = s1\<lparr>edgeLeases := edgeLeases s1 @ [row],
      leaseIssuers := leaseIssuers s1 @ [(lease_LeaseID lease, h)], edgeAllocations := allocs\<rparr>"
    by (auto simp: CreateLease_def s1_def row_def Let_def length_Suc_conv split: if_splits option.splits)
  have wf1: "edge_wf s1" unfolding s1_def using wf by simp
  have "(lease_TokenID lease, lease_ClientID lease) \<notin> set (active_client_keys (edgeLeases s1))"
    unfolding s1_def active_client_keys_revoke by auto
  moreover have "active_client_keys (edgeLeases s1 @ [row]) =
      active_client_keys (edgeLeases s1) @ [(lease_TokenID lease, lease_ClientID lease)]"
    by (simp add: active_client_keys_def row_def)
  moreover have "distinct (map lease_LeaseID (edgeLeases s1 @ [row]))"
    by (rule insert_rows_distinct [OF lease]) (use wf1 in \<open>simp_all add: edge_wf_def leases_wf_def\<close>)
  moreover have "distinct (map lease_RuntimeTokenHash (edgeLeases s1 @ [row]))"
    by (rule insert_rows_distinct [OF lease]) (use wf1 in \<open>simp_all add: edge_wf_def leases_wf_def\<close>)
  moreover have "distinct (map edge_alloc_key allocs)"
    by (rule insert_rows_distinct [OF allocs]) (use wf1 in \<open>simp_all add: edge_wf_def leases_wf_def edge_alloc_key_def\<close>)
  ultimately show ?thesis
    using wf1 insert_rows_append [OF allocs] unfolding s'
    by (auto simp: edge_wf_def edge_wf_defs row_def edge_allocation_row_def list_all_iff)
qed

lemma edge_wf_push_command: "edge_wf s \<Longrightarrow> edge_wf (push_command row c m s)"
  by (auto simp: push_command_def edge_wf_def edge_wf_defs list_all_iff)

lemma edge_wf_DisconnectClientForCommand:
  assumes wf: "edge_wf s" and r: "DisconnectClientForCommand i k c reason s = Inr (x, s')"
  shows "edge_wf s'"
proof (cases "map_of (disconnectEffects s) i")
  case None
  with r obtain row ids where s': "s' = (push_command row ''reauth'' reason (RevokeClient k c s))
      \<lparr>disconnectEffects := disconnectEffects s @ [(i, ids)]\<rparr>"
    by (auto simp: DisconnectClientForCommand_def Let_def push_command_def RevokeClient_def split: option.splits)
  have "edge_wf (push_command row ''reauth'' reason (RevokeClient k c s))"
    using wf by (simp add: edge_wf_push_command RevokeClient_def)
  with None show ?thesis
    unfolding s' by (auto simp: edge_wf_def edge_wf_defs push_command_def RevokeClient_def map_of_eq_None_iff)
qed (use wf r in \<open>simp add: DisconnectClientForCommand_def\<close>)

lemma edge_wf_update_command:
  assumes "edge_wf s" "\<And>q. eq_ID (f q) = eq_ID q"
  shows "edge_wf (s\<lparr>edgeCommands := update_where P f (edgeCommands s)\<rparr>)"
  using assms by (auto simp: edge_wf_def edge_wf_defs map_update_where_same list_all_iff in_update_where)

text \<open>The newest rows of a kind are at most the limit.\<close>

lemma count_keep_newest:
  assumes "distinct (map oe_ID rows)"
  shows "count_where (\<lambda>e. oe_EventType e = kind) (keep_newest kind rows) \<le> maxQueuedTelemetryEvents"
proof -
  let ?ids = "newest_ids maxQueuedTelemetryEvents (\<lambda>x. oe_EventType x = kind) rows"
  let ?kept = "filter (\<lambda>e. oe_EventType e = kind) (keep_newest kind rows)"
  have "distinct (map oe_ID ?kept)"
    using assms by (simp add: keep_newest_def delete_where_def distinct_map_filter del: filter_filter)
  then have "length ?kept = card (set (map oe_ID ?kept))" by (metis distinct_card length_map)
  also have "\<dots> \<le> card (set ?ids)" by (rule card_mono) (auto simp: keep_newest_def)
  also have "\<dots> \<le> length ?ids" by (rule card_length)
  also have "\<dots> \<le> maxQueuedTelemetryEvents" by (simp add: newest_ids_def)
  finally show ?thesis by (simp add: count_where_def)
qed

lemma count_delete_le: "count_where P (delete_where Q rows) \<le> count_where P rows"
  by (induction rows) (simp_all add: count_where_def delete_where_def)

lemma events_wf_delete: "events_wf s \<Longrightarrow> events_wf (s\<lparr>outboundEvents := delete_where P (outboundEvents s)\<rparr>)"
  by (auto simp: events_wf_def list_all_iff intro: order_trans [OF count_delete_le])

lemma events_wf_QueueEvent:
  assumes wf: "events_wf s"
  shows "events_wf (QueueEvent now i kind p s)"
proof (cases "kind = ''dpi_event'' \<and> dpiEventsEnabled s = Some False")
  case False
  define s1 where "s1 = (if list_ex (\<lambda>e. oe_EventID e = i) (outboundEvents s) then s
     else s\<lparr>outboundEvents := outboundEvents s @ [\<lparr>oe_ID = nextEventID s, oe_EventID = i, oe_EventType = kind,
            oe_Payload = p, oe_CreatedAt = now, oe_Acknowledged = False\<rparr>], nextEventID := nextEventID s + 1\<rparr>)"
  have keys: "distinct (map oe_ID (outboundEvents s1))" "distinct (map oe_EventID (outboundEvents s1))"
    "list_all (\<lambda>e. oe_ID e < nextEventID s1) (outboundEvents s1)"
    using wf by (auto simp: s1_def events_wf_def list_all_iff list_ex_iff)
  have others: "count_where (\<lambda>e. oe_EventType e = other) (outboundEvents s1) \<le> maxQueuedTelemetryEvents"
    if "telemetry other" "other \<noteq> kind" for other
    using wf that by (simp add: s1_def events_wf_def count_where_def)
  show ?thesis
  proof (cases "telemetry kind")
    case True
    have q: "QueueEvent now i kind p s = s1\<lparr>outboundEvents := keep_newest kind (outboundEvents s1)\<rparr>"
      using False True by (auto simp: QueueEvent_def s1_def telemetry_def Let_def)
    have "count_where (\<lambda>e. oe_EventType e = other) (keep_newest kind (outboundEvents s1)) \<le> maxQueuedTelemetryEvents"
      if "telemetry other" for other
    proof (cases "other = kind")
      case True
      then show ?thesis using count_keep_newest [OF keys(1)] by simp
    next
      case False
      then show ?thesis
        using others [OF that False] count_delete_le order_trans unfolding keep_newest_def by blast
    qed
    with keys show ?thesis unfolding q by (auto simp: events_wf_def keep_newest_def list_all_iff)
  next
    case False
    then have "QueueEvent now i kind p s = s1" by (simp add: QueueEvent_def s1_def telemetry_def Let_def)
    with False keys others show ?thesis by (auto simp: events_wf_def)
  qed
qed (use wf in \<open>simp add: QueueEvent_def\<close>)

lemma edge_wf_events:
  assumes "edge_wf s" "events_wf (s\<lparr>outboundEvents := es, nextEventID := n\<rparr>)"
  shows "edge_wf (s\<lparr>outboundEvents := es, nextEventID := n\<rparr>)"
  using assms by (simp add: edge_wf_def edge_wf_defs)

lemma events_frame:
  assumes "edge_wf s" "events_wf s'"
    and "s' = s\<lparr>outboundEvents := outboundEvents s', nextEventID := nextEventID s'\<rparr>"
  shows "edge_wf s'"
  using edge_wf_events [OF assms(1), where es = "outboundEvents s'" and n = "nextEventID s'"] assms(2,3) by simp

lemma edge_wf_QueueEvent: "edge_wf s \<Longrightarrow> edge_wf (QueueEvent now i kind p s)"
proof -
  assume wf: "edge_wf s"
  then have "events_wf (QueueEvent now i kind p s)" by (simp add: edge_wf_def events_wf_QueueEvent)
  then show ?thesis
    by (rule events_frame [OF wf]) (rule EdgeStore.equality, simp_all add: QueueEvent_def Let_def)
qed

lemma edge_wf_AcknowledgeEvents: "edge_wf s \<Longrightarrow> edge_wf (AcknowledgeEvents ids s)"
proof -
  assume wf: "edge_wf s"
  let ?s1 = "s\<lparr>outboundEvents := update_where (\<lambda>e. oe_EventID e \<in> set ids) (\<lambda>e. e\<lparr>oe_Acknowledged := True\<rparr>) (outboundEvents s)\<rparr>"
  have "count_where (\<lambda>e. oe_EventType e = kind) (outboundEvents ?s1) = count_where (\<lambda>e. oe_EventType e = kind) (outboundEvents s)" for kind
    by (induction "outboundEvents s") (simp_all add: count_where_def update_where_def filter_map comp_def if_distrib cong: if_cong)
  with wf have "events_wf ?s1"
    by (auto simp: edge_wf_def events_wf_def map_update_where_same list_all_iff in_update_where)
  from events_wf_delete [OF this] have "events_wf (AcknowledgeEvents ids s)"
    by (simp add: AcknowledgeEvents_def Let_def)
  then show ?thesis by (rule events_frame [OF wf]) (simp add: AcknowledgeEvents_def Let_def)
qed

lemma edge_wf_commands:
  "edge_wf s \<Longrightarrow> edge_wf (snd (BeginCommand c s))"
  "edge_wf s \<Longrightarrow> edge_wf (FinishCommand r s)"
  "edge_wf s \<Longrightarrow> edge_wf (snd (DeleteUnacknowledgedClientCommands row s))"
  by (auto simp: BeginCommand_def FinishCommand_def DeleteUnacknowledgedClientCommands_def Let_def edge_wf_def
      edge_wf_defs map_update_where_same find_None_iff list_all_iff split: option.splits)

lemma edge_wf_UpsertBlockedIP: "edge_wf s \<Longrightarrow> edge_wf (UpsertBlockedIP t ip r s)"
proof -
  have same: "map lb_IP (update_where (\<lambda>b. lb_IP b = ip) (\<lambda>b. x) bs) = map lb_IP bs" if "lb_IP x = ip" for x bs
    by (rule map_update_where_same) (simp add: that)
  assume "edge_wf s"
  then show ?thesis
    by (auto simp: UpsertBlockedIP_def Let_def edge_wf_def edge_wf_defs same list_ex_iff)
qed

lemma edge_wf_DeleteBlockedIP: "edge_wf s \<Longrightarrow> edge_wf (DeleteBlockedIP ip s)"
  by (simp add: DeleteBlockedIP_def edge_wf_def edge_wf_defs)

lemma edge_wf_ConfirmConfiguration:
  "edge_wf s \<Longrightarrow> ConfirmConfiguration k r s = Inr (x, s') \<Longrightarrow> edge_wf s'"
  by (auto simp: ConfirmConfiguration_def edge_wf_def edge_wf_defs distinct_update split: if_splits option.splits)

lemma edge_commit_wf:
  assumes "edge_wf s" "\<And>x s'. r = Inr (x, s') \<Longrightarrow> edge_wf s'"
  shows "edge_wf (edge_commit s r)"
  using assms by (auto simp: edge_commit_def split: sum.splits)

lemma edge_wf_Credential: "edge_wf s \<Longrightarrow> Credential h c b s = Inr (x, s') \<Longrightarrow> edge_wf s'"
  by (auto simp: Credential_def Let_def edge_wf_insert_client split: option.splits if_splits)

lemma edge_wf_queue:
  "edge_wf s \<Longrightarrow> EnqueueClientCommand_edge k c q m s = Inr (x, s') \<Longrightarrow> edge_wf s'"
  "edge_wf s \<Longrightarrow> AcknowledgeClientCommand_edge q' c' s = Inr (y, s'') \<Longrightarrow> edge_wf s''"
  by (auto simp: EnqueueClientCommand_edge_def AcknowledgeClientCommand_edge_def Let_def edge_wf_push_command
      split: option.splits if_splits intro: edge_wf_update_command)

lemma edge_wf_exec: "edge_wf s \<Longrightarrow> edge_wf (edge_exec jd t op s)"
proof (cases op)
  case EO_PruneDisabledDPIEvents
  assume wf: "edge_wf s"
  then have "events_wf (PruneDisabledDPIEvents s)"
    by (simp add: PruneDisabledDPIEvents_def edge_wf_def events_wf_delete)
  then show ?thesis
    using EO_PruneDisabledDPIEvents
    by (auto intro: events_frame [OF wf] simp: PruneDisabledDPIEvents_def)
qed (auto simp: ResetIdentityCache_def DiscardControlIdentityCache_def TouchClient_def TouchClientSeen_def ClearClient_def
    DisconnectWarning_def RevokeClient_def ReleaseRuntimeLease_edge_def SetDPIEventReporting_def PopClientCommands_def
    Let_def edge_client_key_def
    intro!: edge_commit_wf edge_wf_update_client edge_wf_update_command edge_wf_reset edge_wf_QueueEvent
    edge_wf_AcknowledgeEvents edge_wf_commands edge_wf_UpsertBlockedIP edge_wf_DeleteBlockedIP
    intro: edge_wf_ApplyIdentitySnapshot edge_wf_Credential edge_wf_CreateLease edge_wf_ConfirmConfiguration
    edge_wf_DisconnectClientForCommand edge_wf_queue)

interpretation edge: inductive_invariant "\<lambda>s. s = empty_edge" "edge_step jd" edge_wf for jd
proof unfold_locales
  show "edge_wf s" if "s = empty_edge" for s
    using that by (simp add: empty_edge_def edge_wf_def edge_wf_defs active_client_keys_def count_where_def)
  show "edge_wf t" if "edge_wf s" "edge_step jd s t" for s t
    using that(2,1) by (induction rule: edge_step.induct) (rule edge_wf_exec)
qed

section \<open>Properties\<close>

lemma edge_reach_empty: "reach (\<lambda>s. s = empty_edge) (edge_step jd) empty_edge"
  by (rule reach_init) simp

lemma edge_reach_exec:
  "reach (\<lambda>s. s = empty_edge) (edge_step jd) s \<Longrightarrow> reach (\<lambda>s. s = empty_edge) (edge_step jd) (edge_exec jd t op s)"
  by (erule reach_step) (rule edge_step.intros)

text \<open>
  C29. in every store an edge node can reach from the empty one, whatever operations run in
  whatever order and however each of them ends, the keys of all tables are unique, every lease has
  its issuer row, every allocation belongs to a lease, a client has at most one active lease, and
  each telemetry kind queues at most 5000 events.
\<close>

theorem edge_store_wellformed:
  assumes "reach (\<lambda>s. s = empty_edge) (edge_step jd) s"
  shows "edge_wf s"
  using assms by (rule edge.reach_inv)

theorem edge_store_wellformed_witness: "edge_wf (edge_exec (\<lambda>t. t) 5 (EO_UpsertBlockedIP ''10.0.0.1'' ''abuse'') empty_edge)"
  by (rule edge_store_wellformed [OF edge_reach_exec [OF edge_reach_empty]])

subsection \<open>Leases after a snapshot\<close>

definition rotated :: "SnapshotToken list \<Rightarrow> EdgeStore \<Rightarrow> RuntimeLease \<Rightarrow> bool" where
  "rotated ts s l \<longleftrightarrow>
     list_ex (\<lambda>t. sn_ID t = lease_TokenID l \<and>
       list_ex (\<lambda>c. sn_ID c = sn_ID t \<and> sn_TokenHash c \<noteq> sn_TokenHash t) (cachedTokens s)) ts"

definition active_leases :: "EdgeStore \<Rightarrow> RuntimeLease set" where
  "active_leases s = {l \<in> set (edgeLeases s). lease_Status l = ''active''}"

lemma active_leases_revoke: "active_leases (revoke P s) = {l \<in> active_leases s. \<not> P l}"
  by (auto simp: active_leases_def revoke_def in_update_where)

lemma cachedTokens_fold_rotated [simp]: "cachedTokens (fold revoke_rotated ts s) = cachedTokens s"
  by (induction ts arbitrary: s) (simp_all add: revoke_rotated_def)

lemma active_leases_fold_rotated:
  "active_leases (fold revoke_rotated ts s) = {l \<in> active_leases s. \<not> rotated ts s l}"
proof (induction ts arbitrary: s)
  case (Cons t ts)
  have "rotated (t # ts) s l \<longleftrightarrow> rotated [t] s l \<or> rotated ts (revoke_rotated t s) l" for l
    by (auto simp: rotated_def revoke_rotated_def)
  moreover have "active_leases (revoke_rotated t s) = {l \<in> active_leases s. \<not> rotated [t] s l}"
    by (auto simp: revoke_rotated_def active_leases_revoke rotated_def)
  ultimately show ?case using Cons [of "revoke_rotated t s"] by auto
qed (simp add: rotated_def)

lemma edgeLeases_clear_replaced [simp]:
  "edgeLeases (clear_replaced snap s) = edgeLeases s" "leaseIssuers (clear_replaced snap s) = leaseIssuers s"
proof -
  have "edgeLeases (fold drop_cached_user us s) = edgeLeases s \<and> leaseIssuers (fold drop_cached_user us s) = leaseIssuers s" for us s
    by (induction us arbitrary: s) (simp_all add: drop_cached_user_def)
  then show "edgeLeases (clear_replaced snap s) = edgeLeases s" "leaseIssuers (clear_replaced snap s) = leaseIssuers s"
    by (simp_all add: clear_replaced_def clear_identities_def)
qed

definition complete_snapshot :: "IdentitySnapshot \<Rightarrow> bool" where
  "complete_snapshot snap \<longleftrightarrow> \<not> snap_Baseline snap \<or> snap_BaselineEnd snap"

lemma lease_backed_cong:
  assumes "cachedUsers s = cachedUsers t" "cachedPolicies s = cachedPolicies t" "cachedTokens s = cachedTokens t"
    "leaseIssuers s = leaseIssuers t"
  shows "lease_backed jd now s l = lease_backed jd now t l"
  using assms by (simp add: lease_backed_def)

lemma finish_snapshot_caches [simp]:
  "cachedUsers (finish_snapshot jd now snap s) = cachedUsers s"
  "cachedPolicies (finish_snapshot jd now snap s) = cachedPolicies s"
  "cachedTokens (finish_snapshot jd now snap s) = cachedTokens s"
  "cachedGrants (finish_snapshot jd now snap s) = cachedGrants s"
  "cachedDPIPolicies (finish_snapshot jd now snap s) = cachedDPIPolicies s"
  "leaseIssuers (finish_snapshot jd now snap s) = leaseIssuers s"
  by (simp_all add: finish_snapshot_def Let_def reset_notices_def revoke_unbacked_def apply_blocks_def)

lemma active_leases_finish:
  assumes "complete_snapshot snap"
  shows "active_leases (finish_snapshot jd now snap s) =
    {l \<in> active_leases s. lease_backed jd now (finish_snapshot jd now snap s) l}"
proof -
  have "active_leases (finish_snapshot jd now snap s) = active_leases (revoke_unbacked jd now (apply_blocks snap s))"
    using assms by (simp add: finish_snapshot_def Let_def reset_notices_def active_leases_def complete_snapshot_def)
  also have "\<dots> = {l \<in> active_leases s. lease_backed jd now (apply_blocks snap s) l}"
    by (simp add: revoke_unbacked_def active_leases_revoke)
      (simp add: active_leases_def apply_blocks_def Let_def)
  also have "\<dots> = {l \<in> active_leases s. lease_backed jd now (finish_snapshot jd now snap s) l}"
    using lease_backed_cong [of "apply_blocks snap s" "finish_snapshot jd now snap s"]
    by (simp add: apply_blocks_def Let_def)
  finally show ?thesis .
qed

text \<open>A backed lease passes the authorisation of every request.\<close>

lemma backed_authorized:
  assumes "cache_wf s" "mono jd" "lease_backed jd now s l"
  shows "RuntimeAuthorized now (lease_UserID l) (lease_TokenID l) s = None"
proof -
  from assms(3) obtain u t where
    u: "u \<in> set (cachedUsers s)" "su_ID u = lease_UserID l" "su_Status u = ''active''" "su_Role u = ''user''"
    and t: "t \<in> set (cachedTokens s)" "sn_ID t = lease_TokenID l" "sn_UserID t = lease_UserID l" "token_live jd now t"
    by (auto simp: lease_backed_def list_ex_iff)
  have fu: "find (\<lambda>x. su_ID x = lease_UserID l) (cachedUsers s) = Some u"
    by (rule find_distinct_key) (use assms(1) u in \<open>auto simp: cache_wf_def\<close>)
  have ft: "find (\<lambda>x. sn_ID x = lease_TokenID l \<and> sn_UserID x = lease_UserID l) (cachedTokens s) = Some t"
    using find_distinct_key [of "\<lambda>x. (sn_ID x, sn_UserID x)" "cachedTokens s" t "(lease_TokenID l, lease_UserID l)"]
      assms(1) t by (auto simp: cache_wf_def distinct_map inj_on_def)
  have "now < e" if "sn_ExpiresAt t = Some e" for e
    using t(4) that assms(2) by (auto simp: token_live_def dest: monoD [of jd e now] leI)
  with u t(4) show ?thesis
    by (auto simp: RuntimeAuthorized_def fu ft token_live_def time_before_def split: option.splits)
qed

text \<open>
  C30. a snapshot that completes leaves active exactly the leases that were active, were not issued
  under a hash that the snapshot rotates, and whose user, policy, token and issuing hash the new
  cache confirms; and each lease that stays active is authorised at that moment. \<open>jd\<close> is SQLite's
  \<open>julianday\<close>, which never decreases.
\<close>

theorem snapshot_leases_exact:
  assumes reachable: "reach (\<lambda>s. s = empty_edge) (edge_step jd) s" and mono: "mono jd"
    and complete: "complete_snapshot snap"
    and applied: "ApplyIdentitySnapshot jd now (Some snap) s = Inr ((), s')"
  shows "active_leases s' = {l \<in> active_leases s. \<not> rotated (snap_Tokens snap) s l \<and> lease_backed jd now s' l} \<and>
    (\<forall>l \<in> active_leases s'. RuntimeAuthorized now (lease_UserID l) (lease_TokenID l) s' = None)"
proof -
  from applied obtain s1 where
    ins: "insert_identities snap (clear_replaced snap (fold revoke_rotated (snap_Tokens snap) s)) = Some s1"
    and s': "s' = finish_snapshot jd now snap s1"
    by (auto simp: ApplyIdentitySnapshot_def split: option.splits)
  have wf: "edge_wf s'" using edge.reach_inv [OF reachable] applied by (rule edge_wf_ApplyIdentitySnapshot)
  have "active_leases s1 = active_leases (fold revoke_rotated (snap_Tokens snap) s)"
    unfolding insert_identities_SomeD [OF ins] by (simp add: active_leases_def)
  then have "active_leases s' = {l \<in> active_leases s. \<not> rotated (snap_Tokens snap) s l \<and> lease_backed jd now s' l}"
    unfolding s' active_leases_finish [OF complete] active_leases_fold_rotated by auto
  moreover have "RuntimeAuthorized now (lease_UserID l) (lease_TokenID l) s' = None" if "l \<in> active_leases s'" for l
    using backed_authorized [of s' jd now l] wf mono that calculation by (auto simp: edge_wf_def)
  ultimately show ?thesis by blast
qed

text \<open>A node with one user, one token and one lease; then the user is banned.\<close>

definition demo_policy :: UserResourcePolicy where
  "demo_policy = \<lparr>policy_UserID = 1, policy_PortStart = 1024, policy_PortEnd = 0, policy_MaxPorts = 3,
     policy_AllowedProtocols = [''tcp''], policy_Enabled = True\<rparr>"

definition demo_token :: SnapshotToken where
  "demo_token = \<lparr>sn_ID = 2, sn_UserID = 1, sn_Name = ''laptop'', sn_TokenHash = ''h2'', sn_Status = ''active'',
     sn_BanReason = [], sn_MaxProxyCount = 0, sn_ExpiresAt = None\<rparr>"

definition demo_snapshot :: "bool \<Rightarrow> int \<Rightarrow> string \<Rightarrow> IdentitySnapshot" where
  "demo_snapshot baseline revision status =
     \<lparr>snap_Baseline = baseline, snap_BaselineEnd = baseline, snap_ReplaceBlockedIPs = baseline,
      snap_Incremental = (\<not> baseline), snap_RemovedUserIDs = [], snap_NodeAccessEnforced = True,
      snap_Revision = revision,
      snap_Users = [\<lparr>su_ID = 1, su_Username = ''ann'', su_Role = ''user'', su_Status = status, su_BanReason = []\<rparr>],
      snap_Tokens = [demo_token], snap_Policies = [demo_policy], snap_Grants = [], snap_DPIPolicies = [],
      snap_BlockedIPs = [], snap_RemovedBlockedIPs = []\<rparr>"

definition demo_edge_lease :: RuntimeLease where
  "demo_edge_lease = \<lparr>lease_ID = 0, lease_LeaseID = ''L'', lease_UserID = 1, lease_TokenID = 2, lease_ClientID = ''c'',
     lease_RuntimeTokenHash = ''r'', lease_Status = ''active'', lease_ExpiresAt = 1000\<rparr>"

definition demo_edge :: EdgeStore where
  "demo_edge =
     edge_exec (\<lambda>t. t) 3 (EO_CreateLease demo_edge_lease [])
       (edge_exec (\<lambda>t. t) 2 (EO_ApplyIdentitySnapshot (Some (demo_snapshot True 5 ''active'')))
         (edge_exec (\<lambda>t. t) 1 EO_ResetIdentityCache empty_edge))"

definition demo_banned :: EdgeStore where
  "demo_banned = edge_exec (\<lambda>t. t) 4 (EO_ApplyIdentitySnapshot (Some (demo_snapshot False 6 ''banned''))) demo_edge"

lemmas demo_edge_defs =
  demo_edge_def demo_policy_def demo_token_def demo_snapshot_def demo_edge_lease_def empty_edge_def
  edge_commit_def ApplyIdentitySnapshot_def ResetIdentityCache_def resetIdentityCache_def clear_identities_def
  check_snapshot_def clear_replaced_def insert_identities_def finish_snapshot_def apply_blocks_def revoke_unbacked_def
  revoke_def update_where_def delete_where_def reset_notices_def touched_users_def admitted_user_def CreateLease_def
  revoke_rotated_def drop_cached_user_def Let_def

lemma demo_edge_reach: "reach (\<lambda>s. s = empty_edge) (edge_step (\<lambda>t. t)) demo_edge"
  unfolding demo_edge_def by (intro edge_reach_exec edge_reach_empty)

lemma demo_edge_value:
  "edgeLeases demo_edge = [demo_edge_lease]" "lastRevision demo_edge = Some 5"
  "cachedTokens demo_edge = [demo_token]" "cachedPolicies demo_edge = [demo_policy]" "cachedGrants demo_edge = []"
  "cachedDPIPolicies demo_edge = []"
  "cachedUsers demo_edge = [\<lparr>su_ID = 1, su_Username = ''ann'', su_Role = ''user'', su_Status = ''active'', su_BanReason = []\<rparr>]"
  by (simp_all add: demo_edge_defs)

lemma demo_ban_applied:
  "ApplyIdentitySnapshot (\<lambda>t. t) 4 (Some (demo_snapshot False 6 ''banned'')) demo_edge = Inr ((), demo_banned)"
proof -
  have "ApplyIdentitySnapshot (\<lambda>t. t) 4 (Some (demo_snapshot False 6 ''banned'')) demo_edge \<noteq> Inl e" for e
    by (simp add: ApplyIdentitySnapshot_def check_snapshot_def demo_edge_value demo_snapshot_def insert_identities_def
        clear_replaced_def touched_users_def drop_cached_user_def delete_where_def revoke_rotated_def demo_token_def demo_policy_def)
  then show ?thesis unfolding demo_banned_def
    by (cases "ApplyIdentitySnapshot (\<lambda>t. t) 4 (Some (demo_snapshot False 6 ''banned'')) demo_edge") (auto simp: edge_commit_def)
qed

theorem snapshot_leases_exact_witness:
  "demo_edge_lease \<in> active_leases demo_edge \<and> active_leases demo_banned =
     {l \<in> active_leases demo_edge. \<not> rotated [demo_token] demo_edge l \<and> lease_backed (\<lambda>t. t) 4 demo_banned l}"
  using snapshot_leases_exact [OF demo_edge_reach _ _ demo_ban_applied]
  by (simp add: monoI complete_snapshot_def demo_snapshot_def active_leases_def demo_edge_value demo_edge_lease_def)

subsection \<open>Replayed commands\<close>

lemma disconnectEffects_exec:
  assumes "map_of (disconnectEffects s) i = Some ids"
  shows "map_of (disconnectEffects (edge_exec jd t op s)) i = Some ids"
proof -
  have snap: "disconnectEffects s' = disconnectEffects s" if "ApplyIdentitySnapshot jd t p s = Inr (x, s')" for p x s'
  proof -
    have "disconnectEffects (fold revoke_rotated ts s) = disconnectEffects s" for ts s
      by (induction ts arbitrary: s) (simp_all add: revoke_rotated_def)
    moreover have "disconnectEffects (fold drop_cached_user us s) = disconnectEffects s" for us s
      by (induction us arbitrary: s) (simp_all add: drop_cached_user_def)
    ultimately show ?thesis
      using that by (auto simp: ApplyIdentitySnapshot_def finish_snapshot_def Let_def reset_notices_def revoke_unbacked_def
          apply_blocks_def clear_replaced_def clear_identities_def dest!: insert_identities_SomeD split: option.splits if_splits)
  qed
  have lease: "disconnectEffects s' = disconnectEffects s" if "CreateLease l as s = Inr (x, s')" for l as x s'
    using that by (auto simp: CreateLease_def Let_def split: option.splits if_splits)
  have cred: "disconnectEffects s' = disconnectEffects s" if "Credential h c b s = Inr (x, s')" for h c b x s'
    using that by (auto simp: Credential_def insert_client_def Let_def split: option.splits if_splits)
  have disc: "map_of (disconnectEffects s') i = Some ids" if "DisconnectClientForCommand j k c r s = Inr (x, s')" for j k c r x s'
    using that assms
    by (auto simp: DisconnectClientForCommand_def Let_def push_command_def RevokeClient_def map_add_Some_iff
        split: option.splits)
  show ?thesis
    using assms
    by (cases op)
      (auto simp: edge_commit_def ResetIdentityCache_def DiscardControlIdentityCache_def resetIdentityCache_def Let_def
        clear_identities_def TouchClient_def TouchClientSeen_def ClearClient_def DisconnectWarning_def RevokeClient_def
        ReleaseRuntimeLease_edge_def QueueEvent_def SetDPIEventReporting_def PruneDisabledDPIEvents_def AcknowledgeEvents_def
        BeginCommand_def FinishCommand_def ConfirmConfiguration_def UpsertBlockedIP_def DeleteBlockedIP_def
        EnqueueClientCommand_edge_def PopClientCommands_def AcknowledgeClientCommand_edge_def
        DeleteUnacknowledgedClientCommands_def push_command_def snap lease cred disc
        split: sum.splits option.splits if_splits)
qed

text \<open>
  C31. once a disconnect command has taken effect, its replay after a crash returns the leases it
  revoked the first time and changes nothing, whatever the node did in between; a lease the user
  obtained since then and a second reauthentication message are out of its reach.
\<close>

theorem disconnect_replay:
  assumes first: "DisconnectClientForCommand commandID tokenID clientID reason s = Inr (ids, s')"
    and later: "steps (edge_step jd) s' t"
  shows "DisconnectClientForCommand commandID tokenID' clientID' reason' t = Inr (ids, t)"
proof -
  have "map_of (disconnectEffects s') commandID = Some ids"
    using first by (auto simp: DisconnectClientForCommand_def Let_def push_command_def RevokeClient_def map_add_Some_iff
        split: option.splits)
  with later have "map_of (disconnectEffects t) commandID = Some ids"
    by (induction rule: steps.induct) (auto elim!: edge_step.cases intro: disconnectEffects_exec)
  then show ?thesis by (simp add: DisconnectClientForCommand_def)
qed

text \<open>The node revokes the lease of client \<open>c\<close>, queues an event, and receives the command again.\<close>

definition demo_client_edge :: EdgeStore where
  "demo_client_edge = insert_client 1 2 ''c'' demo_edge"

definition demo_disconnected :: EdgeStore where
  "demo_disconnected = edge_exec (\<lambda>t. t) 5 (EO_DisconnectClientForCommand ''cmd'' 2 ''c'' ''bye'') demo_client_edge"

lemma demo_disconnect: "DisconnectClientForCommand ''cmd'' 2 ''c'' ''bye'' demo_client_edge = Inr ([''L''], demo_disconnected)"
  by (simp add: demo_disconnected_def demo_client_edge_def edge_commit_def DisconnectClientForCommand_def find_client_def
      insert_client_def demo_edge_defs)

theorem disconnect_replay_witness:
  "DisconnectClientForCommand ''cmd'' 2 ''c'' ''bye'' (edge_exec (\<lambda>t. t) 6 (EO_QueueEvent ''e'' ''runtime_log'' ''x'') demo_disconnected) =
     Inr ([''L''], edge_exec (\<lambda>t. t) 6 (EO_QueueEvent ''e'' ''runtime_log'' ''x'') demo_disconnected)"
  by (rule disconnect_replay [OF demo_disconnect]) (rule steps_step, rule steps_refl, rule edge_step.intros)

end
