(* ===== verification/Edge_Identity.thy ===== *)
theory Edge_Identity
  imports Edge_Steps Store_Outbox
begin

text \<open>
  The identity of a user as an edge node caches it, in the vocabulary of the controller's store,
  and what a snapshot does to it: the snapshot's rows replace those of the users it names, and the
  identity of every other user stays as it is.
\<close>

section \<open>Identities in rows\<close>

definition rows_identity ::
  "SnapshotUser list \<Rightarrow> SnapshotToken list \<Rightarrow> UserResourcePolicy list \<Rightarrow> PortGrant list \<Rightarrow> Policy list \<Rightarrow> int \<Rightarrow> UserIdentity" where
  "rows_identity us ts ps gs ds u =
     (let toks = filter (\<lambda>t. sn_UserID t = u) ts in
      \<lparr>ident_Users = map user_of (filter (\<lambda>x. su_ID x = u) us), ident_Tokens = map access_token_of toks,
       ident_Policies = filter (\<lambda>p. policy_UserID p = u) ps,
       ident_Grants = filter (\<lambda>g. grant_TokenID g \<in> sn_ID ` set toks) gs,
       ident_DPI = filter (\<lambda>p. dpi_UserID p = u) ds\<rparr>)"

definition edge_identity :: "int \<Rightarrow> EdgeStore \<Rightarrow> UserIdentity" where
  "edge_identity u s =
     rows_identity (cachedUsers s) (cachedTokens s) (cachedPolicies s) (cachedGrants s) (cachedDPIPolicies s) u"

definition snapshot_identity :: "int \<Rightarrow> IdentitySnapshot \<Rightarrow> UserIdentity" where
  "snapshot_identity u snap =
     rows_identity (snap_Users snap) (snap_Tokens snap) (snap_Policies snap) (snap_Grants snap) (snap_DPIPolicies snap) u"

text \<open>No row of a user, and rows of named users only.\<close>

definition rows_free :: "int \<Rightarrow> EdgeStore \<Rightarrow> bool" where
  "rows_free u s \<longleftrightarrow>
     u \<notin> su_ID ` set (cachedUsers s) \<and> u \<notin> sn_UserID ` set (cachedTokens s) \<and>
     u \<notin> policy_UserID ` set (cachedPolicies s) \<and> u \<notin> dpi_UserID ` set (cachedDPIPolicies s)"

definition edge_closed :: "EdgeStore \<Rightarrow> bool" where
  "edge_closed s \<longleftrightarrow> grant_TokenID ` set (cachedGrants s) \<subseteq> sn_ID ` set (cachedTokens s)"

definition snap_closed :: "IdentitySnapshot \<Rightarrow> bool" where
  "snap_closed snap \<longleftrightarrow>
     (let ids = su_ID ` set (snap_Users snap) in
      sn_UserID ` set (snap_Tokens snap) \<subseteq> ids \<and> policy_UserID ` set (snap_Policies snap) \<subseteq> ids \<and>
      dpi_UserID ` set (snap_DPIPolicies snap) \<subseteq> ids \<and>
      grant_TokenID ` set (snap_Grants snap) \<subseteq> sn_ID ` set (snap_Tokens snap))"

lemma identity_free: "rows_free u s \<Longrightarrow> edge_identity u s = no_identity"
  by (auto simp: rows_free_def edge_identity_def rows_identity_def no_identity_def filter_empty_conv Let_def image_iff)

lemma snapshot_identity_free:
  "snap_closed snap \<Longrightarrow> u \<notin> su_ID ` set (snap_Users snap) \<Longrightarrow> snapshot_identity u snap = no_identity"
  by (auto simp: snap_closed_def snapshot_identity_def rows_identity_def no_identity_def filter_empty_conv Let_def
      image_iff subset_iff)

section \<open>Inserting the rows of a snapshot\<close>

lemma admitted_user_True [simp]: "admitted_user True = (\<lambda>u. u)"
  by (rule ext) (simp add: admitted_user_def)

lemma distinct_token_owner:
  "distinct (map sn_ID ts) \<Longrightarrow> t \<in> set ts \<Longrightarrow> t' \<in> set ts \<Longrightarrow> sn_ID t = sn_ID t' \<Longrightarrow> t = t'"
  by (auto simp: distinct_map inj_on_def)

lemma insert_identities_new:
  assumes ins: "insert_identities snap s = Some s'" and wf: "cache_wf s'" and "edge_closed s" "snap_NodeAccessEnforced snap"
    and free: "rows_free u s"
  shows "edge_identity u s' = snapshot_identity u snap"
proof -
  note s' = insert_identities_SomeD [OF ins]
  have toks: "filter (\<lambda>t. sn_UserID t = u) (cachedTokens s') = filter (\<lambda>t. sn_UserID t = u) (snap_Tokens snap)"
    using free by (auto simp: s' rows_free_def filter_empty_conv)
  have disj: "sn_ID ` set (cachedTokens s) \<inter> sn_ID ` set (snap_Tokens snap) = {}"
    using wf by (simp add: s' cache_wf_def)
  have "grant_TokenID g \<notin> sn_ID ` set (filter (\<lambda>t. sn_UserID t = u) (snap_Tokens snap))" if "g \<in> set (cachedGrants s)" for g
  proof -
    have "grant_TokenID g \<in> sn_ID ` set (cachedTokens s)" using that assms(3) by (auto simp: edge_closed_def)
    with disj show ?thesis by auto
  qed
  with toks free assms(4) show ?thesis
    by (auto simp: edge_identity_def snapshot_identity_def rows_identity_def s' rows_free_def
        filter_empty_conv Let_def)
qed

lemma insert_identities_other:
  assumes ins: "insert_identities snap s = Some s'" and wf: "cache_wf s'" and closed: "snap_closed snap"
    and enf: "snap_NodeAccessEnforced snap" and other: "u \<notin> su_ID ` set (snap_Users snap)"
  shows "edge_identity u s' = edge_identity u s"
proof -
  note s' = insert_identities_SomeD [OF ins]
  have none: "filter (\<lambda>t. sn_UserID t = u) (snap_Tokens snap) = []" "filter (\<lambda>p. policy_UserID p = u) (snap_Policies snap) = []"
    "filter (\<lambda>p. dpi_UserID p = u) (snap_DPIPolicies snap) = []" "filter (\<lambda>x. su_ID x = u) (snap_Users snap) = []"
    using closed other by (auto simp: snap_closed_def filter_empty_conv Let_def image_iff subset_iff)
  have disj: "sn_ID ` set (cachedTokens s) \<inter> sn_ID ` set (snap_Tokens snap) = {}"
    using wf by (simp add: s' cache_wf_def)
  have "grant_TokenID g \<notin> sn_ID ` set (filter (\<lambda>t. sn_UserID t = u) (cachedTokens s))" if "g \<in> set (snap_Grants snap)" for g
  proof -
    have "grant_TokenID g \<in> sn_ID ` set (snap_Tokens snap)" using that closed by (auto simp: snap_closed_def Let_def)
    with disj show ?thesis by auto
  qed
  with none enf show ?thesis
    by (auto simp: edge_identity_def rows_identity_def s' filter_empty_conv Let_def)
qed

lemma insert_identities_closed:
  assumes "insert_identities snap s = Some s'" "edge_closed s" "snap_closed snap"
  shows "edge_closed s'"
  using assms(2,3) unfolding insert_identities_SomeD [OF assms(1)]
  by (auto simp: edge_closed_def snap_closed_def Let_def subset_iff image_iff)

section \<open>Dropping users\<close>

lemma drop_cached_user_identity:
  assumes "cache_wf s"
  shows "edge_identity v (drop_cached_user u s) = (if v = u then no_identity else edge_identity v s)"
proof (cases "v = u")
  case True
  then show ?thesis
    by (auto intro!: identity_free simp: rows_free_def drop_cached_user_def)
next
  case False
  have toks: "filter (\<lambda>t. sn_UserID t = v) (delete_where (\<lambda>t. sn_UserID t = u) (cachedTokens s)) =
      filter (\<lambda>t. sn_UserID t = v) (cachedTokens s)"
    using False by (intro filter_delete_other) auto
  have owner: "grant_TokenID g \<notin> sn_ID ` set (filter (\<lambda>t. sn_UserID t = v) (cachedTokens s))"
    if "list_ex (\<lambda>t. sn_ID t = grant_TokenID g \<and> sn_UserID t = u) (cachedTokens s)" for g
  proof
    assume "grant_TokenID g \<in> sn_ID ` set (filter (\<lambda>t. sn_UserID t = v) (cachedTokens s))"
    then obtain t where "t \<in> set (cachedTokens s)" "sn_UserID t = v" "sn_ID t = grant_TokenID g" by auto
    moreover from that obtain t' where "t' \<in> set (cachedTokens s)" "sn_UserID t' = u" "sn_ID t' = grant_TokenID g"
      by (auto simp: list_ex_iff)
    ultimately show False using assms False distinct_token_owner [of "cachedTokens s" t t'] by (auto simp: cache_wf_def)
  qed
  have grants: "filter (\<lambda>g. grant_TokenID g \<in> sn_ID ` set (filter (\<lambda>t. sn_UserID t = v) (cachedTokens s)))
      (cachedGrants (drop_cached_user u s)) =
      filter (\<lambda>g. grant_TokenID g \<in> sn_ID ` set (filter (\<lambda>t. sn_UserID t = v) (cachedTokens s))) (cachedGrants s)"
    by (simp add: drop_cached_user_def, rule filter_delete_other) (use owner in simp)
  have other: "filter (\<lambda>x. key x = v) (delete_where (\<lambda>x. key x = u) rows) = filter (\<lambda>x. key x = v) rows"
    for key :: "'a \<Rightarrow> int" and rows
    by (rule filter_delete_other) (use False in auto)
  show ?thesis
    using False toks grants by (simp add: edge_identity_def rows_identity_def Let_def drop_cached_user_def other)
qed

lemma drop_cached_user_closed: "cache_wf s \<Longrightarrow> edge_closed s \<Longrightarrow> edge_closed (drop_cached_user u s)"
  by (fastforce simp: edge_closed_def drop_cached_user_def list_ex_iff subset_iff image_iff)

lemma drop_cached_user_free:
  "rows_free v (drop_cached_user u s) \<longleftrightarrow> v = u \<or> rows_free v s"
  by (auto simp: rows_free_def drop_cached_user_def)

lemma fold_drop:
  assumes "cache_wf s" "edge_closed s"
  shows "cache_wf (fold drop_cached_user us s) \<and> edge_closed (fold drop_cached_user us s) \<and>
    (\<forall>v. edge_identity v (fold drop_cached_user us s) = (if v \<in> set us then no_identity else edge_identity v s)) \<and>
    (\<forall>v. rows_free v (fold drop_cached_user us s) \<longleftrightarrow> v \<in> set us \<or> rows_free v s)"
  using assms
proof (induction us arbitrary: s)
  case (Cons u us)
  have "cache_wf (drop_cached_user u s)" "edge_closed (drop_cached_user u s)"
    using Cons.prems by (simp_all add: drop_cached_user_closed)
  from Cons.IH [OF this] show ?case
    using Cons.prems(1) by (simp add: drop_cached_user_identity drop_cached_user_free) blast
qed simp

section \<open>Applying a snapshot\<close>

lemma rotated_identity [simp]:
  "edge_identity u (fold revoke_rotated ts s) = edge_identity u s" "edge_closed (fold revoke_rotated ts s) = edge_closed s"
  "rows_free u (fold revoke_rotated ts s) = rows_free u s" "cache_wf (fold revoke_rotated ts s) = cache_wf s"
proof -
  have "cachedUsers (fold revoke_rotated ts s) = cachedUsers s \<and> cachedTokens (fold revoke_rotated ts s) = cachedTokens s \<and>
      cachedPolicies (fold revoke_rotated ts s) = cachedPolicies s \<and> cachedGrants (fold revoke_rotated ts s) = cachedGrants s \<and>
      cachedDPIPolicies (fold revoke_rotated ts s) = cachedDPIPolicies s"
    by (induction ts arbitrary: s) (simp_all add: revoke_rotated_def)
  then show "edge_identity u (fold revoke_rotated ts s) = edge_identity u s" "edge_closed (fold revoke_rotated ts s) = edge_closed s"
    "rows_free u (fold revoke_rotated ts s) = rows_free u s" "cache_wf (fold revoke_rotated ts s) = cache_wf s"
    by (simp_all add: edge_identity_def edge_closed_def rows_free_def cache_wf_def)
qed

lemma finish_identity [simp]:
  "edge_identity u (finish_snapshot jd now snap s) = edge_identity u s"
  "edge_closed (finish_snapshot jd now snap s) = edge_closed s"
  "rows_free u (finish_snapshot jd now snap s) = rows_free u s"
  by (simp_all add: edge_identity_def edge_closed_def rows_free_def)

text \<open>
  An incremental snapshot replaces the identities of the users it lists or removes; a baseline
  page adds the identities of its users, none of which is cached yet.
\<close>

lemma ApplyIdentitySnapshot_identity:
  assumes applied: "ApplyIdentitySnapshot jd now (Some snap) s = Inr (x, s')"
    and wf: "cache_wf s" "edge_closed s" and snap: "snap_closed snap" "snap_NodeAccessEnforced snap"
    and mode: "snap_Incremental snap \<or> snap_Baseline snap \<and> (\<forall>u \<in> su_ID ` set (snap_Users snap). rows_free u s)"
  shows "cache_wf s'" "edge_closed s'"
    and "snap_Incremental snap \<Longrightarrow>
      edge_identity u s' = (if u \<in> set (touched_users snap) then snapshot_identity u snap else edge_identity u s)"
    and "\<not> snap_Incremental snap \<Longrightarrow>
      edge_identity u s' = (if u \<in> su_ID ` set (snap_Users snap) then snapshot_identity u snap else edge_identity u s)"
proof -
  define s0 where "s0 = clear_replaced snap (fold revoke_rotated (snap_Tokens snap) s)"
  from applied obtain s1 where ins: "insert_identities snap s0 = Some s1" and s': "s' = finish_snapshot jd now snap s1"
    by (auto simp: ApplyIdentitySnapshot_def s0_def split: option.splits)
  have inc: "s0 = fold drop_cached_user (touched_users snap) (fold revoke_rotated (snap_Tokens snap) s)"
    if "snap_Incremental snap" using that by (simp add: s0_def clear_replaced_def)
  have base: "s0 = fold revoke_rotated (snap_Tokens snap) s" if "\<not> snap_Incremental snap"
    using that mode by (simp add: s0_def clear_replaced_def)
  note dropped = fold_drop [of "fold revoke_rotated (snap_Tokens snap) s" "touched_users snap"]
  have s0: "cache_wf s0" "edge_closed s0"
    using wf dropped inc base by (cases "snap_Incremental snap"; simp)+
  have wf1: "cache_wf s1" by (rule cache_wf_insert [OF ins s0(1)])
  then show "cache_wf s'" unfolding s' cache_wf_def by simp
  have "edge_closed s1" by (rule insert_identities_closed [OF ins s0(2) snap(1)])
  then show "edge_closed s'" by (simp add: s')
  show "edge_identity u s' = (if u \<in> set (touched_users snap) then snapshot_identity u snap else edge_identity u s)"
    if "snap_Incremental snap"
  proof (cases "u \<in> set (touched_users snap)")
    case True
    have "rows_free u s0" using True dropped wf inc [OF that] by simp
    with insert_identities_new [OF ins wf1 s0(2) snap(2)] True show ?thesis by (simp add: s')
  next
    case False
    then have "u \<notin> su_ID ` set (snap_Users snap)" by (simp add: touched_users_def)
    with insert_identities_other [OF ins wf1 snap] False dropped wf inc [OF that] show ?thesis by (simp add: s')
  qed
  show "edge_identity u s' = (if u \<in> su_ID ` set (snap_Users snap) then snapshot_identity u snap else edge_identity u s)"
    if "\<not> snap_Incremental snap"
    using that mode base [OF that] insert_identities_new [OF ins wf1 s0(2) snap(2), of u]
      insert_identities_other [OF ins wf1 snap, of u] by (auto simp: s')
qed

end
