(* ===== verification/Identity_Session.thy ===== *)
theory Identity_Session
  imports Edge_Identity
begin

text \<open>
  One control session between the controller and a node, as far as it carries identities:
  \<open>internal/cluster/push.go\<close>, \<open>identity_transfer.go\<close> and the identity part of \<open>client.go\<close>. The
  functions of the controller work on the store and the session; \<open>current\<close> says whether the session
  is still the registered one of its node, \<open>room\<close> whether its send queue has room, and the JSON
  encoding of a snapshot is the parameter \<open>enc\<close>. Timers and the deadlines they guard are not part
  of the state.
\<close>

section \<open>State and messages\<close>

record nodeSession =
  ns_nodeID :: string
  ns_bootID :: string
  ns_cacheProtocol :: int
  ns_admissionProtocol :: int
  ns_cacheSessionID :: string
  ns_cacheReady :: bool
  ns_needsFull :: bool
  ns_needsBlockedIPs :: bool
  ns_baselineActive :: bool
  ns_baselineCursor :: int
  ns_pendingCursor :: int
  ns_pendingRevision :: int
  ns_appliedRevision :: int
  ns_pendingIdentity :: "IdentitySnapshot option"
  ns_pendingPayload :: string
  ns_chunkIndex :: nat
  ns_chunkTotal :: nat
  ns_applyProgress :: int
  ns_blockedIPs :: "(string, BlockedIP) go_map"

text \<open>The messages of an identity exchange; the first argument is the cache session identifier.\<close>

datatype Message =
    Welcome string
  | IdentityChunkMsg string int nat nat string
  | IdentitySnapshotMsg string int IdentitySnapshot
  | IdentityConfirmed string int bool
  | CacheCleared string
  | IdentityChunkAck string int int
  | IdentityProgress string int int
  | IdentityAck string int

definition identityChunkBytes :: nat where
  "identityChunkBytes = 524288"

type_synonym json_encoding = "IdentitySnapshot \<Rightarrow> string"

text \<open>A call that fails gives its error; the store and the session may have changed before.\<close>

record ctl_outcome =
  out_error :: "string option"
  out_store :: Store
  out_session :: nodeSession
  out_sent :: "Message list"

definition done_with :: "string option \<Rightarrow> Store \<Rightarrow> nodeSession \<Rightarrow> Message list \<Rightarrow> ctl_outcome" where
  "done_with e st ses msgs = \<lparr>out_error = e, out_store = st, out_session = ses, out_sent = msgs\<rparr>"

section \<open>Resets\<close>

definition requestCacheReset :: "bool \<Rightarrow> bool \<Rightarrow> string \<Rightarrow> Store \<Rightarrow> nodeSession \<Rightarrow> ctl_outcome" where
  "requestCacheReset current room sid st ses =
     (if \<not> current then done_with (Some ''superseded cache reset'') st ses []
      else
        (let ses' = ses\<lparr>ns_cacheSessionID := sid, ns_cacheReady := False, ns_needsFull := False\<rparr>
         in if room then done_with None st ses' [Welcome sid]
            else done_with (Some ''cache reset send queue full'') st ses' []))"

definition acceptCacheCleared ::
  "collation \<Rightarrow> bool \<Rightarrow> string \<Rightarrow> Store \<Rightarrow> nodeSession \<Rightarrow> ctl_outcome" where
  "acceptCacheCleared coll current sid st ses =
     (if \<not> (current \<and> ns_cacheProtocol ses \<ge> 3 \<and> sid = ns_cacheSessionID ses)
      then done_with (if sid \<noteq> ns_cacheSessionID ses then None else Some ''cache-cleared session mismatch'') st ses []
      else if ns_cacheReady ses then done_with None st ses []
      else case ResetNodeIdentityCache coll (ns_nodeID ses) (ns_cacheSessionID ses) (ns_bootID ses) st of
             Inl _ \<Rightarrow> done_with (Some ''identity storage error'') st ses []
           | Inr (_, st') \<Rightarrow>
               done_with None st'
                 (ses\<lparr>ns_cacheReady := True, ns_needsFull := False, ns_baselineActive := True, ns_baselineCursor := 0,
                      ns_pendingRevision := 0, ns_appliedRevision := 0, ns_pendingIdentity := None,
                      ns_blockedIPs := []\<rparr>) [])"

section \<open>Building snapshots\<close>

definition snapshot_user :: "User \<Rightarrow> SnapshotUser" where
  "snapshot_user u = \<lparr>su_ID = user_ID u, su_Username = user_Username u, su_Role = user_Role u,
                      su_Status = user_Status u, su_BanReason = user_BanReason u\<rparr>"

definition snapshot_token :: "AccessToken \<Rightarrow> SnapshotToken" where
  "snapshot_token t =
     \<lparr>sn_ID = token_ID t, sn_UserID = token_UserID t, sn_Name = token_Name t, sn_TokenHash = token_TokenHash t,
      sn_Status = token_Status t, sn_BanReason = token_BanReason t, sn_MaxProxyCount = token_MaxProxyCount t,
      sn_ExpiresAt = token_ExpiresAt t\<rparr>"

definition page_snapshot :: "bool \<Rightarrow> int \<Rightarrow> BlockedIP list \<Rightarrow> NodeIdentityPage \<Rightarrow> IdentitySnapshot" where
  "page_snapshot baseline revision blocks p =
     (let ended = baseline \<and> page_End p in
      \<lparr>snap_Baseline = baseline, snap_BaselineEnd = ended, snap_ReplaceBlockedIPs = ended,
       snap_Incremental = (\<not> baseline), snap_RemovedUserIDs = page_Removed p, snap_NodeAccessEnforced = True,
       snap_Revision = revision, snap_Users = map snapshot_user (page_Users p),
       snap_Tokens = map snapshot_token (page_Tokens p), snap_Policies = page_Policies p,
       snap_Grants = page_Grants p, snap_DPIPolicies = page_DPIPolicies p,
       snap_BlockedIPs = (if ended then blocks else []), snap_RemovedBlockedIPs = []\<rparr>)"

text \<open>The message is its snapshot: the payload is the encoding of it, the revision is the snapshot's.\<close>

definition identityPageMessage ::
  "collation \<Rightarrow> BlockedIP list \<Rightarrow> int list option \<Rightarrow> Store \<Rightarrow> nodeSession \<Rightarrow>
     (string + IdentitySnapshot) \<times> Store \<times> nodeSession" where
  "identityPageMessage coll blocks requested st ses =
     (let baseline = ns_baselineActive ses;
          cursor = (if baseline then ns_baselineCursor ses else 0)
      in case ReadNodeIdentityPage coll (ns_nodeID ses) cursor requested 64 st of
           None \<Rightarrow> (Inl ''invalid identity page'', st, ses)
         | Some page \<Rightarrow>
             (case NextIdentityRevision st of
                Inl _ \<Rightarrow> (Inl ''identity revision counter is unavailable'', st, ses)
              | Inr (revision, st') \<Rightarrow>
                  (Inr (page_snapshot baseline revision blocks page), st',
                   ses\<lparr>ns_pendingCursor := page_LastID page\<rparr>)))"

definition blockedIPMessage ::
  "BlockedIP list \<Rightarrow> Store \<Rightarrow> nodeSession \<Rightarrow> (string + IdentitySnapshot) \<times> Store \<times> nodeSession" where
  "blockedIPMessage blocks st ses =
     (case NextIdentityRevision st of
        Inl _ \<Rightarrow> (Inl ''identity revision counter is unavailable'', st, ses)
      | Inr (revision, st') \<Rightarrow>
          (let changed = filter (\<lambda>b. case map_of (ns_blockedIPs ses) (blk_IP b) of
                   None \<Rightarrow> True
                 | Some old \<Rightarrow> blk_Reason old \<noteq> blk_Reason b \<or> blk_CreatedAt old \<noteq> blk_CreatedAt b) blocks;
               gone = filter (\<lambda>ip. ip \<notin> set (map blk_IP blocks)) (map fst (ns_blockedIPs ses));
               legacy = ns_admissionProtocol ses < 1
           in (Inr \<lparr>snap_Baseline = False, snap_BaselineEnd = False, snap_ReplaceBlockedIPs = legacy,
                    snap_Incremental = True, snap_RemovedUserIDs = [], snap_NodeAccessEnforced = True,
                    snap_Revision = revision, snap_Users = [], snap_Tokens = [], snap_Policies = [],
                    snap_Grants = [], snap_DPIPolicies = [],
                    snap_BlockedIPs = (if legacy then blocks else changed),
                    snap_RemovedBlockedIPs = (if legacy then [] else gone)\<rparr>, st',
               ses\<lparr>ns_needsBlockedIPs := False\<rparr>)))"

text \<open>
  The snapshot of protocols before the third: the whole node, or the requested users. The rows come
  from the listings of the store, and access is read once per node.
\<close>

definition ListDPIPolicies :: "Store \<Rightarrow> Policy list" where
  "ListDPIPolicies st = map read_dpi (order_by_desc (dpi_UserID \<circ> fst) (dpiPolicies st))"

definition identitySnapshotForUsers ::
  "collation \<Rightarrow> BlockedIP list \<Rightarrow> string \<Rightarrow> int list option \<Rightarrow> Store \<Rightarrow> (string + IdentitySnapshot) \<times> Store" where
  "identitySnapshotForUsers coll blocks node requested st =
     (case NextIdentityRevision st of
        Inl _ \<Rightarrow> (Inl ''identity revision counter is unavailable'', st)
      | Inr (revision, st') \<Rightarrow>
          (let allowed = ListNodeUserAccess coll node st';
               wanted = (\<lambda>u. case requested of None \<Rightarrow> True | Some ids \<Rightarrow> u \<in> set ids);
               kept = filter (\<lambda>u. wanted (user_ID u) \<and> map_get False allowed (user_ID u)) (ListUsers st');
               keptUsers = set (map user_ID kept);
               tokens = filter (\<lambda>t. token_UserID t \<in> keptUsers) (ListAccessTokens st');
               keptTokens = set (map token_ID tokens)
           in (Inr \<lparr>snap_Baseline = False, snap_BaselineEnd = False, snap_ReplaceBlockedIPs = False,
                    snap_Incremental = (requested \<noteq> None),
                    snap_RemovedUserIDs = (case requested of None \<Rightarrow> [] | Some ids \<Rightarrow> filter (\<lambda>i. i \<notin> keptUsers) ids),
                    snap_NodeAccessEnforced = True, snap_Revision = revision,
                    snap_Users = map snapshot_user kept, snap_Tokens = map snapshot_token tokens,
                    snap_Policies = filter (\<lambda>p. policy_UserID p \<in> keptUsers) (ListUserResourcePolicies st'),
                    snap_Grants = filter (\<lambda>g. grant_TokenID g \<in> keptTokens) (ListAllPortGrants st'),
                    snap_DPIPolicies = filter (\<lambda>p. dpi_UserID p \<in> keptUsers) (ListDPIPolicies st'),
                    snap_BlockedIPs = (if requested = None then blocks else []), snap_RemovedBlockedIPs = []\<rparr>, st')))"

section \<open>Sending\<close>

definition chunk_data :: "nodeSession \<Rightarrow> string" where
  "chunk_data ses = take identityChunkBytes (drop (ns_chunkIndex ses * identityChunkBytes) (ns_pendingPayload ses))"

definition chunk_message :: "nodeSession \<Rightarrow> Message" where
  "chunk_message ses =
     IdentityChunkMsg (ns_cacheSessionID ses) (ns_pendingRevision ses) (ns_chunkIndex ses) (ns_chunkTotal ses) (chunk_data ses)"

definition sendIdentityChunkLocked :: "bool \<Rightarrow> Store \<Rightarrow> nodeSession \<Rightarrow> ctl_outcome" where
  "sendIdentityChunkLocked room st ses =
     (if room then done_with None st ses [chunk_message ses]
      else done_with (Some ''identity fragment send queue full'') st ses [])"

definition enqueueIdentity ::
  "collation \<Rightarrow> json_encoding \<Rightarrow> bool \<Rightarrow> bool \<Rightarrow> IdentitySnapshot \<Rightarrow> Store \<Rightarrow> nodeSession \<Rightarrow> ctl_outcome" where
  "enqueueIdentity coll enc current room snap st ses =
     (case PrepareNodeIdentityCache coll (ns_nodeID ses) (ns_cacheSessionID ses) (snap_Revision snap) (touched_users snap) st of
        Inl _ \<Rightarrow> done_with (Some ''prepare identity cache'') st ses []
      | Inr (_, st') \<Rightarrow>
          if \<not> current then done_with (Some ''superseded edge session'') st' ses []
          else
            (let ses1 = ses\<lparr>ns_pendingRevision := snap_Revision snap, ns_pendingIdentity := Some snap, ns_applyProgress := 0\<rparr>;
                 ses2 = (if \<not> snap_Incremental snap \<and> \<not> snap_Baseline snap then ses1\<lparr>ns_needsFull := False\<rparr> else ses1)
             in if ns_cacheProtocol ses \<ge> 3
                then sendIdentityChunkLocked room st'
                       (ses2\<lparr>ns_pendingPayload := enc snap, ns_chunkIndex := 0,
                             ns_chunkTotal := (length (enc snap) + identityChunkBytes - 1) div identityChunkBytes\<rparr>)
                else if room then done_with None st' ses2 [IdentitySnapshotMsg (ns_cacheSessionID ses) (snap_Revision snap) snap]
                else done_with (Some ''edge identity send queue full'') st' ses2 []))"

text \<open>
  \<open>pushNodeIdentity\<close>. \<open>sid\<close> is the identifier a reset would draw. An error of a step is only logged,
  except that a reset that cannot be sent cancels the session.
\<close>

definition enqueue_result ::
  "collation \<Rightarrow> json_encoding \<Rightarrow> bool \<Rightarrow> bool \<Rightarrow> (string + IdentitySnapshot) \<times> Store \<times> nodeSession \<Rightarrow> ctl_outcome" where
  "enqueue_result coll enc current room r =
     (case r of
        (Inl e, st, ses) \<Rightarrow> done_with (Some e) st ses []
      | (Inr snap, st, ses) \<Rightarrow> enqueueIdentity coll enc current room snap st ses)"

definition push_blocked ::
  "collation \<Rightarrow> json_encoding \<Rightarrow> bool \<Rightarrow> bool \<Rightarrow> BlockedIP list \<Rightarrow> Store \<Rightarrow> nodeSession \<Rightarrow> ctl_outcome" where
  "push_blocked coll enc current room blocks st ses =
     (let out = enqueue_result coll enc current room (blockedIPMessage blocks st ses)
      in if out_error out = None then out
         else out\<lparr>out_session := (out_session out)\<lparr>ns_needsBlockedIPs := True\<rparr>\<rparr>)"

definition push_users ::
  "collation \<Rightarrow> json_encoding \<Rightarrow> bool \<Rightarrow> bool \<Rightarrow> BlockedIP list \<Rightarrow> int list option \<Rightarrow> Store \<Rightarrow> nodeSession \<Rightarrow> ctl_outcome" where
  "push_users coll enc current room blocks requested st ses =
     (if ns_cacheProtocol ses \<ge> 3
      then enqueue_result coll enc current room (identityPageMessage coll blocks requested st ses)
      else case identitySnapshotForUsers coll blocks (ns_nodeID ses) requested st of
             (r, st') \<Rightarrow> enqueue_result coll enc current room (r, st', ses))"

definition pushNodeIdentity ::
  "collation \<Rightarrow> json_encoding \<Rightarrow> bool \<Rightarrow> bool \<Rightarrow> bool \<Rightarrow> string \<Rightarrow> BlockedIP list \<Rightarrow> Store \<Rightarrow> nodeSession \<Rightarrow> ctl_outcome" where
  "pushNodeIdentity coll enc dbUnavailable current room sid blocks st ses =
     (let full = ns_needsFull ses; baseline = ns_baselineActive ses; ready = ns_cacheReady ses
      in if dbUnavailable then done_with None st ses []
         else if ns_cacheSessionID ses = [] \<or> ns_pendingRevision ses > ns_appliedRevision ses then done_with None st ses []
         else if full \<and> \<not> ready \<and> ns_cacheProtocol ses \<ge> 3 then requestCacheReset current room sid st ses
         else if \<not> ready then done_with None st ses []
         else if full \<and> \<not> baseline \<and> ns_cacheProtocol ses \<ge> 3 then requestCacheReset current room sid st ses
         else if ns_needsBlockedIPs ses \<and> \<not> full \<and> \<not> baseline \<and> ns_cacheProtocol ses \<ge> 3
         then push_blocked coll enc current room blocks st ses
         else if \<not> full \<and> \<not> baseline
         then (let users = PendingNodeIdentityUsers coll (ns_nodeID ses) (ns_cacheSessionID ses) st
               in if users = [] then done_with None st ses []
                  else push_users coll enc current room blocks (if ns_cacheProtocol ses < 2 then None else Some users) st ses)
         else push_users coll enc current room blocks None st ses)"

section \<open>Acknowledgements\<close>

definition acceptIdentityProgress :: "bool \<Rightarrow> bool \<Rightarrow> Message \<Rightarrow> Store \<Rightarrow> nodeSession \<Rightarrow> ctl_outcome" where
  "acceptIdentityProgress current room msg st ses =
     (let check = (\<lambda>sid revision sequence chunk.
        if current \<and> sid \<noteq> ns_cacheSessionID ses then done_with None st ses []
        else if sid = ns_cacheSessionID ses \<and> revision \<le> ns_appliedRevision ses then done_with None st ses []
        else if \<not> current \<or> ns_cacheProtocol ses < 3 \<or> sid \<noteq> ns_cacheSessionID ses \<or>
                ns_pendingIdentity ses = None \<or> revision \<noteq> ns_pendingRevision ses
        then done_with (Some ''identity progress epoch/revision mismatch'') st ses []
        else if \<not> chunk then
          done_with None st (if sequence > ns_applyProgress ses then ses\<lparr>ns_applyProgress := sequence\<rparr> else ses) []
        else if sequence < int (ns_chunkIndex ses) then done_with None st ses []
        else if sequence \<noteq> int (ns_chunkIndex ses) \<or> ns_chunkIndex ses \<ge> ns_chunkTotal ses
        then done_with (Some ''unexpected identity chunk acknowledgement'') st ses []
        else
          (let ses' = ses\<lparr>ns_chunkIndex := ns_chunkIndex ses + 1\<rparr>
           in if ns_chunkIndex ses' < ns_chunkTotal ses' then sendIdentityChunkLocked room st ses'
              else done_with None st ses' []))
      in case msg of
           IdentityChunkAck sid revision sequence \<Rightarrow> check sid revision sequence True
         | IdentityProgress sid revision sequence \<Rightarrow> check sid revision sequence False
         | _ \<Rightarrow> done_with None st ses [])"

definition confirmed_blocks :: "IdentitySnapshot \<Rightarrow> (string, BlockedIP) go_map \<Rightarrow> (string, BlockedIP) go_map" where
  "confirmed_blocks snap old =
     (let base = (if snap_ReplaceBlockedIPs snap then [] else old);
          added = fold (\<lambda>b. AList.update (blk_IP b) b) (snap_BlockedIPs snap) base
      in fold AList.delete (snap_RemovedBlockedIPs snap) added)"

definition confirmIdentity ::
  "collation \<Rightarrow> go_time \<Rightarrow> bool \<Rightarrow> bool \<Rightarrow> string \<Rightarrow> int \<Rightarrow> Store \<Rightarrow> nodeSession \<Rightarrow> ctl_outcome" where
  "confirmIdentity coll db_now current room sid revision st ses =
     (if \<not> current then done_with (Some ''superseded cache acknowledgement'') st ses []
      else if ns_cacheProtocol ses \<ge> 2 \<and> sid \<noteq> ns_cacheSessionID ses then done_with None st ses []
      else if revision \<le> ns_appliedRevision ses then done_with None st ses []
      else case ns_pendingIdentity ses of
             None \<Rightarrow> done_with (Some ''unexpected identity acknowledgement revision'') st ses []
           | Some snap \<Rightarrow>
               if snap_Revision snap \<noteq> revision
               then done_with (Some ''unexpected identity acknowledgement revision'') st ses []
               else if ns_cacheProtocol ses \<ge> 3 \<and> ns_chunkIndex ses \<noteq> ns_chunkTotal ses
               then done_with (Some ''identity ACK before all fragments received'') st ses []
               else
                 (case ConfirmNodeIdentityCache coll db_now (ns_nodeID ses) (ns_cacheSessionID ses) revision
                         (map su_ID (snap_Users snap)) (snap_RemovedUserIDs snap)
                         (\<not> snap_Incremental snap \<and> \<not> snap_Baseline snap) st of
                    Inl _ \<Rightarrow> done_with (Some ''identity storage error'') st ses []
                  | Inr (_, st') \<Rightarrow>
                      (let ses1 = ses\<lparr>ns_appliedRevision := revision, ns_pendingIdentity := None, ns_pendingPayload := [],
                                     ns_blockedIPs := confirmed_blocks snap (ns_blockedIPs ses)\<rparr>;
                           ses2 = (if snap_Baseline snap
                                   then ses1\<lparr>ns_baselineCursor := ns_pendingCursor ses1,
                                             ns_baselineActive := (\<not> snap_BaselineEnd snap)\<rparr>
                                   else ses1)
                       in if ns_cacheProtocol ses \<ge> 2
                          then (if room
                                then done_with None st' ses2
                                  [IdentityConfirmed (ns_cacheSessionID ses) revision (\<not> snap_Baseline snap \<or> snap_BaselineEnd snap)]
                                else done_with (Some ''edge identity confirmation queue full'') st' ses2 [])
                          else done_with None st' ses2 [])))"

section \<open>The node's end\<close>

datatype apply_job = ResetJob string | SnapshotJob string int string

record EdgeLink =
  el_connected :: bool
  el_syncReady :: bool
  el_identityProtocol :: int
  el_cacheSessionID :: string
  el_chunkBuffer :: string
  el_chunkRevision :: int
  el_chunkIndex :: nat
  el_chunkTotal :: nat
  el_locallyApplied :: int
  el_job :: "apply_job option"
  el_running :: "apply_job option"

text \<open>The apply queue holds one job besides the one the worker is on.\<close>

definition queueApply :: "apply_job \<Rightarrow> EdgeLink \<Rightarrow> string + EdgeLink" where
  "queueApply job l =
     (if el_job l = None then Inr (l\<lparr>el_job := Some job\<rparr>) else Inl ''overlapping identity application'')"

text \<open>The receive loop on one identity message: the error that ends the connection, or the answers.\<close>

definition receive_welcome :: "int \<Rightarrow> string \<Rightarrow> EdgeLink \<Rightarrow> string + EdgeLink \<times> Message list" where
  "receive_welcome protocol sid l =
     (let l1 = l\<lparr>el_connected := True, el_identityProtocol := protocol, el_cacheSessionID := sid\<rparr>
      in if protocol \<ge> 3 then
           (if sid = [] then Inl ''missing cache reset epoch''
            else case queueApply (ResetJob sid) (l1\<lparr>el_syncReady := False, el_chunkBuffer := []\<rparr>) of
                   Inl e \<Rightarrow> Inl e
                 | Inr l2 \<Rightarrow> Inr (l2, []))
         else Inr (l1, []))"

definition receive_chunk ::
  "string \<Rightarrow> int \<Rightarrow> int \<Rightarrow> nat \<Rightarrow> nat \<Rightarrow> string \<Rightarrow> EdgeLink \<Rightarrow> string + EdgeLink \<times> Message list" where
  "receive_chunk sid revision sequence index count data l =
     (if el_identityProtocol l < 3 \<or> sid \<noteq> el_cacheSessionID l then Inl ''identity chunk session mismatch''
      else if index = 0 \<and> el_chunkBuffer l \<noteq> [] then Inl ''overlapping identity fragments''
      else
        (let l1 = (if index = 0
                   then l\<lparr>el_syncReady := False, el_chunkRevision := revision, el_chunkIndex := 0, el_chunkTotal := count\<rparr>
                   else l)
         in if count < 1 \<or> count \<noteq> el_chunkTotal l1 \<or> index \<noteq> el_chunkIndex l1 \<or> sequence \<noteq> int (el_chunkIndex l1) \<or>
               revision \<noteq> el_chunkRevision l1 \<or> data = [] \<or> length data > identityChunkBytes
            then Inl ''invalid identity fragment sequence''
            else
              (let l2 = l1\<lparr>el_chunkBuffer := el_chunkBuffer l1 @ data, el_chunkIndex := el_chunkIndex l1 + 1\<rparr>;
                   answer = [IdentityChunkAck sid revision (int (el_chunkIndex l1))]
               in if el_chunkIndex l2 = el_chunkTotal l2
                  then (case queueApply (SnapshotJob sid revision (el_chunkBuffer l2)) (l2\<lparr>el_chunkBuffer := []\<rparr>) of
                          Inl e \<Rightarrow> Inl e
                        | Inr l3 \<Rightarrow> Inr (l3, answer))
                  else Inr (l2, answer))))"

definition receive_confirmed :: "string \<Rightarrow> int \<Rightarrow> bool \<Rightarrow> EdgeLink \<Rightarrow> string + EdgeLink \<times> Message list" where
  "receive_confirmed sid revision complete l =
     (if sid \<noteq> el_cacheSessionID l \<or> revision \<noteq> el_locallyApplied l then Inl ''controller identity confirmation mismatch''
      else Inr (l\<lparr>el_syncReady := (el_identityProtocol l < 3 \<or> complete)\<rparr>, []))"

text \<open>
  The apply worker takes the queued job, and finishes it; \<open>dec\<close> decodes a payload, and \<open>k\<close> is the number
  of times the application of a snapshot reports its progress.
\<close>

definition take_job :: "EdgeLink \<Rightarrow> EdgeLink" where
  "take_job l = (if el_running l = None then l\<lparr>el_running := el_job l, el_job := None\<rparr> else l)"

definition run_job ::
  "julian \<Rightarrow> go_time \<Rightarrow> (string \<Rightarrow> IdentitySnapshot option) \<Rightarrow> nat \<Rightarrow> EdgeStore \<Rightarrow> EdgeLink \<Rightarrow>
     string + EdgeStore \<times> EdgeLink \<times> Message list" where
  "run_job jd now dec k s l =
     (case el_running l of
        None \<Rightarrow> Inr (s, l, [])
      | Some (ResetJob sid) \<Rightarrow>
          Inr (DiscardControlIdentityCache s, l\<lparr>el_running := None, el_locallyApplied := 0\<rparr>, [CacheCleared sid])
      | Some (SnapshotJob sid revision payload) \<Rightarrow>
          (case dec payload of
             None \<Rightarrow> Inl ''identity payload revision mismatch''
           | Some snap \<Rightarrow>
               if snap_Revision snap \<noteq> revision then Inl ''identity payload revision mismatch''
               else case ApplyIdentitySnapshot jd now (Some snap) s of
                      Inl _ \<Rightarrow> Inl ''apply identity revision''
                    | Inr (_, s') \<Rightarrow>
                        Inr (s', l\<lparr>el_running := None, el_locallyApplied := revision\<rparr>,
                             map (\<lambda>i. IdentityProgress sid revision (int i)) [1..<Suc k] @ [IdentityAck sid revision])))"

end
