(* ===== verification/Identity_Rows.thy ===== *)
theory Identity_Rows
  imports Identity_Session
begin

text \<open>
  What the steps of the controller do to the outbox rows of one node: a change of a user's identity
  leaves a pending row above every revision issued before; preparing, confirming and resetting have
  their exact effect on the row of each user; steps for other nodes have none.
\<close>

section \<open>Changes of identities\<close>

text \<open>How the identity and the row of a user may evolve in a step that is not the node's own.\<close>

definition row_evolves :: "collation \<Rightarrow> string \<Rightarrow> Store \<Rightarrow> Store \<Rightarrow> int \<Rightarrow> bool" where
  "row_evolves coll n st st' u \<longleftrightarrow>
     identity_at coll n u st' = identity_at coll n u st \<and> cache_row coll u n st' = cache_row coll u n st \<or>
     (\<exists>c. cache_row coll u n st' = Some c \<and> revision_of st < cache_Desired c \<and> cache_Applied c \<le> revision_of st \<and>
        (\<forall>d. cache_row coll u n st = Some d \<longrightarrow> cache_Applied c = cache_Applied d)) \<or>
     cache_row coll u n st = None \<and> cache_row coll u n st' = None \<and> identity_at coll n u st' = no_identity"

definition evolves :: "collation \<Rightarrow> string \<Rightarrow> Store \<Rightarrow> Store \<Rightarrow> bool" where
  "evolves coll n st st' \<longleftrightarrow> revision_of st \<le> revision_of st' \<and>
     session_of coll n (cacheSessions st') = session_of coll n (cacheSessions st) \<and> edgeNodes st' = edgeNodes st \<and>
     (\<forall>u. row_evolves coll n st st' u)"

lemma evolves_same_rows:
  assumes "revision_of st \<le> revision_of st'" "session_of coll n (cacheSessions st') = session_of coll n (cacheSessions st)"
    "edgeNodes st' = edgeNodes st" "\<And>u. identity_at coll n u st' = identity_at coll n u st"
    "\<And>u. cache_row coll u n st' = cache_row coll u n st"
  shows "evolves coll n st st'"
  using assms by (simp add: evolves_def row_evolves_def)

lemma evolves_quiet: "quiet coll st st' \<Longrightarrow> evolves coll n st st'"
  by (rule evolves_same_rows) (auto simp: quiet_def revision_of_def cache_row_def)

lemma cache_row_bounds:
  assumes "outbox_inv coll st" "cache_row coll u n st = Some c"
  shows "cache_Desired c \<le> revision_of st" "cache_Applied c \<le> revision_of st" "u < nextUserID st"
    "cache_SessionID c = current_session coll n (cacheSessions st)"
proof -
  from assms(2) have c: "c \<in> set (userNodeCache st)" "cache_key coll c = (u, coll n)"
    by (auto simp: cache_row_def dest: find_Some_iff')
  with assms(1) show "cache_Desired c \<le> revision_of st" "cache_Applied c \<le> revision_of st" "u < nextUserID st"
    by (auto simp: outbox_inv_def cache_key_def)
  from c assms(1) have "cache_SessionID c = current_session coll (cache_NodeID c) (cacheSessions st)"
    by (simp add: outbox_inv_def store_parts)
  with c show "cache_SessionID c = current_session coll n (cacheSessions st)"
    using session_of_coll [of coll "cache_NodeID c" n] by (simp add: cache_key_def current_session_def)
qed

lemma revision_nonneg: "outbox_inv coll st \<Longrightarrow> 0 \<le> revision_of st"
  by (auto simp: outbox_inv_def store_parts revision_of_def)

lemma evolves_announced:
  assumes inv: "outbox_inv coll st" and reg: "registered coll n st" and ann: "announced coll v st st'"
  shows "evolves coll n st st'"
proof -
  obtain x s1 where touch: "touches coll v st s1" and mark: "markUserIdentityDirtyTx coll v s1 = Inr (x, st')"
    using ann by (auto simp: announced_def)
  have rows1: "cache_row coll u n s1 = cache_row coll u n st" for u
    using touch by (simp add: touches_def cache_row_def)
  have rev1: "revision_of s1 = revision_of st" using touch by (simp add: touches_def revision_of_def)
  have bound: "cache_Desired c \<le> revision_of s1" if "c \<in> set (userNodeCache s1)" for c
    using that touch inv rev1 by (auto simp: touches_def outbox_inv_def)
  note eff = mark_dirty_effect [OF mark bound]
  have reg1: "registered coll n s1" using reg touch by (simp add: registered_def touches_def)
  have "row_evolves coll n st st' u" for u
  proof (cases "u = v")
    case False
    then have "cache_row coll u n st' = cache_row coll u n st" using eff(4) [where v = u and n = n] rows1 by simp
    moreover have "identity_at coll n u st' = identity_at coll n u st"
      using eff(2) [where v = u and n = n] touch False by (simp add: touches_def)
    ultimately show ?thesis by (simp add: row_evolves_def)
  next
    case True
    show ?thesis
    proof (cases "cache_row coll v n s1 \<noteq> None \<or> CanAccessNode coll v n s1")
      case known: True
      obtain c where c: "cache_row coll v n st' = Some c" "cache_Desired c = revision_of st'"
        and old: "cache_row coll v n s1 = None \<and> cache_Applied c = 0 \<or>
          (\<exists>d. cache_row coll v n s1 = Some d \<and> cache_Applied c = cache_Applied d)"
        using eff(3) [OF _ reg1] known by blast
      have "cache_Applied c \<le> revision_of st"
        using old rows1 cache_row_bounds(2) [OF inv] revision_nonneg [OF inv] by auto
      with c old rows1 eff(1) rev1 True show ?thesis unfolding row_evolves_def by auto
    next
      case False
      then have "cache_row coll v n st' = cache_row coll v n st" using eff(4) [where v = v and n = n] rows1 by simp
      moreover have "identity_at coll n v st' = no_identity"
        using False eff(2) [where v = v and n = n] by (simp add: identity_at_def)
      ultimately show ?thesis using False rows1 True by (simp add: row_evolves_def)
    qed
  qed
  then show ?thesis
    using eff(1,5) rev1 touch by (simp add: evolves_def touches_def)
qed

lemma evolves_mutation:
  assumes "outbox_inv coll st" "registered coll n st" "caller_ok op st" "\<not> sync_op op"
  shows "evolves coll n st (store_exec coll t op st)"
  using op_effect [OF assms(1,3,4), of t] evolves_quiet evolves_announced [OF assms(1,2)] by blast

section \<open>Steps of other nodes\<close>

definition other_node :: "collation \<Rightarrow> string \<Rightarrow> store_op \<Rightarrow> bool" where
  "other_node coll n op =
     (case op of SO_NextIdentityRevision \<Rightarrow> True | SO_ResetNodeIdentityCache m _ _ \<Rightarrow> coll m \<noteq> coll n
      | SO_PrepareNodeIdentityCache m _ _ _ \<Rightarrow> coll m \<noteq> coll n | SO_ConfirmNodeIdentityCache m _ _ _ _ _ \<Rightarrow> coll m \<noteq> coll n
      | _ \<Rightarrow> False)"

lemma find_filter_other:
  "(\<And>c. c \<in> set rows \<Longrightarrow> Q c \<Longrightarrow> \<not> P c) \<Longrightarrow> find P (delete_where Q rows) = find P rows"
  by (induction rows) (auto simp: delete_where_def)

lemma find_update_other:
  "(\<And>c. P c \<Longrightarrow> \<not> Q c) \<Longrightarrow> (\<And>c. Q c \<Longrightarrow> \<not> P (f c)) \<Longrightarrow> find P (update_where Q f rows) = find P rows"
  by (induction rows) (auto simp: update_where_def)

lemma confirm_other_rows:
  assumes "coll m \<noteq> coll n"
  shows "find (\<lambda>c. cache_key coll c = (u, coll n)) (confirm_user coll t m sid r v rows) = find (\<lambda>c. cache_key coll c = (u, coll n)) rows"
    and "find (\<lambda>c. cache_key coll c = (u, coll n)) (confirm_removed coll m sid r v rows) = find (\<lambda>c. cache_key coll c = (u, coll n)) rows"
    and "find (\<lambda>c. cache_key coll c = (u, coll n)) (confirm_full coll m sid r rows) = find (\<lambda>c. cache_key coll c = (u, coll n)) rows"
  unfolding confirm_user_def confirm_removed_def confirm_full_def Let_def
  by (subst find_filter_other find_update_other; use assms in \<open>auto simp: cache_row_of_def cache_key_def\<close>)+

lemma evolves_other:
  assumes inv: "outbox_inv coll st" and ok: "caller_ok op st" and other: "other_node coll n op"
  shows "evolves coll n st (store_exec coll t op st)"
proof -
  have sync: "sync_op op" using other by (cases op) (auto simp: other_node_def sync_op_def)
  have same: "identity_at coll n u (store_exec coll t op st) = identity_at coll n u st" for u
    using sync_effect(2) [OF inv ok sync refl] by (intro identity_at_same) auto
  have fold_same: "find P (fold f xs rows) = find P rows" if "\<And>x rows. find P (f x rows) = find P rows" for P :: "CacheRow \<Rightarrow> bool" and f xs rows
    using that by (induction xs arbitrary: rows) auto
  have up: "find (\<lambda>c. cache_key coll c = (u, coll n)) (upsert_desired coll v m sid r rows) =
      find (\<lambda>c. cache_key coll c = (u, coll n)) rows" if "coll m \<noteq> coll n" for u v m sid r rows
    using that by (auto simp: upsert_desired_find)
  have fold_up: "find (\<lambda>c. cache_key coll c = (u, coll n)) (fold (\<lambda>v. upsert_desired coll v m sid r) vs rows) =
      find (\<lambda>c. cache_key coll c = (u, coll n)) rows" if "coll m \<noteq> coll n" for u vs m sid r rows
    by (rule fold_same) (rule up [OF that])
  have fold_user: "find (\<lambda>c. cache_key coll c = (u, coll n)) (fold (confirm_user coll t m sid r) vs rows) =
      find (\<lambda>c. cache_key coll c = (u, coll n)) rows" if "coll m \<noteq> coll n" for u vs m sid r rows
    by (rule fold_same) (rule confirm_other_rows(1), rule that)
  have fold_removed: "find (\<lambda>c. cache_key coll c = (u, coll n)) (fold (confirm_removed coll m sid r) vs rows) =
      find (\<lambda>c. cache_key coll c = (u, coll n)) rows" if "coll m \<noteq> coll n" for u vs m sid r rows
    by (rule fold_same) (rule confirm_other_rows(2), rule that)
  have reset: "find (\<lambda>c. cache_key coll c = (u, coll n)) (delete_where (\<lambda>c. coll (cache_NodeID c) = coll m) rows) =
      find (\<lambda>c. cache_key coll c = (u, coll n)) rows" if "coll m \<noteq> coll n" for u m rows
    by (rule find_filter_other) (use that in \<open>auto simp: cache_key_def\<close>)
  have rows: "cache_row coll u n (store_exec coll t op st) = cache_row coll u n st" for u
    using other
    by (cases op)
      (auto simp: other_node_def cache_row_def commit_def NextIdentityRevision_def ResetNodeIdentityCache_def
        PrepareNodeIdentityCache_def ConfirmNodeIdentityCache_def Let_def reset fold_up fold_user fold_removed confirm_other_rows
        split: option.splits if_splits)
  have ses: "find (\<lambda>c. coll (csess_NodeID c) = coll n)
      (update_where (\<lambda>c. coll (csess_NodeID c) = coll m) (\<lambda>c. c\<lparr>csess_SessionID := sid, csess_BootID := b\<rparr>) rows) =
      find (\<lambda>c. coll (csess_NodeID c) = coll n) rows" if "coll m \<noteq> coll n" for m sid b rows
    by (rule find_update_other) (use that in auto)
  have "session_of coll n (cacheSessions (store_exec coll t op st)) = session_of coll n (cacheSessions st)"
    using other
    by (cases op)
      (auto simp: other_node_def commit_def NextIdentityRevision_def ResetNodeIdentityCache_def
        PrepareNodeIdentityCache_def ConfirmNodeIdentityCache_def Let_def session_of_def find_append ses
        split: option.splits if_splits)
  then show ?thesis
    using same rows other
    by (intro evolves_same_rows)
      (cases op, auto simp: other_node_def commit_def NextIdentityRevision_def ResetNodeIdentityCache_def
        PrepareNodeIdentityCache_def ConfirmNodeIdentityCache_def Let_def revision_of_def split: option.splits if_splits)+
qed

section \<open>Steps of the node itself\<close>

text \<open>The applied and the desired revision of a row.\<close>

definition row_look :: "collation \<Rightarrow> string \<Rightarrow> int \<Rightarrow> CacheRow list \<Rightarrow> (int \<times> int) option" where
  "row_look coll n u rows =
     map_option (\<lambda>c. (cache_Applied c, cache_Desired c)) (find (\<lambda>c. cache_key coll c = (u, coll n)) rows)"

definition row_state :: "collation \<Rightarrow> string \<Rightarrow> int \<Rightarrow> Store \<Rightarrow> (int \<times> int) option" where
  "row_state coll n u st = row_look coll n u (userNodeCache st)"

lemma row_state_cache: "row_state coll n u st = map_option (\<lambda>c. (cache_Applied c, cache_Desired c)) (cache_row coll u n st)"
  by (simp add: row_state_def row_look_def cache_row_def)

abbreviation same_identities :: "Store \<Rightarrow> Store \<Rightarrow> bool" where
  "same_identities st st' \<equiv> \<forall>coll m u. identity_at coll m u st' = identity_at coll m u st"

lemma find_update_keeps:
  "(\<And>c. P (f c) = P c) \<Longrightarrow> find P (update_where Q f rows) = map_option (\<lambda>c. if Q c then f c else c) (find P rows)"
  by (induction rows) (auto simp: update_where_def)

lemma find_delete_unique:
  "distinct (map k rows) \<Longrightarrow> find (\<lambda>c. k c = x) (delete_where Q rows) =
     (case find (\<lambda>c. k c = x) rows of None \<Rightarrow> None | Some c \<Rightarrow> if Q c then None else Some c)"
proof (induction rows)
  case (Cons c rows)
  have "find (\<lambda>c. k c = x) rows = None" if "k c = x"
    using that Cons.prems by (auto simp: find_None_iff) (metis image_eqI)
  with Cons show ?case by (auto simp: delete_where_def)
qed (simp add: delete_where_def)

lemma prepare_row:
  assumes "PrepareNodeIdentityCache coll n sid r us st = Inr (x, st')"
  shows "row_state coll n u st' = (if u \<in> set us
      then Some (case row_state coll n u st of None \<Rightarrow> (0, r) | Some (a, d) \<Rightarrow> (a, max d r)) else row_state coll n u st)"
    and "same_identities st st'" "revision_of st' = revision_of st" "cacheSessions st' = cacheSessions st"
    "edgeNodes st' = edgeNodes st" "st' = commit st (PrepareNodeIdentityCache coll n sid r us st)"
proof -
  let ?find = "\<lambda>rows. map_option (\<lambda>c. (cache_Applied c, cache_Desired c)) (find (\<lambda>c. cache_key coll c = (u, coll n)) rows)"
  have st': "st' = st\<lparr>userNodeCache := fold (\<lambda>u. upsert_desired coll u n sid r) us (userNodeCache st)\<rparr>"
    using assms by (auto simp: PrepareNodeIdentityCache_def split: option.splits)
  have "?find (fold (\<lambda>u. upsert_desired coll u n sid r) us rows) =
      (if u \<in> set us then Some (case ?find rows of None \<Rightarrow> (0, r) | Some (a, d) \<Rightarrow> (a, max d r)) else ?find rows)" for rows
    by (induction us arbitrary: rows) (auto simp: upsert_desired_find split: option.splits)
  then show "row_state coll n u st' = (if u \<in> set us
      then Some (case row_state coll n u st of None \<Rightarrow> (0, r) | Some (a, d) \<Rightarrow> (a, max d r)) else row_state coll n u st)"
    by (simp add: row_state_def row_look_def st')
  show "same_identities st st'" by (intro allI identity_at_same) (simp_all add: st')
  show "revision_of st' = revision_of st" "cacheSessions st' = cacheSessions st" "edgeNodes st' = edgeNodes st"
    by (simp_all add: st' revision_of_def)
  show "st' = commit st (PrepareNodeIdentityCache coll n sid r us st)" using assms by (simp add: commit_def)
qed

lemma reset_row:
  assumes "ResetNodeIdentityCache coll n sid boot st = Inr (x, st')"
  shows "row_state coll n u st' = None" "same_identities st st'" "revision_of st' = revision_of st"
    "session_of coll n (cacheSessions st') = Some sid" "edgeNodes st' = edgeNodes st"
    "st' = commit st (ResetNodeIdentityCache coll n sid boot st)"
proof -
  show "row_state coll n u st' = None"
    using assms by (auto simp: ResetNodeIdentityCache_def Let_def row_state_def row_look_def find_None_iff cache_key_def)
  show "same_identities st st'"
    using assms by (intro allI identity_at_same) (auto simp: ResetNodeIdentityCache_def Let_def)
  let ?same = "\<lambda>c. coll (csess_NodeID c) = coll n"
  show "session_of coll n (cacheSessions st') = Some sid"
  proof (cases "find ?same (cacheSessions st)")
    case None
    then have "\<not> list_ex ?same (cacheSessions st)" by (simp add: find_None_iff list_ex_iff)
    with assms None show ?thesis by (auto simp: ResetNodeIdentityCache_def Let_def session_of_def find_append)
  next
    case (Some c)
    then have "c \<in> set (cacheSessions st)" "?same c" by (auto dest: find_Some_iff')
    then have ex: "list_ex ?same (cacheSessions st)" by (auto simp: list_ex_iff)
    have "find ?same (update_where ?same (\<lambda>c. c\<lparr>csess_SessionID := sid, csess_BootID := boot\<rparr>) (cacheSessions st)) =
        map_option (\<lambda>c. if ?same c then c\<lparr>csess_SessionID := sid, csess_BootID := boot\<rparr> else c) (find ?same (cacheSessions st))"
      by (rule find_update_keeps) simp
    with assms Some ex \<open>?same c\<close> show ?thesis by (auto simp: ResetNodeIdentityCache_def Let_def session_of_def)
  qed
  show "revision_of st' = revision_of st" "edgeNodes st' = edgeNodes st" "st' = commit st (ResetNodeIdentityCache coll n sid boot st)"
    using assms by (auto simp: ResetNodeIdentityCache_def Let_def revision_of_def commit_def)
qed

text \<open>Rows after a confirmation, given the rows of the node belong to its session.\<close>

definition node_rows :: "collation \<Rightarrow> string \<Rightarrow> string \<Rightarrow> CacheRow list \<Rightarrow> bool" where
  "node_rows coll n sid rows \<longleftrightarrow> distinct (map (cache_key coll) rows) \<and>
     (\<forall>c \<in> set rows. coll (cache_NodeID c) = coll n \<longrightarrow> cache_SessionID c = sid)"

lemma node_rows_confirm:
  assumes "node_rows coll n sid rows"
  shows "node_rows coll n sid (confirm_user coll t n sid r v rows)" "node_rows coll n sid (confirm_removed coll n sid r v rows)"
proof -
  have key: "map (cache_key coll) (update_where P f rows) = map (cache_key coll) rows"
    if "\<And>c. cache_key coll (f c) = cache_key coll c" for P f
    using that by (rule map_update_where_same)
  have up: "node_rows coll n sid (update_where P f rows)"
    if "\<And>c. cache_key coll (f c) = cache_key coll c" "\<And>c. cache_SessionID (f c) = cache_SessionID c" for P f
  proof -
    have "cache_SessionID c = sid" if "c \<in> set (update_where P f rows)" "coll (cache_NodeID c) = coll n" for c
      using that assms \<open>\<And>c. cache_key coll (f c) = cache_key coll c\<close> \<open>\<And>c. cache_SessionID (f c) = cache_SessionID c\<close>
      by (auto simp: update_where_def node_rows_def cache_key_def split: if_splits)
    with assms key [OF that(1), of P] show ?thesis unfolding node_rows_def by simp
  qed
  have del: "node_rows coll n sid (delete_where P rows')" if "node_rows coll n sid rows'" for P rows'
    using that by (auto simp: node_rows_def delete_where_def distinct_map inj_on_def)
  show "node_rows coll n sid (confirm_user coll t n sid r v rows)"
    unfolding confirm_user_def by (rule up) (simp_all add: cache_key_def)
  show "node_rows coll n sid (confirm_removed coll n sid r v rows)"
    unfolding confirm_removed_def by (rule del, rule up) (simp_all add: cache_key_def)
qed

lemma confirm_find:
  assumes "node_rows coll n sid rows"
  shows "row_look coll n u (confirm_user coll t n sid r v rows) =
      map_option (\<lambda>(a, d). if u = v then (max a r, d) else (a, d)) (row_look coll n u rows)"
    and "row_look coll n u (confirm_removed coll n sid r v rows) =
      (case row_look coll n u rows of None \<Rightarrow> None
       | Some (a, d) \<Rightarrow> if u = v then (if d \<le> r then None else Some (max a r, d)) else Some (a, d))"
proof -
  have key: "cache_key coll (c\<lparr>cache_Applied := a, cache_CachedAt := x\<rparr>) = cache_key coll c"
    "cache_key coll (c\<lparr>cache_CachedAt := x, cache_Applied := a\<rparr>) = cache_key coll c" for c a x
    by (simp_all add: cache_key_def)
  let ?upd = "\<lambda>c. c\<lparr>cache_CachedAt := None, cache_Applied := max (cache_Applied c) r\<rparr>"
  have here: "cache_row_of coll v n sid c \<longleftrightarrow> u = v" if "find (\<lambda>c. cache_key coll c = (u, coll n)) rows = Some c" for c
    using find_Some_iff' [OF that] assms by (auto simp: cache_row_of_def cache_key_def node_rows_def)
  have user: "find (\<lambda>c. cache_key coll c = (u, coll n)) (confirm_user coll t n sid r v rows) =
      map_option (\<lambda>c. if cache_row_of coll v n sid c then c\<lparr>cache_Applied := max (cache_Applied c) r, cache_CachedAt := Some t\<rparr> else c)
        (find (\<lambda>c. cache_key coll c = (u, coll n)) rows)"
    unfolding confirm_user_def by (rule find_update_keeps) (simp add: key)
  have upd: "find (\<lambda>c. cache_key coll c = (u, coll n)) (update_where (cache_row_of coll v n sid) ?upd rows) =
      map_option (\<lambda>c. if cache_row_of coll v n sid c then ?upd c else c) (find (\<lambda>c. cache_key coll c = (u, coll n)) rows)"
    by (rule find_update_keeps) (simp add: key)
  have "map (cache_key coll) (update_where (cache_row_of coll v n sid) ?upd rows) = map (cache_key coll) rows"
    by (rule map_update_where_same) (simp add: key)
  then have d: "distinct (map (cache_key coll) (update_where (cache_row_of coll v n sid) ?upd rows))"
    using assms by (simp only: node_rows_def)
  have row: "cache_row_of coll v n sid (?upd c) = cache_row_of coll v n sid c" for c by (simp add: cache_row_of_def)
  note removed = find_delete_unique [OF d, of "(u, coll n)" "\<lambda>c. cache_row_of coll v n sid c \<and> cache_Desired c \<le> r",
      folded confirm_removed_def, unfolded upd]
  show "row_look coll n u (confirm_user coll t n sid r v rows) =
      map_option (\<lambda>(a, d). if u = v then (max a r, d) else (a, d)) (row_look coll n u rows)"
    unfolding row_look_def user using here by (cases "find (\<lambda>c. cache_key coll c = (u, coll n)) rows") simp_all
  show "row_look coll n u (confirm_removed coll n sid r v rows) =
      (case row_look coll n u rows of None \<Rightarrow> None
       | Some (a, d) \<Rightarrow> if u = v then (if d \<le> r then None else Some (max a r, d)) else Some (a, d))"
    unfolding row_look_def removed using here row by (cases "find (\<lambda>c. cache_key coll c = (u, coll n)) rows") simp_all
qed

lemma confirm_fold_user:
  assumes "node_rows coll n sid rows"
  shows "node_rows coll n sid (fold (confirm_user coll t n sid r) us rows)"
    "row_look coll n u (fold (confirm_user coll t n sid r) us rows) =
       map_option (\<lambda>(a, d). if u \<in> set us then (max a r, d) else (a, d)) (row_look coll n u rows)"
  using assms
  by (induction us arbitrary: rows)
    (simp_all add: node_rows_confirm confirm_find option.map_comp comp_def case_prod_unfold option.map_ident
      split: option.splits, auto intro!: option.map_cong simp: prod_eq_iff)

lemma confirm_fold_removed:
  assumes "node_rows coll n sid rows"
  shows "row_look coll n u (fold (confirm_removed coll n sid r) us rows) =
      (case row_look coll n u rows of None \<Rightarrow> None
       | Some (a, d) \<Rightarrow> if u \<in> set us then (if d \<le> r then None else Some (max a r, d)) else Some (a, d))"
  using assms
  by (induction us arbitrary: rows) (auto simp: node_rows_confirm confirm_find split: option.splits)

lemma confirm_row:
  assumes "ConfirmNodeIdentityCache coll t n sid r us removed False st = Inr (x, st')" and inv: "outbox_inv coll st"
  shows "row_state coll n u st' =
      (case row_state coll n u st of None \<Rightarrow> None
       | Some (a, d) \<Rightarrow> if u \<in> set removed \<and> d \<le> r then None
                      else if u \<in> set us \<or> u \<in> set removed then Some (max a r, d) else Some (a, d))"
    and "same_identities st st'" "revision_of st' = revision_of st" "cacheSessions st' = cacheSessions st"
    "edgeNodes st' = edgeNodes st" "st' = commit st (ConfirmNodeIdentityCache coll t n sid r us removed False st)"
proof -
  have st': "st' = st\<lparr>userNodeCache := fold (confirm_removed coll n sid r) removed (fold (confirm_user coll t n sid r) us (userNodeCache st))\<rparr>"
    and sid: "session_of coll n (cacheSessions st) = Some sid"
    using assms(1) by (auto simp: ConfirmNodeIdentityCache_def Let_def lockCacheSession_def split: option.splits if_splits)
  have "cache_SessionID c = sid" if "c \<in> set (userNodeCache st)" "coll (cache_NodeID c) = coll n" for c
  proof -
    have "cache_SessionID c = current_session coll (cache_NodeID c) (cacheSessions st)"
      using that(1) inv by (simp add: outbox_inv_def store_parts)
    then show ?thesis using sid session_of_coll [of coll "cache_NodeID c" n] that(2) by (simp add: current_session_def)
  qed
  then have rows: "node_rows coll n sid (userNodeCache st)"
    using inv by (simp add: node_rows_def outbox_inv_def store_parts keyed_def)
  have rows1: "node_rows coll n sid (fold (confirm_user coll t n sid r) us (userNodeCache st))"
    by (rule confirm_fold_user(1) [OF rows])
  show "row_state coll n u st' =
      (case row_state coll n u st of None \<Rightarrow> None
       | Some (a, d) \<Rightarrow> if u \<in> set removed \<and> d \<le> r then None
                      else if u \<in> set us \<or> u \<in> set removed then Some (max a r, d) else Some (a, d))"
    using confirm_fold_removed [OF rows1, of u r removed]
    by (auto simp: row_state_def st' confirm_fold_user(2) [OF rows] split: option.splits)
  show "same_identities st st'" by (intro allI identity_at_same) (simp_all add: st')
  show "revision_of st' = revision_of st" "cacheSessions st' = cacheSessions st" "edgeNodes st' = edgeNodes st"
    by (simp_all add: st' revision_of_def)
  show "st' = commit st (ConfirmNodeIdentityCache coll t n sid r us removed False st)" using assms(1) by (simp add: commit_def)
qed

end
