(* ===== verification/Identity_View.thy ===== *)
theory Identity_View
  imports Identity_Rows
begin

text \<open>
  What the controller's outbox says of the identities a node has cached. For every user the node's
  view is up to date, or the outbox still holds an unconfirmed row for it; users whose snapshot is
  under way are tracked until the confirmation. The predicate is stated on functions of the user,
  so that the steps of the exchange are small updates of them.
\<close>

section \<open>The view\<close>

definition row_settled :: "UserIdentity \<Rightarrow> (int \<times> int) option \<Rightarrow> UserIdentity \<Rightarrow> bool" where
  "row_settled center row cached =
     (case row of None \<Rightarrow> cached = no_identity \<and> center = no_identity | Some (a, d) \<Rightarrow> d \<le> a \<longrightarrow> cached = center)"

definition under_way :: "IdentitySnapshot \<Rightarrow> bool \<Rightarrow> int \<Rightarrow> UserIdentity \<Rightarrow> (int \<times> int) option \<Rightarrow> UserIdentity \<Rightarrow> bool \<Rightarrow> bool" where
  "under_way snap applied u center row cached free =
     ((case row of None \<Rightarrow> False
       | Some (a, d) \<Rightarrow> a < snap_Revision snap \<and> snap_Revision snap \<le> d \<and>
           (d = snap_Revision snap \<longrightarrow> snapshot_identity u snap = center)) \<and>
      (if applied then cached = snapshot_identity u snap else snap_Baseline snap \<longrightarrow> free))"

definition covers :: "nodeSession \<Rightarrow> int \<Rightarrow> bool" where
  "covers ses u \<longleftrightarrow> \<not> ns_baselineActive ses \<or> u \<le> ns_baselineCursor ses \<or>
     (case ns_pendingIdentity ses of None \<Rightarrow> False
      | Some snap \<Rightarrow> snap_Baseline snap \<and> (snap_BaselineEnd snap \<or> u \<le> ns_pendingCursor ses))"

definition touched_by :: "IdentitySnapshot option \<Rightarrow> int \<Rightarrow> bool" where
  "touched_by pending u = (case pending of None \<Rightarrow> False | Some snap \<Rightarrow> u \<in> set (touched_users snap))"

definition view_of ::
  "nodeSession \<Rightarrow> bool \<Rightarrow> int \<Rightarrow> UserIdentity \<Rightarrow> (int \<times> int) option \<Rightarrow> UserIdentity \<Rightarrow> bool \<Rightarrow> bool" where
  "view_of ses applied u center row cached free =
     (if touched_by (ns_pendingIdentity ses) u then under_way (the (ns_pendingIdentity ses)) applied u center row cached free
      else if covers ses u then row_settled center row cached else free)"

definition view_ok :: "collation \<Rightarrow> string \<Rightarrow> Store \<Rightarrow> nodeSession \<Rightarrow> bool \<Rightarrow> EdgeStore \<Rightarrow> bool" where
  "view_ok coll n st ses applied s \<longleftrightarrow>
     (\<forall>u > 0. view_of ses applied u (identity_at coll n u st) (row_state coll n u st) (edge_identity u s) (rows_free u s))"

text \<open>The snapshot a session waits for.\<close>

definition flight_ok :: "nodeSession \<Rightarrow> IdentitySnapshot \<Rightarrow> bool" where
  "flight_ok ses snap \<longleftrightarrow> snap_closed snap \<and> snap_NodeAccessEnforced snap \<and>
     snap_Baseline snap = ns_baselineActive ses \<and> snap_Incremental snap = (\<not> ns_baselineActive ses) \<and>
     set (snap_RemovedUserIDs snap) \<inter> su_ID ` set (snap_Users snap) = {} \<and>
     (snap_Baseline snap \<longrightarrow> snap_RemovedUserIDs snap = [] \<and> (\<forall>u \<in> set (touched_users snap). u \<le> ns_pendingCursor ses))"

lemma row_settled_cases:
  "row_settled center row cached \<Longrightarrow> cached = center \<or> (\<exists>a d. row = Some (a, d) \<and> a < d)"
  by (auto simp: row_settled_def split: option.splits)

text \<open>In a view, what is covered is up to date or owed.\<close>

lemma view_owed:
  assumes "view_of ses applied u center row cached free" "covers ses u"
  shows "cached = center \<or> (\<exists>a d. row = Some (a, d) \<and> a < d)"
  using assms row_settled_cases [of center row cached]
  by (auto simp: view_of_def under_way_def split: if_splits option.splits)

section \<open>Changes at the controller\<close>

lemma evolves_row_state:
  assumes "evolves coll n st st'"
  obtains "identity_at coll n u st' = identity_at coll n u st" "row_state coll n u st' = row_state coll n u st"
  | a d where "row_state coll n u st' = Some (a, d)" "a \<le> revision_of st" "revision_of st < d"
      "\<And>b e. row_state coll n u st = Some (b, e) \<Longrightarrow> b = a"
  | "row_state coll n u st = None" "row_state coll n u st' = None" "identity_at coll n u st' = no_identity"
proof -
  from assms have "row_evolves coll n st st' u" by (simp add: evolves_def)
  then show thesis
    unfolding row_evolves_def
  proof (elim disjE exE conjE, goal_cases)
    case (2 c)
    then show thesis by (intro that(2) [of "cache_Applied c" "cache_Desired c"]) (auto simp: row_state_cache)
  qed (auto simp: row_state_cache intro: that)
qed

lemma view_evolves:
  assumes ev: "evolves coll n st st'" and view: "view_ok coll n st ses applied s"
    and rev: "\<And>snap. ns_pendingIdentity ses = Some snap \<Longrightarrow> snap_Revision snap \<le> revision_of st"
  shows "view_ok coll n st' ses applied s"
  unfolding view_ok_def
proof (intro allI impI)
  fix u :: int
  assume "0 < u"
  with view have u: "view_of ses applied u (identity_at coll n u st) (row_state coll n u st) (edge_identity u s) (rows_free u s)"
    by (simp add: view_ok_def)
  show "view_of ses applied u (identity_at coll n u st') (row_state coll n u st') (edge_identity u s) (rows_free u s)"
  proof (rule evolves_row_state [OF ev, of u], goal_cases)
    case 1
    with u show ?case by simp
  next
    case (2 a d)
    have "touched_by (ns_pendingIdentity ses) u \<Longrightarrow> ?case"
      using u 2 rev by (fastforce simp: view_of_def under_way_def touched_by_def split: option.splits)
    then show ?case using u 2 by (auto simp: view_of_def row_settled_def split: if_splits)
  next
    case 3
    with u show ?case by (auto simp: view_of_def under_way_def row_settled_def split: if_splits)
  qed
qed

lemma view_same:
  "view_ok coll n st ses applied s \<Longrightarrow> (\<And>u. edge_identity u s' = edge_identity u s) \<Longrightarrow> (\<And>u. rows_free u s' = rows_free u s) \<Longrightarrow>
     view_ok coll n st ses applied s'"
  by (simp add: view_ok_def)

section \<open>A new snapshot\<close>

lemma view_push:
  assumes view: "view_ok coll n st ses applied s" and none: "ns_pendingIdentity ses = None" and inv: "outbox_inv coll st"
    and snap: "flight_ok ses' snap" "ns_pendingIdentity ses' = Some snap" "revision_of st < snap_Revision snap"
    and same: "ns_baselineActive ses' = ns_baselineActive ses" "ns_baselineCursor ses' = ns_baselineCursor ses"
    and rows: "\<And>u. row_state coll n u st' = (if u \<in> set (touched_users snap)
        then Some (case row_state coll n u st of None \<Rightarrow> (0, snap_Revision snap) | Some (a, d) \<Rightarrow> (a, max d (snap_Revision snap)))
        else row_state coll n u st)"
    and center: "\<And>u. identity_at coll n u st' = identity_at coll n u st"
    and touched: "\<And>u. 0 < u \<Longrightarrow> u \<in> set (touched_users snap) \<Longrightarrow> snapshot_identity u snap = identity_at coll n u st"
    and fresh: "\<And>u. snap_Baseline snap \<Longrightarrow> u \<in> set (touched_users snap) \<Longrightarrow> ns_baselineCursor ses < u"
    and gap: "\<And>u. snap_Baseline snap \<Longrightarrow> ns_baselineCursor ses < u \<Longrightarrow> u \<notin> set (touched_users snap) \<Longrightarrow>
        snap_BaselineEnd snap \<or> u \<le> ns_pendingCursor ses' \<Longrightarrow> identity_at coll n u st = no_identity"
  shows "view_ok coll n st' ses' False s"
  unfolding view_ok_def
proof (intro allI impI)
  fix u :: int
  assume "0 < u"
  with view have u: "view_of ses applied u (identity_at coll n u st) (row_state coll n u st) (edge_identity u s) (rows_free u s)"
    by (simp add: view_ok_def)
  have base: "snap_Baseline snap = ns_baselineActive ses" using snap(1) same by (simp add: flight_ok_def)
  have bound: "a \<le> revision_of st \<and> d \<le> revision_of st" if "row_state coll n u st = Some (a, d)" for a d
    using that cache_row_bounds(1,2) [OF inv] by (auto simp: row_state_cache)
  have old: "if covers ses u then row_settled (identity_at coll n u st) (row_state coll n u st) (edge_identity u s) else rows_free u s"
    using u none by (simp add: view_of_def touched_by_def)
  show "view_of ses' False u (identity_at coll n u st') (row_state coll n u st') (edge_identity u s) (rows_free u s)"
  proof (cases "u \<in> set (touched_users snap)")
    case True
    have "rows_free u s" if "snap_Baseline snap"
      using old fresh [OF that True] that base none by (simp add: covers_def)
    moreover have "0 \<le> revision_of st" using inv by (rule revision_nonneg)
    ultimately show ?thesis
      using True snap(2,3) rows [of u] touched [OF \<open>0 < u\<close> True] center bound
      by (auto simp: view_of_def touched_by_def under_way_def max_def split: option.splits dest: bound)
  next
    case False
    have "row_settled (identity_at coll n u st) (row_state coll n u st) (edge_identity u s)" if "covers ses' u"
    proof (cases "covers ses u")
      case True
      then show ?thesis using old by simp
    next
      case uncovered: False
      then have "identity_at coll n u st = no_identity"
        using gap [of u] that False base none snap(2) same by (auto simp: covers_def)
      moreover have "edge_identity u s = no_identity" using old uncovered identity_free by simp
      ultimately show ?thesis by (simp add: row_settled_def split: option.splits)
    qed
    moreover have "rows_free u s" if "\<not> covers ses' u"
      using that old none same snap(2) by (auto simp: covers_def split: if_splits)
    ultimately show ?thesis using False snap(2) rows [of u] center by (simp add: view_of_def touched_by_def)
  qed
qed

section \<open>Application and confirmation\<close>

lemma view_apply:
  assumes view: "view_ok coll n st ses False s" and snap: "flight_ok ses snap" "ns_pendingIdentity ses = Some snap"
    and cached: "\<And>u. edge_identity u s' = (if u \<in> set (touched_users snap) then snapshot_identity u snap else edge_identity u s)"
    and free: "\<And>u. snap_Baseline snap \<Longrightarrow> u \<notin> set (touched_users snap) \<Longrightarrow> rows_free u s \<Longrightarrow> rows_free u s'"
  shows "view_ok coll n st ses True s'"
  unfolding view_ok_def
proof (intro allI impI)
  fix u :: int
  assume "0 < u"
  with view have u: "view_of ses False u (identity_at coll n u st) (row_state coll n u st) (edge_identity u s) (rows_free u s)"
    by (simp add: view_ok_def)
  show "view_of ses True u (identity_at coll n u st) (row_state coll n u st) (edge_identity u s') (rows_free u s')"
  proof (cases "u \<in> set (touched_users snap)")
    case True
    with u cached [of u] snap(2) show ?thesis by (simp add: view_of_def touched_by_def under_way_def)
  next
    case False
    have "rows_free u s'" if "\<not> covers ses u" "rows_free u s"
      using free [OF _ False that(2)] that(1) snap(1) by (simp add: covers_def flight_ok_def)
    with False u cached [of u] snap(2) show ?thesis by (simp add: view_of_def touched_by_def)
  qed
qed

lemma touched_users_mem: "u \<in> set (touched_users snap) \<longleftrightarrow> u \<in> set (snap_RemovedUserIDs snap) \<or> u \<in> su_ID ` set (snap_Users snap)"
  by (auto simp: touched_users_def)

lemma view_confirm:
  assumes view: "view_ok coll n st ses True s" and snap: "flight_ok ses snap" "ns_pendingIdentity ses = Some snap"
    and rows: "\<And>u. row_state coll n u st' =
      (case row_state coll n u st of None \<Rightarrow> None
       | Some (a, d) \<Rightarrow> if u \<in> set (snap_RemovedUserIDs snap) \<and> d \<le> snap_Revision snap then None
           else if u \<in> set (map su_ID (snap_Users snap)) \<or> u \<in> set (snap_RemovedUserIDs snap) then Some (max a (snap_Revision snap), d)
           else Some (a, d))"
    and center: "\<And>u. identity_at coll n u st' = identity_at coll n u st"
    and ses': "ns_pendingIdentity ses' = None" "\<And>u. covers ses' u = covers ses u"
  shows "view_ok coll n st' ses' applied s"
  unfolding view_ok_def
proof (intro allI impI)
  fix u :: int
  assume "0 < u"
  with view have u: "view_of ses True u (identity_at coll n u st) (row_state coll n u st) (edge_identity u s) (rows_free u s)"
    by (simp add: view_ok_def)
  show "view_of ses' applied u (identity_at coll n u st') (row_state coll n u st') (edge_identity u s) (rows_free u s)"
  proof (cases "u \<in> set (touched_users snap)")
    case False
    then have "row_state coll n u st' = row_state coll n u st"
      using rows [of u] by (auto simp: touched_users_mem image_iff split: option.splits)
    with False u snap(2) ses' center show ?thesis by (simp add: view_of_def touched_by_def)
  next
    case True
    have "covers ses u" using True snap by (auto simp: covers_def flight_ok_def)
    then have cov: "covers ses' u" by (simp only: ses'(2))
    have u: "under_way snap True u (identity_at coll n u st) (row_state coll n u st) (edge_identity u s) (rows_free u s)"
      using u True snap(2) by (simp add: view_of_def touched_by_def)
    then obtain a d where row: "row_state coll n u st = Some (a, d)" "a < snap_Revision snap" "snap_Revision snap \<le> d"
      "d = snap_Revision snap \<Longrightarrow> snapshot_identity u snap = identity_at coll n u st"
      and cached: "edge_identity u s = snapshot_identity u snap"
      by (auto simp: under_way_def split: option.splits)
    have "row_settled (identity_at coll n u st) (row_state coll n u st') (edge_identity u s)"
    proof (cases "u \<in> set (snap_RemovedUserIDs snap) \<and> d \<le> snap_Revision snap")
      case removed: True
      then have "u \<notin> su_ID ` set (snap_Users snap)" "snap_closed snap" using snap(1) by (auto simp: flight_ok_def)
      then have "snapshot_identity u snap = no_identity" using snapshot_identity_free by blast
      with removed row cached show ?thesis using rows [of u] by (simp add: row_settled_def)
    next
      case kept: False
      then have "row_state coll n u st' = Some (snap_Revision snap, d)"
        using rows [of u] row(1,2) True by (auto simp: touched_users_mem)
      with row cached show ?thesis by (auto simp: row_settled_def)
    qed
    with cov ses'(1) center show ?thesis by (simp add: view_of_def touched_by_def)
  qed
qed

text \<open>A node that has just cleared its cache, at the start of a baseline.\<close>

lemma view_start:
  assumes "\<And>u. row_state coll n u st = None" "\<And>u. rows_free u s"
    "ns_pendingIdentity ses = None" "ns_baselineActive ses" "ns_baselineCursor ses = 0"
  shows "view_ok coll n st ses applied s"
  using assms by (simp add: view_ok_def view_of_def touched_by_def covers_def)

end
