(* ===== verification/Identity_Push.thy ===== *)
theory Identity_Push
  imports Identity_View
begin

text \<open>
  What a push of the controller sends. A page carries exactly the identities of the users it lists,
  nothing of a user it removes, and leaves out no user between its bounds who may use the node; a
  push therefore does nothing, requests a reset, or puts one such snapshot under way.
\<close>

section \<open>Pages as snapshots\<close>

lemma user_of_snapshot: "user_of (snapshot_user (user_view x)) = user_view x"
  by (simp add: user_of_def snapshot_user_def user_view_def)

lemma token_of_snapshot: "access_token_of (snapshot_token (token_view t)) = token_view t"
  by (simp add: access_token_of_def snapshot_token_def token_view_def)

lemma page_fields:
  assumes "ReadNodeIdentityPage coll n after requested limit st = Some p"
  obtains us where "set us \<subseteq> set (page_rows coll n after requested st)" "us = take limit (page_rows coll n after requested st) \<or> requested = Some [] \<and> us = []"
    "page_Users p = map user_view us" "page_Tokens p = tokens_of (map user_ID us) st"
    "page_Policies p = policies_of (map user_ID us) st" "page_Grants p = grants_of (map user_ID us) st"
    "page_DPIPolicies p = dpi_of (map user_ID us) st"
    "page_Removed p = (case requested of None \<Rightarrow> [] | Some r \<Rightarrow> filter (\<lambda>i. i \<notin> set (map user_ID us)) r)"
proof (cases "requested = Some []")
  case True
  with assms show thesis
    by (intro that [of "[]"]) (auto simp: ReadNodeIdentityPage_def tokens_of_def policies_of_def grants_of_def dpi_of_def
        filter_empty_conv list_ex_iff split: if_splits)
next
  case False
  with assms show thesis
    by (intro that [of "take limit (page_rows coll n after requested st)"])
      (auto simp: ReadNodeIdentityPage_def Let_def set_take_subset split: if_splits)
qed

lemma snapshot_identity_page:
  assumes "ReadNodeIdentityPage coll n after requested limit st = Some p"
  shows "snapshot_identity u (page_snapshot b r blocks p) = page_identity p u"
proof -
  obtain us where us: "page_Users p = map user_view us" "page_Tokens p = tokens_of (map user_ID us) st"
    using page_fields [OF assms] by metis
  have ids: "su_ID (snapshot_user x) = user_ID x" "sn_UserID (snapshot_token t) = token_UserID t"
    "sn_ID (snapshot_token t) = token_ID t" for x t
    by (simp_all add: snapshot_user_def snapshot_token_def)
  have toks: "map (\<lambda>t. access_token_of (snapshot_token t)) (filter P (page_Tokens p)) = filter P (page_Tokens p)" for P
    unfolding us tokens_of_def by (simp add: filter_map token_of_snapshot comp_def)
  have usr: "map (\<lambda>x. user_of (snapshot_user x)) (filter P (page_Users p)) = filter P (page_Users p)" for P
    unfolding us by (simp add: filter_map user_of_snapshot comp_def)
  show ?thesis
    using toks usr by (simp add: snapshot_identity_def rows_identity_def page_identity_def page_snapshot_def Let_def
        filter_map comp_def ids image_image)
qed

lemma page_snapshot_closed:
  assumes "ReadNodeIdentityPage coll n after requested limit st = Some p"
  shows "snap_closed (page_snapshot b r blocks p)"
proof -
  obtain us where us: "page_Users p = map user_view us" "page_Tokens p = tokens_of (map user_ID us) st"
    "page_Policies p = policies_of (map user_ID us) st" "page_Grants p = grants_of (map user_ID us) st"
    "page_DPIPolicies p = dpi_of (map user_ID us) st"
    using page_fields [OF assms] by metis
  have ids: "su_ID (snapshot_user x) = user_ID x" "sn_UserID (snapshot_token t) = token_UserID t"
    "sn_ID (snapshot_token t) = token_ID t" for x t
    by (simp_all add: snapshot_user_def snapshot_token_def)
  have "grant_TokenID ` set (page_Grants p) \<subseteq> token_ID ` set (page_Tokens p)"
    unfolding us token_IDs_of by (force simp: grants_of_def list_ex_iff image_iff)
  moreover have "token_UserID ` set (page_Tokens p) \<subseteq> user_ID ` set (page_Users p)"
    "policy_UserID ` set (page_Policies p) \<subseteq> user_ID ` set (page_Users p)"
    "dpi_UserID ` set (page_DPIPolicies p) \<subseteq> user_ID ` set (page_Users p)"
    unfolding us by (auto simp: tokens_of_def policies_of_def dpi_of_def image_image)
  ultimately show ?thesis
    by (simp add: snap_closed_def page_snapshot_def Let_def ids image_image)
qed

text \<open>A requested user that is not on the page has no identity at the node.\<close>

lemma page_removed_identity:
  assumes inv: "store_inv coll st" and page: "ReadNodeIdentityPage coll n after requested limit st = Some p"
    and u: "u \<in> set (page_Removed p)" "0 < u"
  shows "identity_at coll n u st = no_identity"
proof -
  obtain us where us: "us = take limit (page_rows coll n after requested st) \<or> requested = Some [] \<and> us = []"
    "page_Removed p = (case requested of None \<Rightarrow> [] | Some r \<Rightarrow> filter (\<lambda>i. i \<notin> set (map user_ID us)) r)"
    using page_fields [OF page] by metis
  then obtain ids where ids: "requested = Some ids" "u \<in> set ids" "u \<notin> set (map user_ID us)"
    using u(1) by (cases requested) auto
  have len: "length ids \<le> limit" "after = 0" using page ids by (auto simp: ReadNodeIdentityPage_def split: if_splits)
  let ?rows = "page_rows coll n after requested st"
  have "distinct (map user_ID ?rows)"
    using distinct_page_rows [of st coll n after requested] inv by (simp add: store_parts keyed_def)
  moreover have sub: "user_ID ` set ?rows \<subseteq> set ids" using page_rows_mem ids(1) by auto
  ultimately have "length ?rows \<le> length ids"
    by (metis List.finite_set card_length card_mono distinct_card image_set le_trans length_map)
  then have "us = ?rows" using us(1) ids len by auto
  then have "u \<notin> user_ID ` set ?rows" using ids(3) by simp
  then show ?thesis
    using ids len u(2) page_rows_mem [of _ coll n after requested st] by (fastforce simp: identity_at_def image_iff)
qed

section \<open>The bounds of a baseline page\<close>

lemma sorted_page_rows: "sorted (map user_ID (page_rows coll n after requested st))"
  by (simp add: page_rows_def)

lemma page_bounds:
  assumes inv: "store_inv coll st" and page: "ReadNodeIdentityPage coll n after None limit st = Some p"
  shows "u \<in> user_ID ` set (page_Users p) \<Longrightarrow> after < u \<and> u \<le> page_LastID p" "after \<le> page_LastID p" "page_Removed p = []"
    and "after < u \<Longrightarrow> u \<notin> user_ID ` set (page_Users p) \<Longrightarrow> page_End p \<or> u \<le> page_LastID p \<Longrightarrow>
      identity_at coll n u st = no_identity"
proof -
  let ?rows = "page_rows coll n after None st"
  let ?us = "take limit ?rows"
  have p: "page_Users p = map user_view ?us" "page_LastID p = (if ?us = [] then after else user_ID (last ?us))"
    "page_End p = (length ?rows \<le> limit)" "1 \<le> limit" "page_Removed p = []"
    using page by (auto simp: ReadNodeIdentityPage_def Let_def split: if_splits)
  have dist: "distinct (map user_ID ?rows)"
    using distinct_page_rows [of st coll n after None] inv by (simp add: store_parts keyed_def)
  have split: "sorted (map user_ID ?us @ map user_ID (drop limit ?rows))"
    using sorted_page_rows [of coll n after None st] by (metis append_take_drop_id map_append)
  have last: "user_ID x \<le> user_ID (last ?us)" if "x \<in> set ?us" for x
  proof -
    have "?us \<noteq> []" using that by force
    then have "?us = butlast ?us @ [last ?us]" by simp
    then have "sorted (map user_ID (butlast ?us) @ [user_ID (last ?us)])" "set ?us = set (butlast ?us) \<union> {last ?us}"
      using split by (metis list.simps(8,9) map_append sorted_append, metis empty_set list.simps(15) set_append)
    with that show ?thesis by (auto simp: sorted_append)
  qed
  have above: "after < user_ID x" if "x \<in> set ?rows" for x using that page_rows_mem by blast
  show "after < u \<and> u \<le> page_LastID p" if u: "u \<in> user_ID ` set (page_Users p)"
  proof -
    obtain x where x: "x \<in> set ?us" "user_ID x = u" using u by (auto simp: p(1))
    then have "?us \<noteq> []" by force
    with x last [OF x(1)] above [of x] show ?thesis by (auto simp: p(2) dest: in_set_takeD)
  qed
  show "after \<le> page_LastID p"
    using above [OF in_set_takeD, OF last_in_set, of limit] by (auto simp: p(2) intro: less_imp_le)
  show "page_Removed p = []" by (rule p(5))
  assume u: "after < u" "u \<notin> user_ID ` set (page_Users p)" "page_End p \<or> u \<le> page_LastID p"
  have not_taken: "u \<notin> user_ID ` set ?us" using u(2) by (auto simp: p(1) image_image)
  have "u \<notin> user_ID ` set ?rows"
  proof
    assume "u \<in> user_ID ` set ?rows"
    then obtain y where y: "y \<in> set ?rows" "user_ID y = u" by blast
    then have rest: "y \<in> set (drop limit ?rows)"
      using not_taken by (metis Un_iff append_take_drop_id image_eqI set_append)
    then have long: "\<not> length ?rows \<le> limit" "?rows \<noteq> []" by auto
    then have "?us \<noteq> []" using p(4) by auto
    then have "last ?us \<in> set ?us" by simp
    with split rest have "user_ID (last ?us) \<le> u" using y(2) by (auto simp: sorted_append)
    moreover have "user_ID (last ?us) \<noteq> u" using \<open>last ?us \<in> set ?us\<close> not_taken by blast
    ultimately show False using u(3) long \<open>?us \<noteq> []\<close> p(2,3) by auto
  qed
  then show "identity_at coll n u st = no_identity"
    using u(1) page_rows_mem [of _ coll n after None st] by (force simp: identity_at_def)
qed

section \<open>The outcomes of a push\<close>

text \<open>A snapshot as a push puts it under way: built on \<open>st\<close>, prepared in the store \<open>st'\<close>.\<close>

definition fresh_snapshot :: "collation \<Rightarrow> string \<Rightarrow> Store \<Rightarrow> nodeSession \<Rightarrow> int \<Rightarrow> IdentitySnapshot \<Rightarrow> bool" where
  "fresh_snapshot coll n st ses cursor snap \<longleftrightarrow>
     flight_ok (ses\<lparr>ns_pendingCursor := cursor\<rparr>) snap \<and>
     (\<forall>u \<in> set (touched_users snap). u < nextUserID st \<and> (0 < u \<longrightarrow> snapshot_identity u snap = identity_at coll n u st)) \<and>
     (snap_Baseline snap \<longrightarrow> ns_baselineCursor ses \<le> cursor \<and>
        (\<forall>u \<in> set (touched_users snap). ns_baselineCursor ses < u) \<and>
        (\<forall>u. ns_baselineCursor ses < u \<and> u \<notin> set (touched_users snap) \<and> (snap_BaselineEnd snap \<or> u \<le> cursor) \<longrightarrow>
           identity_at coll n u st = no_identity))"

lemma page_fresh:
  assumes inv: "outbox_inv coll st" and page: "ReadNodeIdentityPage coll n cursor requested 64 st = Some p"
    and mode: "ns_baselineActive ses \<Longrightarrow> requested = None \<and> cursor = ns_baselineCursor ses"
      "\<not> ns_baselineActive ses \<Longrightarrow> requested = Some (PendingNodeIdentityUsers coll n sid st)"
  shows "fresh_snapshot coll n st ses (page_LastID p) (page_snapshot (ns_baselineActive ses) r blocks p)"
proof -
  define snap where "snap = page_snapshot (ns_baselineActive ses) r blocks p"
  have si: "store_inv coll st" using inv by (simp add: outbox_inv_def)
  have closed: "snap_closed snap" unfolding snap_def by (rule page_snapshot_closed [OF page])
  obtain us where sub: "set us \<subseteq> set (page_rows coll n cursor requested st)" and us: "page_Users p = map user_view us"
    "page_Removed p = (case requested of None \<Rightarrow> [] | Some ids \<Rightarrow> filter (\<lambda>i. i \<notin> set (map user_ID us)) ids)"
    using page_fields [OF page] by metis
  have ids: "su_ID ` set (snap_Users snap) = user_ID ` set (page_Users p)"
    by (simp add: snap_def page_snapshot_def Let_def image_image snapshot_user_def)
  have fields: "snap_RemovedUserIDs snap = page_Removed p" "snap_Baseline snap = ns_baselineActive ses"
    "snap_Incremental snap = (\<not> ns_baselineActive ses)" "snap_NodeAccessEnforced snap"
    "snap_BaselineEnd snap = (ns_baselineActive ses \<and> page_End p)"
    by (simp_all add: snap_def page_snapshot_def Let_def)
  have touched: "u \<in> set (touched_users snap) \<longleftrightarrow> u \<in> set (page_Removed p) \<or> u \<in> user_ID ` set (page_Users p)" for u
    unfolding touched_users_mem ids fields by simp
  have disj: "set (page_Removed p) \<inter> user_ID ` set (page_Users p) = {}"
    using us by (auto simp: image_image split: option.splits)
  have known: "u < nextUserID st" if "u \<in> set (touched_users snap)" for u
    using that [unfolded touched]
  proof
    assume "u \<in> set (page_Removed p)"
    then obtain vs where "requested = Some vs" "u \<in> set vs" using us(2) by (auto split: option.splits)
    then have "u \<in> set (PendingNodeIdentityUsers coll n sid st)" using mode by (cases "ns_baselineActive ses") auto
    then have "u \<in> cache_UserID ` set (userNodeCache st)"
      unfolding PendingNodeIdentityUsers_def by (auto dest!: in_set_takeD)
    then show ?thesis using inv by (auto simp: outbox_inv_def)
  next
    assume "u \<in> user_ID ` set (page_Users p)"
    then have "u \<in> user_ID ` set (users st)" using us(1) sub page_rows_mem by (auto simp: image_image)
    then show ?thesis using si by (auto simp: store_parts)
  qed
  have ident: "snapshot_identity u snap = identity_at coll n u st" if "u \<in> set (touched_users snap)" "0 < u" for u
  proof (cases "u \<in> user_ID ` set (page_Users p)")
    case True
    then show ?thesis using ReadNodeIdentityPage_identity [OF si page] snapshot_identity_page [OF page] by (simp add: snap_def)
  next
    case False
    then have "snapshot_identity u snap = no_identity"
      using snapshot_identity_free [OF closed] ids by simp
    moreover have "u \<in> set (page_Removed p)" using that(1) False touched by blast
    ultimately show ?thesis using page_removed_identity [OF si page _ that(2)] by simp
  qed
  show ?thesis
  proof (cases "ns_baselineActive ses")
    case True
    note base = page_bounds [OF si page [unfolded conjunct1 [OF mode(1) [OF True]]]]
    show ?thesis unfolding snap_def [symmetric]
      using True known ident base disj mode(1) closed touched fields(4)
      unfolding fresh_snapshot_def flight_ok_def fields ids by auto
  next
    case False
    then show ?thesis unfolding snap_def [symmetric]
      using known ident disj closed fields(4)
      unfolding fresh_snapshot_def flight_ok_def fields ids by simp
  qed
qed

lemma blocked_fresh:
  assumes "blockedIPMessage blocks st ses = (Inr snap, st', ses')" "\<not> ns_baselineActive ses"
  shows "fresh_snapshot coll n st ses c snap"
proof -
  have "snap_Users snap = []" "snap_Tokens snap = []" "snap_Policies snap = []" "snap_Grants snap = []" "snap_DPIPolicies snap = []"
    "snap_RemovedUserIDs snap = []" "\<not> snap_Baseline snap" "snap_Incremental snap" "snap_NodeAccessEnforced snap"
    using assms(1) by (auto simp: blockedIPMessage_def Let_def split: sum.splits)
  then show ?thesis
    using assms(2) by (simp add: fresh_snapshot_def flight_ok_def snap_closed_def touched_users_def)
qed

text \<open>
  A push from a session of the third protocol that waits for nothing: it changes no identity data
  and sends nothing, requests a reset, or sends the first fragment of a fresh snapshot, prepared in
  the store.
\<close>

definition send_state :: "json_encoding \<Rightarrow> IdentitySnapshot \<Rightarrow> nodeSession \<Rightarrow> nodeSession" where
  "send_state enc snap ses =
     ses\<lparr>ns_pendingRevision := snap_Revision snap, ns_pendingIdentity := Some snap, ns_applyProgress := 0,
         ns_pendingPayload := enc snap, ns_chunkIndex := 0,
         ns_chunkTotal := (length (enc snap) + identityChunkBytes - 1) div identityChunkBytes\<rparr>"

lemma enqueue_outcome:
  assumes "ns_cacheProtocol ses = 3" "snap_Incremental snap \<or> snap_Baseline snap"
  obtains e where "enqueueIdentity coll enc True room snap st ses = done_with (Some e) st ses []"
  | e msgs x st' where "PrepareNodeIdentityCache coll (ns_nodeID ses) (ns_cacheSessionID ses) (snap_Revision snap) (touched_users snap) st = Inr (x, st')"
      "enqueueIdentity coll enc True room snap st ses = done_with e st' (send_state enc snap ses) msgs"
      "msgs = [] \<or> msgs = [chunk_message (send_state enc snap ses)]"
proof (cases "PrepareNodeIdentityCache coll (ns_nodeID ses) (ns_cacheSessionID ses) (snap_Revision snap) (touched_users snap) st")
  case (Inl e)
  then show thesis by (intro that(1)) (simp add: enqueueIdentity_def)
next
  case (Inr r)
  obtain x st' where r: "r = (x, st')" by (cases r)
  have fields: "(ses\<lparr>ns_pendingRevision := snap_Revision snap, ns_pendingIdentity := Some snap, ns_applyProgress := 0\<rparr>)
      \<lparr>ns_pendingPayload := enc snap, ns_chunkIndex := 0,
       ns_chunkTotal := (length (enc snap) + identityChunkBytes - 1) div identityChunkBytes\<rparr> = send_state enc snap ses"
    by (simp add: send_state_def)
  show thesis
    using assms Inr r fields
    by (cases room; intro that(2))
      (auto simp: enqueueIdentity_def Let_def sendIdentityChunkLocked_def)
qed

abbreviation issued_store :: "Store \<Rightarrow> Store" where
  "issued_store st \<equiv> commit st (NextIdentityRevision st)"

definition idle_push :: "Store \<Rightarrow> nodeSession \<Rightarrow> ctl_outcome \<Rightarrow> bool" where
  "idle_push st ses out \<longleftrightarrow> out_sent out = [] \<and> out_store out \<in> {st, issued_store st} \<and>
     (\<exists>b c. out_session out = ses\<lparr>ns_needsBlockedIPs := b, ns_pendingCursor := c\<rparr>)"

definition reset_push :: "string \<Rightarrow> Store \<Rightarrow> nodeSession \<Rightarrow> ctl_outcome \<Rightarrow> bool" where
  "reset_push sid st ses out \<longleftrightarrow> out_store out = st \<and>
     out_session out = ses\<lparr>ns_cacheSessionID := sid, ns_cacheReady := False, ns_needsFull := False\<rparr> \<and>
     (out_sent out = [Welcome sid] \<or> out_sent out = [] \<and> out_error out \<noteq> None)"

definition snapshot_push :: "collation \<Rightarrow> json_encoding \<Rightarrow> Store \<Rightarrow> nodeSession \<Rightarrow> ctl_outcome \<Rightarrow> bool" where
  "snapshot_push coll enc st ses out \<longleftrightarrow> ns_cacheReady ses \<and>
     (\<exists>snap x b c. fresh_snapshot coll (ns_nodeID ses) st ses c snap \<and> snap_Revision snap = revision_of st + 1 \<and>
        PrepareNodeIdentityCache coll (ns_nodeID ses) (ns_cacheSessionID ses) (snap_Revision snap) (touched_users snap) (issued_store st) =
          Inr (x, out_store out) \<and>
        out_session out = send_state enc snap (ses\<lparr>ns_needsBlockedIPs := b, ns_pendingCursor := c\<rparr>) \<and>
        (out_sent out = [] \<or> out_sent out = [chunk_message (out_session out)]))"

lemma next_revision:
  assumes "outbox_inv coll st"
  obtains "NextIdentityRevision st = Inr (revision_of st + 1, issued_store st)" "revision_of (issued_store st) = revision_of st + 1"
proof -
  obtain r where "identityRevision st = Some r" "0 \<le> r" using assms by (auto simp: outbox_inv_def store_parts)
  then show thesis by (intro that) (simp_all add: NextIdentityRevision_def commit_def revision_of_def)
qed

lemma enqueue_push:
  assumes "ns_cacheProtocol ses = 3" "ns_cacheReady ses"
    and fresh: "fresh_snapshot coll (ns_nodeID ses) st ses c snap" "snap_Revision snap = revision_of st + 1"
    and ses': "ses' = ses\<lparr>ns_needsBlockedIPs := b, ns_pendingCursor := c\<rparr>"
    and out: "out = enqueueIdentity coll enc True room snap (issued_store st) ses'"
  shows "idle_push st ses out \<or> snapshot_push coll enc st ses out"
proof -
  have mode: "snap_Incremental snap \<or> snap_Baseline snap"
    using fresh(1) by (auto simp: fresh_snapshot_def flight_ok_def)
  have p3: "ns_cacheProtocol ses' = 3" by (simp add: ses' assms(1))
  have ids: "ns_nodeID ses' = ns_nodeID ses" "ns_cacheSessionID ses' = ns_cacheSessionID ses" by (simp_all add: ses')
  show ?thesis
  proof (rule enqueue_outcome [OF p3 mode, where coll = coll and enc = enc and room = room and st = "issued_store st"], goal_cases)
    case (1 e)
    then show ?case by (auto simp: idle_push_def out done_with_def ses')
  next
    case (2 e msgs x st')
    then have "snapshot_push coll enc st ses out"
      unfolding snapshot_push_def ids using assms(2) fresh
      by (intro conjI exI [of _ snap] exI [of _ x] exI [of _ b] exI [of _ c]) (auto simp: out done_with_def ses')
    then show ?case ..
  qed
qed

lemma push_outcome:
  assumes inv: "outbox_inv coll st" and p3: "ns_cacheProtocol ses = 3"
    and out: "out = pushNodeIdentity coll enc dbu True room sid blocks st ses"
  shows "idle_push st ses out \<or>
    ns_pendingRevision ses \<le> ns_appliedRevision ses \<and> (reset_push sid st ses out \<or> snapshot_push coll enc st ses out)"
proof -
  have idle: "idle_push st ses (done_with e st ses [])" for e
    by (auto simp: idle_push_def done_with_def intro!: exI [of _ "ns_needsBlockedIPs ses"] exI [of _ "ns_pendingCursor ses"])
  have reset: "reset_push sid st ses (requestCacheReset True room sid st ses)"
    by (simp add: reset_push_def requestCacheReset_def done_with_def Let_def)
  define st1 where "st1 = issued_store st"
  have nxt: "NextIdentityRevision st = Inr (revision_of st + 1, st1)"
    unfolding st1_def using next_revision [OF inv] by blast
  have users: "idle_push st ses (push_users coll enc True room blocks requested st ses) \<or>
      snapshot_push coll enc st ses (push_users coll enc True room blocks requested st ses)"
    if ready: "ns_cacheReady ses" and mode: "ns_baselineActive ses \<Longrightarrow> requested = None"
      "\<not> ns_baselineActive ses \<Longrightarrow> requested = Some (PendingNodeIdentityUsers coll (ns_nodeID ses) (ns_cacheSessionID ses) st)" for requested
  proof -
    let ?cursor = "if ns_baselineActive ses then ns_baselineCursor ses else 0"
    show ?thesis
    proof (cases "ReadNodeIdentityPage coll (ns_nodeID ses) ?cursor requested 64 st")
      case None
      then show ?thesis using idle p3 by (simp add: push_users_def identityPageMessage_def enqueue_result_def Let_def)
    next
      case (Some p)
      let ?snap = "page_snapshot (ns_baselineActive ses) (revision_of st + 1) blocks p"
      have fresh: "fresh_snapshot coll (ns_nodeID ses) st ses (page_LastID p) ?snap"
        by (rule page_fresh [OF inv Some]) (use mode in auto)
      have rev: "snap_Revision ?snap = revision_of st + 1" by (simp add: page_snapshot_def Let_def)
      have "push_users coll enc True room blocks requested st ses =
          enqueueIdentity coll enc True room ?snap st1 (ses\<lparr>ns_pendingCursor := page_LastID p\<rparr>)"
        using p3 Some nxt by (simp add: push_users_def identityPageMessage_def enqueue_result_def Let_def)
      then show ?thesis
        by (intro enqueue_push [OF p3 ready fresh rev, where b = "ns_needsBlockedIPs ses"]) (simp_all add: st1_def)
    qed
  qed
  have blocked: "idle_push st ses (push_blocked coll enc True room blocks st ses) \<or>
      snapshot_push coll enc st ses (push_blocked coll enc True room blocks st ses)"
    if ready: "ns_cacheReady ses" and base: "\<not> ns_baselineActive ses"
  proof -
    obtain snap where msg: "blockedIPMessage blocks st ses = (Inr snap, st1, ses\<lparr>ns_needsBlockedIPs := False\<rparr>)"
      and rev: "snap_Revision snap = revision_of st + 1"
      using nxt by (auto simp: blockedIPMessage_def Let_def)
    let ?out = "enqueueIdentity coll enc True room snap st1 (ses\<lparr>ns_needsBlockedIPs := False\<rparr>)"
    have "idle_push st ses ?out \<or> snapshot_push coll enc st ses ?out"
      by (rule enqueue_push [OF p3 ready blocked_fresh [OF msg base, where c = "ns_pendingCursor ses"] rev, where b = False]) (simp_all add: st1_def)
    moreover have "idle_push st ses (o'\<lparr>out_session := (out_session o')\<lparr>ns_needsBlockedIPs := True\<rparr>\<rparr>)" if "idle_push st ses o'" for o'
    proof -
      from that obtain b c where "out_session o' = ses\<lparr>ns_needsBlockedIPs := b, ns_pendingCursor := c\<rparr>" by (auto simp: idle_push_def)
      then have "(out_session o')\<lparr>ns_needsBlockedIPs := True\<rparr> = ses\<lparr>ns_needsBlockedIPs := True, ns_pendingCursor := c\<rparr>"
        by (cases ses) simp
      with that show ?thesis by (auto simp: idle_push_def)
    qed
    moreover have "snapshot_push coll enc st ses (o'\<lparr>out_session := (out_session o')\<lparr>ns_needsBlockedIPs := True\<rparr>\<rparr>)"
      if "snapshot_push coll enc st ses o'" for o'
    proof -
      from that obtain snap x b c where o': "out_session o' = send_state enc snap (ses\<lparr>ns_needsBlockedIPs := b, ns_pendingCursor := c\<rparr>)"
        "fresh_snapshot coll (ns_nodeID ses) st ses c snap" "snap_Revision snap = revision_of st + 1" "ns_cacheReady ses"
        "PrepareNodeIdentityCache coll (ns_nodeID ses) (ns_cacheSessionID ses) (snap_Revision snap) (touched_users snap) (issued_store st) =
          Inr (x, out_store o')" "out_sent o' = [] \<or> out_sent o' = [chunk_message (out_session o')]"
        unfolding snapshot_push_def by blast
      have ses': "(out_session o')\<lparr>ns_needsBlockedIPs := True\<rparr> = send_state enc snap (ses\<lparr>ns_needsBlockedIPs := True, ns_pendingCursor := c\<rparr>)"
        unfolding o' by (cases ses) (simp add: send_state_def)
      have "chunk_message (out_session o') = chunk_message ((out_session o')\<lparr>ns_needsBlockedIPs := True\<rparr>)"
        by (simp add: chunk_message_def chunk_data_def)
      then have "out_sent o' = [] \<or> out_sent o' = [chunk_message ((out_session o')\<lparr>ns_needsBlockedIPs := True\<rparr>)]"
        using o'(6) by argo
      then show ?thesis
        unfolding snapshot_push_def using o'(2-5) ses'
        by (intro conjI exI [of _ snap] exI [of _ x] exI [of _ True] exI [of _ c]) simp_all
    qed
    ultimately show ?thesis using msg by (auto simp: push_blocked_def enqueue_result_def Let_def)
  qed
  define Q where "Q o' \<longleftrightarrow> idle_push st ses o' \<or>
    ns_pendingRevision ses \<le> ns_appliedRevision ses \<and> (reset_push sid st ses o' \<or> snapshot_push coll enc st ses o')" for o'
  have pick: "Q (if c then x else y)" if "c \<Longrightarrow> Q x" "\<not> c \<Longrightarrow> Q y" for c x y using that by simp
  have facts: "Q (done_with e st ses [])"
    "ns_pendingRevision ses \<le> ns_appliedRevision ses \<Longrightarrow> Q (requestCacheReset True room sid st ses)"
    "ns_pendingRevision ses \<le> ns_appliedRevision ses \<Longrightarrow> ns_cacheReady ses \<Longrightarrow> \<not> ns_baselineActive ses \<Longrightarrow>
       Q (push_blocked coll enc True room blocks st ses)"
    "ns_pendingRevision ses \<le> ns_appliedRevision ses \<Longrightarrow> ns_cacheReady ses \<Longrightarrow> ns_baselineActive ses \<Longrightarrow>
       Q (push_users coll enc True room blocks None st ses)"
    "ns_pendingRevision ses \<le> ns_appliedRevision ses \<Longrightarrow> ns_cacheReady ses \<Longrightarrow> \<not> ns_baselineActive ses \<Longrightarrow>
       Q (push_users coll enc True room blocks (Some (PendingNodeIdentityUsers coll (ns_nodeID ses) (ns_cacheSessionID ses) st)) st ses)" for e
    unfolding Q_def using idle reset blocked users by auto
  show ?thesis
    unfolding out pushNodeIdentity_def Let_def Q_def [symmetric]
    by (intro pick) (use p3 facts in auto)
qed

end
