(* ===== verification/Identity_Sync.thy ===== *)
theory Identity_Sync
  imports Identity_Push
begin

text \<open>
  The controller's store, the control session of one node, the stream between them and the node's
  store as one transition system. The stream delivers in order towards the node; answers reach
  their handlers in any order and may be dropped, as the controller hands them to workers with
  bounded queues. The connection may fail at any time on either end.
\<close>

section \<open>The system\<close>

record IdSync =
  y_center :: Store
  y_session :: "nodeSession option"
  y_alive :: bool
  y_link :: EdgeLink
  y_edge :: EdgeStore
  y_down :: "Message list"
  y_up :: "Message list"

definition new_session :: "string \<Rightarrow> string \<Rightarrow> int \<Rightarrow> string \<Rightarrow> nodeSession" where
  "new_session n boot admission sid =
     \<lparr>ns_nodeID = n, ns_bootID = boot, ns_cacheProtocol = 3, ns_admissionProtocol = admission, ns_cacheSessionID = sid,
      ns_cacheReady = False, ns_needsFull = False, ns_needsBlockedIPs = False, ns_baselineActive = False,
      ns_baselineCursor = 0, ns_pendingCursor = 0, ns_pendingRevision = 0, ns_appliedRevision = 0,
      ns_pendingIdentity = None, ns_pendingPayload = [], ns_chunkIndex = 0, ns_chunkTotal = 0, ns_applyProgress = 0,
      ns_blockedIPs = []\<rparr>"

definition new_link :: EdgeLink where
  "new_link = \<lparr>el_connected = False, el_syncReady = False, el_identityProtocol = 0, el_cacheSessionID = [],
     el_chunkBuffer = [], el_chunkRevision = 0, el_chunkIndex = 0, el_chunkTotal = 0, el_locallyApplied = 0,
     el_job = None, el_running = None\<rparr>"

text \<open>The dispatch of a message at the node and at the controller.\<close>

definition receive_message :: "Message \<Rightarrow> EdgeLink \<Rightarrow> string + EdgeLink \<times> Message list" where
  "receive_message m l =
     (case m of
        Welcome sid \<Rightarrow> receive_welcome 3 sid l
      | IdentityChunkMsg sid revision index count data \<Rightarrow> receive_chunk sid revision (int index) index count data l
      | IdentityConfirmed sid revision complete \<Rightarrow> receive_confirmed sid revision complete l
      | _ \<Rightarrow> Inr (l, []))"

definition accept_message :: "collation \<Rightarrow> go_time \<Rightarrow> bool \<Rightarrow> Message \<Rightarrow> Store \<Rightarrow> nodeSession \<Rightarrow> ctl_outcome" where
  "accept_message coll t room m st ses =
     (case m of
        CacheCleared sid \<Rightarrow> acceptCacheCleared coll True sid st ses
      | IdentityAck sid revision \<Rightarrow> confirmIdentity coll t True room sid revision st ses
      | _ \<Rightarrow> acceptIdentityProgress True room m st ses)"

text \<open>A session identifier no part of the system holds: \<open>NewOpaqueToken\<close> draws 32 random bytes.\<close>

fun message_sid :: "Message \<Rightarrow> string" where
  "message_sid (Welcome s) = s"
| "message_sid (IdentityChunkMsg s _ _ _ _) = s"
| "message_sid (IdentitySnapshotMsg s _ _) = s"
| "message_sid (IdentityConfirmed s _ _) = s"
| "message_sid (CacheCleared s) = s"
| "message_sid (IdentityChunkAck s _ _) = s"
| "message_sid (IdentityProgress s _ _) = s"
| "message_sid (IdentityAck s _) = s"

definition jobs :: "EdgeLink \<Rightarrow> apply_job list" where
  "jobs l = (case el_running l of None \<Rightarrow> [] | Some j \<Rightarrow> [j]) @ (case el_job l of None \<Rightarrow> [] | Some j \<Rightarrow> [j])"

fun job_sid :: "apply_job \<Rightarrow> string" where
  "job_sid (ResetJob s) = s"
| "job_sid (SnapshotJob s _ _) = s"

definition fresh_id :: "string \<Rightarrow> IdSync \<Rightarrow> bool" where
  "fresh_id sid y \<longleftrightarrow> sid \<noteq> [] \<and> sid \<notin> message_sid ` set (y_down y @ y_up y) \<and> sid \<notin> job_sid ` set (jobs (y_link y)) \<and>
     sid \<noteq> el_cacheSessionID (y_link y)"

definition identity_op :: "edge_op \<Rightarrow> bool" where
  "identity_op op = (case op of EO_ApplyIdentitySnapshot _ \<Rightarrow> True | EO_ResetIdentityCache \<Rightarrow> True
     | EO_DiscardControlIdentityCache \<Rightarrow> True | _ \<Rightarrow> False)"

text \<open>
  An error of an identity handler ends the session; a failed push only when it was to reset. A
  storage error is retried: until it succeeds the message just stays where it is.
\<close>

definition after_push :: "nodeSession \<Rightarrow> ctl_outcome \<Rightarrow> nodeSession option" where
  "after_push ses out =
     (if out_error out \<noteq> None \<and> ns_cacheSessionID (out_session out) \<noteq> ns_cacheSessionID ses then None else Some (out_session out))"

definition after_accept :: "ctl_outcome \<Rightarrow> nodeSession option" where
  "after_accept out = (if out_error out = None then Some (out_session out) else None)"

section \<open>Steps\<close>

inductive sync_step ::
  "collation \<Rightarrow> julian \<Rightarrow> json_encoding \<Rightarrow> (string \<Rightarrow> IdentitySnapshot option) \<Rightarrow> string \<Rightarrow> IdSync \<Rightarrow> IdSync \<Rightarrow> bool"
  for coll jd enc dec n where
  change: "caller_ok op (y_center y) \<Longrightarrow> \<not> sync_op op \<or> other_node coll n op \<Longrightarrow>
    sync_step coll jd enc dec n y (y\<lparr>y_center := store_exec coll t op (y_center y)\<rparr>)"
| stale_prepare: "caller_ok (SO_PrepareNodeIdentityCache n sid r us) (y_center y) \<Longrightarrow>
    (\<And>ses. y_session y = Some ses \<Longrightarrow> sid \<noteq> ns_cacheSessionID ses) \<Longrightarrow>
    sync_step coll jd enc dec n y (y\<lparr>y_center := store_exec coll t (SO_PrepareNodeIdentityCache n sid r us) (y_center y)\<rparr>)"
| schedule: "y_session y = Some ses \<Longrightarrow>
    sync_step coll jd enc dec n y (y\<lparr>y_session := Some (ses\<lparr>ns_needsFull := full, ns_needsBlockedIPs := blocked\<rparr>)\<rparr>)"
| local: "\<not> identity_op op \<Longrightarrow> sync_step coll jd enc dec n y (y\<lparr>y_edge := edge_exec jd t op (y_edge y)\<rparr>)"
| connect: "\<not> y_alive y \<Longrightarrow> sid \<noteq> [] \<Longrightarrow>
    sync_step coll jd enc dec n y (y\<lparr>y_session := Some (new_session n boot admission sid), y_alive := True, y_link := new_link,
      y_edge := DiscardControlIdentityCache (y_edge y), y_down := [Welcome sid], y_up := []\<rparr>)"
| drop: "s' \<in> {y_edge y, DiscardControlIdentityCache (y_edge y)} \<Longrightarrow>
    sync_step coll jd enc dec n y (y\<lparr>y_alive := False, y_link := new_link, y_edge := s', y_down := []\<rparr>)"
| close: "sync_step coll jd enc dec n y (y\<lparr>y_session := None\<rparr>)"
| push: "y_session y = Some ses \<Longrightarrow> fresh_id sid y \<Longrightarrow>
    out = pushNodeIdentity coll enc dbu True room sid blocks (y_center y) ses \<Longrightarrow>
    sync_step coll jd enc dec n y
      (y\<lparr>y_center := out_store out, y_session := after_push ses out, y_down := y_down y @ out_sent out\<rparr>)"
| deliver: "y_alive y \<Longrightarrow> y_down y = m # rest \<Longrightarrow> receive_message m (y_link y) = Inr (l, answers) \<Longrightarrow>
    sync_step coll jd enc dec n y (y\<lparr>y_link := l, y_down := rest, y_up := y_up y @ answers\<rparr>)"
| fault: "sync_step coll jd enc dec n y (y\<lparr>y_link := (y_link y)\<lparr>el_syncReady := False\<rparr>\<rparr>)"
| take: "sync_step coll jd enc dec n y (y\<lparr>y_link := take_job (y_link y)\<rparr>)"
| work: "y_alive y \<Longrightarrow> run_job jd now dec k (y_edge y) (y_link y) = Inr (s', l, msgs) \<Longrightarrow>
    sync_step coll jd enc dec n y (y\<lparr>y_edge := s', y_link := l, y_up := y_up y @ msgs\<rparr>)"
| accept: "y_session y = Some ses \<Longrightarrow> m \<in> set (y_up y) \<Longrightarrow> out = accept_message coll t room m (y_center y) ses \<Longrightarrow>
    sync_step coll jd enc dec n y
      (y\<lparr>y_center := out_store out, y_session := after_accept out, y_down := y_down y @ out_sent out,
         y_up := remove1 m (y_up y)\<rparr>)"
| lose: "m \<in> set (y_up y) \<Longrightarrow> sync_step coll jd enc dec n y (y\<lparr>y_up := remove1 m (y_up y)\<rparr>)"

definition sync_init :: "collation \<Rightarrow> string \<Rightarrow> IdSync \<Rightarrow> bool" where
  "sync_init coll n y \<longleftrightarrow> store_init (y_center y) \<and> registered coll n (y_center y) \<and> y_session y = None \<and>
     \<not> y_alive y \<and> y_link y = new_link \<and> y_edge y = empty_edge \<and> y_down y = [] \<and> y_up y = []"

section \<open>The invariant\<close>

text \<open>The session by itself.\<close>

definition session_ok :: "json_encoding \<Rightarrow> string \<Rightarrow> Store \<Rightarrow> nodeSession \<Rightarrow> bool" where
  "session_ok enc n st ses \<longleftrightarrow> ns_nodeID ses = n \<and> ns_cacheProtocol ses = 3 \<and> ns_cacheSessionID ses \<noteq> [] \<and>
     0 \<le> ns_baselineCursor ses \<and>
     ns_pendingRevision ses \<le> revision_of st \<and> ns_appliedRevision ses \<le> revision_of st \<and>
     (case ns_pendingIdentity ses of None \<Rightarrow> ns_pendingRevision ses \<le> ns_appliedRevision ses
      | Some snap \<Rightarrow> snap_Revision snap = ns_pendingRevision ses \<and> ns_appliedRevision ses < ns_pendingRevision ses \<and>
          ns_cacheReady ses \<and> flight_ok ses snap \<and> (snap_Baseline snap \<longrightarrow> ns_baselineCursor ses \<le> ns_pendingCursor ses \<and>
             (\<forall>u \<in> set (touched_users snap). 0 < u)) \<and>
          ns_pendingPayload ses = enc snap \<and>
          ns_chunkTotal ses = (length (enc snap) + identityChunkBytes - 1) div identityChunkBytes)"

text \<open>The resets on their way to the node, in the order it will run them.\<close>

fun reset_of :: "apply_job \<Rightarrow> string list" where
  "reset_of (ResetJob s) = [s]"
| "reset_of (SnapshotJob _ _ _) = []"

fun welcome_of :: "Message \<Rightarrow> string list" where
  "welcome_of (Welcome s) = [s]"
| "welcome_of _ = []"

definition welcomes :: "Message list \<Rightarrow> string list" where
  "welcomes ms = concat (map welcome_of ms)"

definition resets :: "EdgeLink \<Rightarrow> Message list \<Rightarrow> string list" where
  "resets l ms = concat (map reset_of (jobs l)) @ welcomes ms"

definition reset_ok :: "nodeSession \<Rightarrow> EdgeLink \<Rightarrow> EdgeStore \<Rightarrow> Message list \<Rightarrow> Message list \<Rightarrow> bool" where
  "reset_ok ses l s down up \<longleftrightarrow> distinct (resets l down) \<and>
     (resets l down \<noteq> [] \<longrightarrow> last (resets l down) = ns_cacheSessionID ses \<and> \<not> ns_cacheReady ses) \<and>
     (welcomes down = [] \<longrightarrow> el_cacheSessionID l = ns_cacheSessionID ses) \<and>
     (el_identityProtocol l < 3 \<longrightarrow> el_cacheSessionID l = []) \<and>
     (CacheCleared (ns_cacheSessionID ses) \<in> set up \<and> \<not> ns_cacheReady ses \<longrightarrow>
        resets l down = [] \<and> (\<forall>u. rows_free u s))"

text \<open>The fragments of the snapshot under way: how many the node has, and what is on the wire.\<close>

fun is_chunk :: "Message \<Rightarrow> bool" where
  "is_chunk (IdentityChunkMsg _ _ _ _ _) = True"
| "is_chunk _ = False"

fun is_snapshot_job :: "apply_job \<Rightarrow> bool" where
  "is_snapshot_job (SnapshotJob _ _ _) = True"
| "is_snapshot_job _ = False"

definition chunks_got :: "nodeSession \<Rightarrow> EdgeLink \<Rightarrow> nat" where
  "chunks_got ses l = (if el_chunkRevision l = ns_pendingRevision ses then el_chunkIndex l else 0)"

definition transfer_ok :: "nodeSession \<Rightarrow> EdgeLink \<Rightarrow> Message list \<Rightarrow> Message list \<Rightarrow> bool" where
  "transfer_ok ses l down up \<longleftrightarrow>
     chunks_got ses l \<in> {ns_chunkIndex ses, Suc (ns_chunkIndex ses)} \<and> chunks_got ses l \<le> ns_chunkTotal ses \<and>
     (\<forall>m \<in> set down. is_chunk m \<longrightarrow>
        m = chunk_message ses \<and> chunks_got ses l = ns_chunkIndex ses \<and> ns_chunkIndex ses < ns_chunkTotal ses) \<and>
     length (filter is_chunk down) \<le> 1 \<and>
     (\<forall>q. IdentityChunkAck (ns_cacheSessionID ses) (ns_pendingRevision ses) q \<in> set up \<longrightarrow> q < int (chunks_got ses l)) \<and>
     (el_chunkRevision l = ns_pendingRevision ses \<longrightarrow> el_chunkTotal l = ns_chunkTotal ses \<and>
        (el_chunkIndex l < ns_chunkTotal ses \<longrightarrow>
           el_chunkBuffer l = take (el_chunkIndex l * identityChunkBytes) (ns_pendingPayload ses)))"

text \<open>The snapshot jobs and their acknowledgements.\<close>

definition jobs_ok :: "nodeSession \<Rightarrow> EdgeLink \<Rightarrow> EdgeStore \<Rightarrow> Message list \<Rightarrow> bool" where
  "jobs_ok ses l s up \<longleftrightarrow>
     (\<forall>j \<in> set (jobs l). is_snapshot_job j \<longrightarrow> ns_pendingIdentity ses \<noteq> None \<and>
        j = SnapshotJob (ns_cacheSessionID ses) (ns_pendingRevision ses) (ns_pendingPayload ses) \<and>
        el_chunkRevision l = ns_pendingRevision ses \<and> el_chunkIndex l = ns_chunkTotal ses \<and>
        lastRevision s \<noteq> Some (ns_pendingRevision ses)) \<and>
     length (filter is_snapshot_job (jobs l)) \<le> 1 \<and>
     (ns_pendingIdentity ses \<noteq> None \<and> chunks_got ses l < ns_chunkTotal ses \<longrightarrow> lastRevision s \<noteq> Some (ns_pendingRevision ses)) \<and>
     (\<forall>r. IdentityAck (ns_cacheSessionID ses) r \<in> set up \<longrightarrow> ns_cacheReady ses \<and>
        (r \<le> ns_appliedRevision ses \<or>
         ns_pendingIdentity ses \<noteq> None \<and> r = ns_pendingRevision ses \<and> lastRevision s = Some r))"

text \<open>Readiness: what the node has been told, and believes, of the completed baseline.\<close>

definition ready_ok :: "nodeSession \<Rightarrow> EdgeLink \<Rightarrow> Message list \<Rightarrow> bool" where
  "ready_ok ses l down \<longleftrightarrow>
     (\<forall>r. IdentityConfirmed (ns_cacheSessionID ses) r True \<in> set down \<longrightarrow> ns_cacheReady ses \<and> \<not> ns_baselineActive ses) \<and>
     (el_syncReady l \<and> el_cacheSessionID l = ns_cacheSessionID ses \<longrightarrow> ns_cacheReady ses \<and> \<not> ns_baselineActive ses)"

definition applied_by :: "nodeSession \<Rightarrow> EdgeStore \<Rightarrow> bool" where
  "applied_by ses s \<longleftrightarrow> lastRevision s = Some (ns_pendingRevision ses)"

fun ack_revision :: "Message \<Rightarrow> int" where
  "ack_revision (IdentityChunkAck _ r _) = r"
| "ack_revision _ = 0"

definition bounds_ok :: "int \<Rightarrow> EdgeLink \<Rightarrow> EdgeStore \<Rightarrow> Message list \<Rightarrow> bool" where
  "bounds_ok bound l s up \<longleftrightarrow> 0 \<le> bound \<and> edge_closed s \<and> (case lastRevision s of None \<Rightarrow> True | Some r \<Rightarrow> r \<le> bound) \<and>
     el_chunkRevision l \<le> bound \<and> (\<forall>m \<in> set up. ack_revision m \<le> bound)"

definition session_live :: "collation \<Rightarrow> string \<Rightarrow> Store \<Rightarrow> nodeSession \<Rightarrow> EdgeLink \<Rightarrow> EdgeStore \<Rightarrow> Message list \<Rightarrow> Message list \<Rightarrow> bool" where
  "session_live coll n st ses l s down up \<longleftrightarrow> reset_ok ses l s down up \<and> jobs_ok ses l s up \<and> ready_ok ses l down \<and>
     bounds_ok (revision_of st) l s up \<and>
     (if ns_pendingIdentity ses = None then filter is_chunk down = [] else transfer_ok ses l down up) \<and>
     (ns_cacheReady ses \<longrightarrow> session_of coll n (cacheSessions st) = Some (ns_cacheSessionID ses) \<and>
        view_ok coll n st ses (applied_by ses s) s)"

definition sync_inv :: "collation \<Rightarrow> json_encoding \<Rightarrow> string \<Rightarrow> IdSync \<Rightarrow> bool" where
  "sync_inv coll enc n y \<longleftrightarrow> outbox_inv coll (y_center y) \<and> registered coll n (y_center y) \<and> edge_wf (y_edge y) \<and>
     (\<forall>ses. y_session y = Some ses \<longrightarrow> session_ok enc n (y_center y) ses \<and>
        (y_alive y \<longrightarrow> session_live coll n (y_center y) ses (y_link y) (y_edge y) (y_down y) (y_up y)))"

section \<open>Steps that leave the exchange alone\<close>

lemma session_ok_mono: "session_ok enc n st ses \<Longrightarrow> revision_of st \<le> revision_of st' \<Longrightarrow> session_ok enc n st' ses"
  by (auto simp: session_ok_def)

lemma bounds_ok_mono: "bounds_ok b l s up \<Longrightarrow> b \<le> b' \<Longrightarrow> bounds_ok b' l s up"
  by (auto simp: bounds_ok_def split: option.splits)

lemma session_live_evolves:
  assumes session_live: "session_live coll n st ses l s down up" and ok: "session_ok enc n st ses" and ev: "evolves coll n st st'"
  shows "session_live coll n st' ses l s down up"
proof -
  have "snap_Revision snap \<le> revision_of st" if "ns_pendingIdentity ses = Some snap" for snap
    using ok that by (auto simp: session_ok_def)
  then have "view_ok coll n st' ses (applied_by ses s) s" if "view_ok coll n st ses (applied_by ses s) s"
    using view_evolves [OF ev that] by blast
  with session_live ev bounds_ok_mono [of "revision_of st" l s up "revision_of st'"] show ?thesis
    unfolding session_live_def evolves_def by auto
qed

lemma sync_change:
  assumes inv: "sync_inv coll enc n y" and ok: "caller_ok op (y_center y)" and op: "\<not> sync_op op \<or> other_node coll n op"
  shows "sync_inv coll enc n (y\<lparr>y_center := store_exec coll t op (y_center y)\<rparr>)"
proof -
  have st: "outbox_inv coll (y_center y)" "registered coll n (y_center y)" using inv by (simp_all add: sync_inv_def)
  have ev: "evolves coll n (y_center y) (store_exec coll t op (y_center y))"
    using op evolves_mutation [OF st ok] evolves_other [OF st(1) ok] by blast
  then have "registered coll n (store_exec coll t op (y_center y))"
    using st(2) by (simp add: evolves_def registered_def)
  with inv ev outbox_inv_exec [OF st(1) ok] show ?thesis
    by (auto simp: sync_inv_def evolves_def intro: session_ok_mono session_live_evolves [OF _ _ ev])
qed

lemma sync_stale:
  assumes inv: "sync_inv coll enc n y" and ok: "caller_ok (SO_PrepareNodeIdentityCache n sid r us) (y_center y)"
    and other: "\<And>ses. y_session y = Some ses \<Longrightarrow> sid \<noteq> ns_cacheSessionID ses"
  shows "sync_inv coll enc n (y\<lparr>y_center := store_exec coll t (SO_PrepareNodeIdentityCache n sid r us) (y_center y)\<rparr>)"
proof -
  let ?st = "store_exec coll t (SO_PrepareNodeIdentityCache n sid r us) (y_center y)"
  have st: "outbox_inv coll (y_center y)" "registered coll n (y_center y)" using inv by (simp_all add: sync_inv_def)
  have frame: "revision_of ?st = revision_of (y_center y)" "edgeNodes ?st = edgeNodes (y_center y)"
    by (auto simp: commit_def PrepareNodeIdentityCache_def revision_of_def split: option.splits)
  have idle: "?st = y_center y" if "session_of coll n (cacheSessions (y_center y)) = Some sid'" "sid' \<noteq> sid" for sid'
    using that by (simp add: commit_def PrepareNodeIdentityCache_def lockCacheSession_def)
  have "session_live coll n ?st ses (y_link y) (y_edge y) (y_down y) (y_up y)"
    if ses: "y_session y = Some ses" and session_live: "session_live coll n (y_center y) ses (y_link y) (y_edge y) (y_down y) (y_up y)" for ses
  proof (cases "ns_cacheReady ses")
    case True
    with session_live have "session_of coll n (cacheSessions (y_center y)) = Some (ns_cacheSessionID ses)" by (simp add: session_live_def)
    then have "?st = y_center y" using other [OF ses] by (intro idle) auto
    with session_live show ?thesis by simp
  next
    case False
    with session_live show ?thesis by (simp add: session_live_def frame del: store_exec.simps)
  qed
  then show ?thesis
    using inv outbox_inv_exec [OF st(1) ok, of t] frame
    by (auto simp: sync_inv_def registered_def session_ok_def simp del: store_exec.simps)
qed

lemma view_session_cong:
  assumes "ns_pendingIdentity ses' = ns_pendingIdentity ses" "ns_baselineActive ses' = ns_baselineActive ses"
    "ns_baselineCursor ses' = ns_baselineCursor ses"
    "ns_pendingIdentity ses = None \<or> ns_pendingCursor ses' = ns_pendingCursor ses"
  shows "view_ok coll n st ses' = view_ok coll n st ses"
proof -
  have "covers ses' = covers ses" using assms by (intro ext) (auto simp: covers_def split: option.splits)
  then show ?thesis using assms(1) by (intro ext) (simp add: view_ok_def view_of_def)
qed

lemma sync_schedule:
  assumes "sync_inv coll enc n y" "y_session y = Some ses"
  shows "sync_inv coll enc n (y\<lparr>y_session := Some (ses\<lparr>ns_needsFull := full, ns_needsBlockedIPs := blocked\<rparr>)\<rparr>)"
proof -
  let ?ses = "ses\<lparr>ns_needsFull := full, ns_needsBlockedIPs := blocked\<rparr>"
  have "session_ok enc n st ?ses = session_ok enc n st ses" for st
    by (simp add: session_ok_def flight_ok_def split: option.splits)
  moreover have "view_ok coll n st ?ses = view_ok coll n st ses" for st
    by (rule view_session_cong) simp_all
  then have "session_live coll n st ?ses l s down up = session_live coll n st ses l s down up" for st l s down up
    by (simp add: session_live_def reset_ok_def jobs_ok_def ready_ok_def transfer_ok_def chunks_got_def applied_by_def
        chunk_message_def chunk_data_def)
  ultimately show ?thesis using assms by (simp add: sync_inv_def)
qed

definition identity_part :: "EdgeStore \<Rightarrow> _" where
  "identity_part s = (cachedUsers s, cachedTokens s, cachedPolicies s, cachedGrants s, cachedDPIPolicies s, lastRevision s)"

lemma identity_part_same:
  assumes "identity_part s' = identity_part s"
  shows "edge_identity u s' = edge_identity u s" "rows_free u s' = rows_free u s" "edge_closed s' = edge_closed s"
    "lastRevision s' = lastRevision s"
  using assms by (simp_all add: identity_part_def edge_identity_def rows_free_def edge_closed_def)

lemma local_frame: "\<not> identity_op op \<Longrightarrow> identity_part (edge_exec jd t op s) = identity_part s"
  by (cases op)
    (auto simp: identity_op_def identity_part_def edge_commit_def Credential_def insert_client_def TouchClient_def TouchClientSeen_def
      ClearClient_def DisconnectWarning_def CreateLease_def RevokeClient_def ReleaseRuntimeLease_edge_def QueueEvent_def
      keep_newest_def SetDPIEventReporting_def PruneDisabledDPIEvents_def AcknowledgeEvents_def BeginCommand_def FinishCommand_def
      ConfirmConfiguration_def DisconnectClientForCommand_def push_command_def UpsertBlockedIP_def DeleteBlockedIP_def
      EnqueueClientCommand_edge_def PopClientCommands_def AcknowledgeClientCommand_edge_def
      DeleteUnacknowledgedClientCommands_def revoke_def Let_def split: option.splits if_splits sum.splits)

lemma sync_local:
  assumes inv: "sync_inv coll enc n y" and op: "\<not> identity_op op"
  shows "sync_inv coll enc n (y\<lparr>y_edge := edge_exec jd t op (y_edge y)\<rparr>)"
proof -
  note same = identity_part_same [OF local_frame [OF op, of jd t "y_edge y"]]
  have "session_live coll n st ses l (edge_exec jd t op (y_edge y)) down up = session_live coll n st ses l (y_edge y) down up"
    for st ses l down up
    by (simp add: session_live_def reset_ok_def jobs_ok_def bounds_ok_def view_ok_def applied_by_def same)
  with inv edge_wf_exec show ?thesis by (simp add: sync_inv_def)
qed

section \<open>Connecting\<close>

lemma discarded [simp]:
  "rows_free u (DiscardControlIdentityCache s)" "edge_closed (DiscardControlIdentityCache s)"
  "lastRevision (DiscardControlIdentityCache s) = None"
  by (simp_all add: DiscardControlIdentityCache_def resetIdentityCache_def clear_identities_def rows_free_def edge_closed_def)

lemma discarded_wf [simp]: "edge_wf s \<Longrightarrow> edge_wf (DiscardControlIdentityCache s)"
  using edge_wf_exec [of s jd t EO_DiscardControlIdentityCache] by simp

lemma sync_connect:
  assumes inv: "sync_inv coll enc n y" and "sid \<noteq> []"
  shows "sync_inv coll enc n (y\<lparr>y_session := Some (new_session n boot admission sid), y_alive := True, y_link := new_link,
    y_edge := DiscardControlIdentityCache (y_edge y), y_down := [Welcome sid], y_up := []\<rparr>)"
proof -
  have rev: "0 \<le> revision_of (y_center y)" using inv revision_nonneg by (auto simp: sync_inv_def)
  have "session_ok enc n (y_center y) (new_session n boot admission sid)"
    using rev assms(2) by (simp add: session_ok_def new_session_def)
  moreover have "session_live coll n (y_center y) (new_session n boot admission sid) new_link
      (DiscardControlIdentityCache (y_edge y)) [Welcome sid] []"
    using assms(2) rev
    by (simp add: session_live_def new_session_def new_link_def reset_ok_def resets_def jobs_def welcomes_def jobs_ok_def
        ready_ok_def bounds_ok_def)
  ultimately show ?thesis using inv by (simp add: sync_inv_def)
qed

lemma sync_drop:
  assumes "sync_inv coll enc n y" "s' \<in> {y_edge y, DiscardControlIdentityCache (y_edge y)}"
  shows "sync_inv coll enc n (y\<lparr>y_alive := False, y_link := new_link, y_edge := s', y_down := []\<rparr>)"
  using assms by (auto simp: sync_inv_def)

lemma sync_close: "sync_inv coll enc n y \<Longrightarrow> sync_inv coll enc n (y\<lparr>y_session := None\<rparr>)"
  by (simp add: sync_inv_def)

section \<open>Steps of the link\<close>

lemma jobs_take [simp]: "jobs (take_job l) = jobs l"
  by (auto simp: jobs_def take_job_def split: option.splits)

lemma take_job_fields [simp]:
  "el_cacheSessionID (take_job l) = el_cacheSessionID l" "el_identityProtocol (take_job l) = el_identityProtocol l"
  "el_chunkRevision (take_job l) = el_chunkRevision l" "el_chunkIndex (take_job l) = el_chunkIndex l"
  "el_chunkTotal (take_job l) = el_chunkTotal l" "el_chunkBuffer (take_job l) = el_chunkBuffer l"
  "el_syncReady (take_job l) = el_syncReady l"
  by (simp_all add: take_job_def)

lemma live_link:
  assumes live: "session_live coll n st ses l s down up" and jobs: "jobs l' = jobs l"
    and same: "el_cacheSessionID l' = el_cacheSessionID l" "el_identityProtocol l' = el_identityProtocol l"
      "el_chunkRevision l' = el_chunkRevision l" "el_chunkIndex l' = el_chunkIndex l" "el_chunkTotal l' = el_chunkTotal l"
      "el_chunkBuffer l' = el_chunkBuffer l" and ready: "ready_ok ses l' down"
  shows "session_live coll n st ses l' s down up"
proof -
  have "resets l' down = resets l down" "chunks_got ses l' = chunks_got ses l"
    by (simp_all add: resets_def jobs chunks_got_def same)
  then have "reset_ok ses l' s down up = reset_ok ses l s down up" "jobs_ok ses l' s up = jobs_ok ses l s up"
    "bounds_ok b l' s up = bounds_ok b l s up" "transfer_ok ses l' down up = transfer_ok ses l down up" for b
    by (simp_all only: reset_ok_def jobs_ok_def bounds_ok_def transfer_ok_def jobs same)
  with live ready show ?thesis unfolding session_live_def by simp
qed

lemma sync_link:
  assumes "sync_inv coll enc n y"
    and "\<And>ses. session_live coll n (y_center y) ses (y_link y) (y_edge y) (y_down y) (y_up y) \<Longrightarrow>
      session_live coll n (y_center y) ses l (y_edge y) (y_down y) (y_up y)"
  shows "sync_inv coll enc n (y\<lparr>y_link := l\<rparr>)"
  using assms by (simp add: sync_inv_def)

lemma sync_take: "sync_inv coll enc n y \<Longrightarrow> sync_inv coll enc n (y\<lparr>y_link := take_job (y_link y)\<rparr>)"
  by (erule sync_link, rule live_link, assumption) (simp_all add: session_live_def ready_ok_def)

lemma sync_fault: "sync_inv coll enc n y \<Longrightarrow> sync_inv coll enc n (y\<lparr>y_link := (y_link y)\<lparr>el_syncReady := False\<rparr>\<rparr>)"
  by (erule sync_link, rule live_link, assumption) (simp_all add: jobs_def session_live_def ready_ok_def)

lemma session_live_up_mono:
  assumes live: "session_live coll n st ses l s down up" and sub: "set up' \<subseteq> set up"
  shows "session_live coll n st ses l s down up'"
proof -
  have "reset_ok ses l s down up'" using live sub by (auto simp: session_live_def reset_ok_def)
  moreover have "jobs_ok ses l s up'" using live sub by (auto simp: session_live_def jobs_ok_def)
  moreover have "bounds_ok (revision_of st) l s up'" using live sub by (auto simp: session_live_def bounds_ok_def)
  moreover have "transfer_ok ses l down up'" if "transfer_ok ses l down up" using that sub by (auto simp: transfer_ok_def)
  ultimately show ?thesis using live by (simp add: session_live_def)
qed

lemma sync_lose:
  assumes "sync_inv coll enc n y"
  shows "sync_inv coll enc n (y\<lparr>y_up := remove1 m (y_up y)\<rparr>)"
  using assms session_live_up_mono [OF _ set_remove1_subset] by (simp add: sync_inv_def)

text \<open>While a reset is on its way, the session waits for no snapshot.\<close>

lemma resetting:
  assumes "session_live coll n st ses l s down up" "session_ok enc n st ses" "resets l down \<noteq> []"
  shows "\<not> ns_cacheReady ses" "ns_pendingIdentity ses = None" "\<forall>j \<in> set (jobs l). \<not> is_snapshot_job j"
    "\<forall>r. IdentityAck (ns_cacheSessionID ses) r \<notin> set up" "filter is_chunk down = []"
proof -
  show ready: "\<not> ns_cacheReady ses" using assms(1,3) by (simp add: session_live_def reset_ok_def)
  then show none: "ns_pendingIdentity ses = None" using assms(2) by (auto simp: session_ok_def split: option.splits)
  show "\<forall>j \<in> set (jobs l). \<not> is_snapshot_job j" "\<forall>r. IdentityAck (ns_cacheSessionID ses) r \<notin> set up"
    using assms(1) ready none by (auto simp: session_live_def jobs_ok_def)
  show "filter is_chunk down = []" using assms(1) none by (simp add: session_live_def)
qed

lemma live_welcome:
  assumes live: "session_live coll n st ses l s (Welcome sid # down) up" and ok: "session_ok enc n st ses"
    and recv: "receive_welcome 3 sid l = Inr (l', answers)"
  shows "session_live coll n st ses l' s down (up @ answers)"
proof -
  from recv have job: "el_job l = None" and answers: "answers = []" and
    l': "l' = l\<lparr>el_connected := True, el_identityProtocol := 3, el_cacheSessionID := sid, el_syncReady := False,
           el_chunkBuffer := [], el_job := Some (ResetJob sid)\<rparr>"
    by (auto simp: receive_welcome_def queueApply_def Let_def split: if_splits)
  have w: "welcomes (Welcome sid # down) = sid # welcomes down" by (simp add: welcomes_def)
  have nonempty: "resets l (Welcome sid # down) \<noteq> []" by (simp add: resets_def w)
  note reset = resetting [OF live ok nonempty]
  have jobs': "jobs l' = jobs l @ [ResetJob sid]" using job by (simp add: l' jobs_def)
  have same: "resets l' down = resets l (Welcome sid # down)" by (simp add: resets_def jobs' w)
  have "reset_ok ses l' s down up"
  proof -
    have old: "distinct (resets l (Welcome sid # down))" "last (resets l (Welcome sid # down)) = ns_cacheSessionID ses"
      "CacheCleared (ns_cacheSessionID ses) \<notin> set up"
      using live nonempty reset(1) by (auto simp: session_live_def reset_ok_def)
    moreover have "sid = ns_cacheSessionID ses" if "welcomes down = []" using that old(2) by (simp add: resets_def w)
    ultimately show ?thesis using reset(1) by (simp add: reset_ok_def same) (simp add: l')
  qed
  moreover have "jobs_ok ses l' s up" using reset by (auto simp: jobs_ok_def jobs' filter_empty_conv)
  moreover have "ready_ok ses l' down" using live by (auto simp: session_live_def ready_ok_def l')
  moreover have "bounds_ok (revision_of st) l' s up" using live by (simp add: session_live_def bounds_ok_def l')
  ultimately show ?thesis using reset by (simp add: session_live_def answers)
qed

lemma live_skip:
  assumes live: "session_live coll n st ses l s (m # down) up" and m: "welcome_of m = []" "\<not> is_chunk m"
  shows "session_live coll n st ses l s down up"
proof -
  have "welcomes (m # down) = welcomes down" "resets l (m # down) = resets l down" by (simp_all add: welcomes_def resets_def m)
  then have "reset_ok ses l s down up = reset_ok ses l s (m # down) up" by (simp only: reset_ok_def)
  moreover have "ready_ok ses l down" using live by (auto simp: session_live_def ready_ok_def)
  moreover have "transfer_ok ses l down up" if "transfer_ok ses l (m # down) up" using that m(2) by (simp add: transfer_ok_def)
  ultimately show ?thesis using live m(2) unfolding session_live_def by (auto split: if_splits)
qed

lemma live_confirmed:
  assumes live: "session_live coll n st ses l s (IdentityConfirmed sid r c # down) up" and ok: "session_ok enc n st ses"
    and recv: "receive_confirmed sid r c l = Inr (l', answers)"
  shows "session_live coll n st ses l' s down (up @ answers)"
proof -
  from recv have sid: "sid = el_cacheSessionID l" and answers: "answers = []"
    and l': "l' = l\<lparr>el_syncReady := (el_identityProtocol l < 3 \<or> c)\<rparr>"
    by (auto simp: receive_confirmed_def split: if_splits)
  have "session_live coll n st ses l s down up" by (rule live_skip [OF live]) simp_all
  moreover have "ready_ok ses l' down"
    using live ok sid unfolding session_live_def ready_ok_def reset_ok_def session_ok_def l' by auto
  ultimately show ?thesis unfolding answers append_Nil2 by - (rule live_link [where l = l], simp_all add: l' jobs_def)
qed

lemma chunk_append:
  "take (i * b) p @ take b (drop (i * b) p) = take (Suc i * b) p"
  by (simp add: take_add [symmetric] add.commute)

lemma chunk_count: "length p \<le> (length p + identityChunkBytes - 1) div identityChunkBytes * identityChunkBytes"
  by (simp add: identityChunkBytes_def)

text \<open>The node takes the next fragment: the payload grows by it, and a complete payload is queued.\<close>

lemma receive_chunk_result:
  assumes recv: "receive_chunk sid r q i tot data l = Inr (l', answers)"
  obtains "el_chunkTotal l' = tot" "el_chunkRevision l' = r" "el_chunkIndex l' = Suc i" "answers = [IdentityChunkAck sid r (int i)]"
    "sid = el_cacheSessionID l" "el_cacheSessionID l' = el_cacheSessionID l" "el_identityProtocol l' = el_identityProtocol l"
    "el_syncReady l' \<longrightarrow> el_syncReady l" "i = 0 \<longrightarrow> el_chunkBuffer l = []"
    "if Suc i = tot then jobs l' = jobs l @ [SnapshotJob sid r (el_chunkBuffer l @ data)]
     else jobs l' = jobs l \<and> el_chunkBuffer l' = el_chunkBuffer l @ data"
  using assms
  by (cases "i = 0")
    (auto simp: receive_chunk_def queueApply_def Let_def jobs_def split: if_splits intro!: that)

lemma live_chunk:
  assumes live: "session_live coll n st ses l s (IdentityChunkMsg sid r i tot data # down) up" and ok: "session_ok enc n st ses"
    and recv: "receive_chunk sid r (int i) i tot data l = Inr (l', answers)"
  shows "session_live coll n st ses l' s down (up @ answers)"
proof -
  let ?m = "IdentityChunkMsg sid r i tot data"
  have "ns_pendingIdentity ses \<noteq> None" using live by (auto simp: session_live_def split: if_splits)
  then obtain snap where snap: "ns_pendingIdentity ses = Some snap" and ready: "ns_cacheReady ses"
    and payload: "length (ns_pendingPayload ses) \<le> ns_chunkTotal ses * identityChunkBytes"
    and rev: "ns_pendingRevision ses \<le> revision_of st"
    using ok chunk_count by (auto simp: session_ok_def split: option.splits)
  have tr: "transfer_ok ses l (?m # down) up" using live snap by (simp add: session_live_def)
  then have m: "?m = chunk_message ses" "chunks_got ses l = ns_chunkIndex ses" "ns_chunkIndex ses < ns_chunkTotal ses"
    and rest: "filter is_chunk down = []"
    by (auto simp: transfer_ok_def)
  then have f: "sid = ns_cacheSessionID ses" "r = ns_pendingRevision ses" "i = ns_chunkIndex ses" "tot = ns_chunkTotal ses"
    "data = take identityChunkBytes (drop (i * identityChunkBytes) (ns_pendingPayload ses))"
    by (auto simp: chunk_message_def chunk_data_def)
  obtain l': "el_chunkTotal l' = tot" "el_chunkRevision l' = r" "el_chunkIndex l' = Suc i" "answers = [IdentityChunkAck sid r (int i)]"
    "el_cacheSessionID l' = el_cacheSessionID l" "el_identityProtocol l' = el_identityProtocol l"
    "el_syncReady l' \<longrightarrow> el_syncReady l" "i = 0 \<longrightarrow> el_chunkBuffer l = []"
    "if Suc i = tot then jobs l' = jobs l @ [SnapshotJob sid r (el_chunkBuffer l @ data)]
     else jobs l' = jobs l \<and> el_chunkBuffer l' = el_chunkBuffer l @ data"
    using receive_chunk_result [OF recv] by metis
  have "el_chunkBuffer l = take (i * identityChunkBytes) (ns_pendingPayload ses)"
  proof (cases "i = 0")
    case False
    then have "el_chunkRevision l = ns_pendingRevision ses" "el_chunkIndex l = i"
      using m(2) f(3) by (auto simp: chunks_got_def split: if_splits)
    then show ?thesis using tr m(3) f(3) by (simp add: transfer_ok_def)
  qed (use l'(8) in simp)
  then have buffer: "el_chunkBuffer l @ data = take (Suc i * identityChunkBytes) (ns_pendingPayload ses)"
    by (simp only: f(5) chunk_append)
  have got: "chunks_got ses l' = Suc i" by (simp add: chunks_got_def l'(2,3) f(2))
  have jobs: "jobs_ok ses l s up" using live by (simp add: session_live_def)
  have none: "\<not> is_snapshot_job j" if "j \<in> set (jobs l)" for j
    using jobs that m(2,3) by (auto simp: jobs_ok_def chunks_got_def split: if_splits)
  have new: "lastRevision s \<noteq> Some (ns_pendingRevision ses)"
    using jobs m(2,3) snap by (auto simp: jobs_ok_def)
  have resets: "resets l' down = resets l (?m # down)" "welcomes (?m # down) = welcomes down"
    using l'(9) by (auto simp: resets_def welcomes_def split: if_splits)
  have "reset_ok ses l' s down (up @ answers)"
    using live ready unfolding session_live_def reset_ok_def resets l'(5,6) by simp
  moreover have "jobs_ok ses l' s (up @ answers)"
  proof (cases "Suc i = tot")
    case True
    then have "jobs l' = jobs l @ [SnapshotJob (ns_cacheSessionID ses) (ns_pendingRevision ses) (ns_pendingPayload ses)]"
      using l'(9) buffer payload f by simp
    moreover have "filter is_snapshot_job (jobs l) = []" using none by (simp add: filter_empty_conv)
    ultimately show ?thesis
      using jobs snap l' f True none new by (auto simp: jobs_ok_def got)
  next
    case False
    then have "jobs l' = jobs l" using l'(9) by simp
    then show ?thesis using jobs none new l'(4) by (auto simp: jobs_ok_def)
  qed
  moreover have "ready_ok ses l' down" using live l'(5,7) by (auto simp: session_live_def ready_ok_def)
  moreover have "bounds_ok (revision_of st) l' s (up @ answers)"
    using live rev l'(2,4) f(2) by (auto simp: session_live_def bounds_ok_def)
  moreover have "transfer_ok ses l' down (up @ answers)"
    unfolding transfer_ok_def got
  proof (intro conjI)
    show "\<forall>m \<in> set down. is_chunk m \<longrightarrow> m = chunk_message ses \<and> Suc i = ns_chunkIndex ses \<and> ns_chunkIndex ses < ns_chunkTotal ses"
      using rest by (simp add: filter_empty_conv)
    show "\<forall>q. IdentityChunkAck (ns_cacheSessionID ses) (ns_pendingRevision ses) q \<in> set (up @ answers) \<longrightarrow> q < int (Suc i)"
      using tr m(2) f(3) l'(4) by (fastforce simp: transfer_ok_def)
    show "el_chunkRevision l' = ns_pendingRevision ses \<longrightarrow> el_chunkTotal l' = ns_chunkTotal ses \<and>
        (el_chunkIndex l' < ns_chunkTotal ses \<longrightarrow> el_chunkBuffer l' = take (el_chunkIndex l' * identityChunkBytes) (ns_pendingPayload ses))"
      using l' buffer f by (auto split: if_splits)
  qed (use m(3) f(3) rest in simp_all)
  ultimately show ?thesis using live snap by (simp add: session_live_def)
qed

lemma sync_deliver:
  assumes inv: "sync_inv coll enc n y" and alive: "y_alive y" and down: "y_down y = m # rest"
    and recv: "receive_message m (y_link y) = Inr (l, answers)"
  shows "sync_inv coll enc n (y\<lparr>y_link := l, y_down := rest, y_up := y_up y @ answers\<rparr>)"
proof -
  have "session_live coll n (y_center y) ses l (y_edge y) rest (y_up y @ answers)"
    if "session_live coll n (y_center y) ses (y_link y) (y_edge y) (m # rest) (y_up y)" "session_ok enc n (y_center y) ses" for ses
  proof (cases m)
    case (Welcome x)
    with that recv show ?thesis by (intro live_welcome) (simp_all add: receive_message_def)
  next
    case (IdentityChunkMsg a b c d e)
    with that recv show ?thesis by (intro live_chunk) (simp_all add: receive_message_def)
  next
    case (IdentityConfirmed a b c)
    with that recv show ?thesis by (intro live_confirmed) (simp_all add: receive_message_def)
  qed (use recv live_skip [OF that(1)] in \<open>simp_all add: receive_message_def\<close>)
  with inv alive down show ?thesis by (simp add: sync_inv_def)
qed

section \<open>The apply worker\<close>

lemma baseline_free:
  assumes "ApplyIdentitySnapshot jd now (Some snap) s = Inr (x, s')" "snap_Baseline snap" "\<not> snap_Incremental snap" "snap_closed snap"
    "u \<notin> su_ID ` set (snap_Users snap)" "rows_free u s"
  shows "rows_free u s'"
proof -
  from assms(1) obtain s1 where ins: "insert_identities snap (clear_replaced snap (fold revoke_rotated (snap_Tokens snap) s)) = Some s1"
    and s': "s' = finish_snapshot jd now snap s1"
    by (auto simp: ApplyIdentitySnapshot_def split: option.splits)
  let ?s0 = "fold revoke_rotated (snap_Tokens snap) s"
  have cleared: "clear_replaced snap ?s0 = ?s0" using assms(2,3) by (simp add: clear_replaced_def)
  have "rows_free u ?s0" using assms(6) by simp
  then have "rows_free u s1"
    using assms(4,5) insert_identities_SomeD [OF ins [unfolded cleared]]
    by (auto simp: rows_free_def snap_closed_def Let_def image_iff)
  then show ?thesis by (simp add: s')
qed

lemma applied_revision: "ApplyIdentitySnapshot jd now (Some snap) s = Inr (x, s') \<Longrightarrow> lastRevision s' = Some (snap_Revision snap)"
  by (auto simp: ApplyIdentitySnapshot_def finish_snapshot_def reset_notices_def Let_def split: option.splits)

lemma live_reset:
  assumes live: "session_live coll n st ses l s down up" and ok: "session_ok enc n st ses"
    and running: "el_running l = Some (ResetJob sid)"
  shows "session_live coll n st ses (l\<lparr>el_running := None, el_locallyApplied := 0\<rparr>) (DiscardControlIdentityCache s) down
    (up @ [CacheCleared sid])"
proof -
  let ?l = "l\<lparr>el_running := None, el_locallyApplied := 0\<rparr>" and ?s = "DiscardControlIdentityCache s"
  have jobs: "jobs l = ResetJob sid # jobs ?l" using running by (simp add: jobs_def)
  then have resets: "resets l down = sid # resets ?l down" by (simp add: resets_def)
  then have nonempty: "resets l down \<noteq> []" by simp
  note reset = resetting [OF live ok nonempty]
  have old: "distinct (sid # resets ?l down)" "last (sid # resets ?l down) = ns_cacheSessionID ses"
    "CacheCleared (ns_cacheSessionID ses) \<notin> set up" "welcomes down = [] \<longrightarrow> el_cacheSessionID l = ns_cacheSessionID ses"
    "el_identityProtocol l < 3 \<longrightarrow> el_cacheSessionID l = []"
    using live reset(1) unfolding session_live_def reset_ok_def resets by auto
  have ends: "resets ?l down = []" if "sid = ns_cacheSessionID ses"
    using that old(1,2) last_in_set [of "resets ?l down"] by (cases "resets ?l down = []") auto
  have "reset_ok ses ?l ?s down (up @ [CacheCleared sid])"
    using old reset(1) ends by (auto simp: reset_ok_def)
  moreover have "jobs_ok ses ?l ?s (up @ [CacheCleared sid])"
    using reset jobs by (auto simp: jobs_ok_def filter_empty_conv)
  moreover have "ready_ok ses ?l down" using live by (simp add: session_live_def ready_ok_def)
  moreover have "bounds_ok (revision_of st) ?l ?s (up @ [CacheCleared sid])"
    using live by (auto simp: session_live_def bounds_ok_def)
  ultimately show ?thesis using reset by (simp add: session_live_def)
qed

lemma live_snapshot:
  assumes live: "session_live coll n st ses l s down up" and ok: "session_ok enc n st ses" and wf: "edge_wf s"
    and running: "el_running l = Some (SnapshotJob sid r payload)" and dec: "\<And>snap. dec (enc snap) = Some snap"
    and snap: "dec payload = Some snap" and applied: "ApplyIdentitySnapshot jd now (Some snap) s = Inr (x, s')"
  shows "session_live coll n st ses (l\<lparr>el_running := None, el_locallyApplied := r\<rparr>) s' down
    (up @ map (\<lambda>i. IdentityProgress sid r (int i)) [1..<Suc k] @ [IdentityAck sid r])"
proof -
  let ?l = "l\<lparr>el_running := None, el_locallyApplied := r\<rparr>"
  let ?up = "up @ map (\<lambda>i. IdentityProgress sid r (int i)) [1..<Suc k] @ [IdentityAck sid r]"
  have jobs: "jobs l = SnapshotJob sid r payload # jobs ?l" using running by (simp add: jobs_def)
  have old: "ns_pendingIdentity ses \<noteq> None" "sid = ns_cacheSessionID ses" "r = ns_pendingRevision ses" "payload = ns_pendingPayload ses"
    "el_chunkRevision l = ns_pendingRevision ses" "el_chunkIndex l = ns_chunkTotal ses" "\<not> applied_by ses s"
    and others: "filter is_snapshot_job (jobs ?l) = []"
    and acks: "\<And>q. IdentityAck (ns_cacheSessionID ses) q \<in> set up \<Longrightarrow> q \<le> ns_appliedRevision ses"
    using live unfolding session_live_def jobs_ok_def jobs applied_by_def by auto
  then obtain pending where pending: "ns_pendingIdentity ses = Some pending" by blast
  have flight: "flight_ok ses pending" "ns_cacheReady ses" "snap_Revision pending = ns_pendingRevision ses"
    "ns_pendingPayload ses = enc pending" "ns_pendingRevision ses \<le> revision_of st"
    "snap_Baseline pending \<Longrightarrow> \<forall>u \<in> set (touched_users pending). 0 < u"
    using ok pending by (auto simp: session_ok_def)
  have same: "snap = pending" using snap dec old(4) flight(4) by simp
  have view: "view_ok coll n st ses False s" using live flight(2) old(7) by (simp add: session_live_def)
  have rev: "lastRevision s' = Some r" using applied_revision [OF applied] same flight(3) old(3) by simp
  note fl = flight(1) [unfolded flight_ok_def]
  have touched: "set (touched_users snap) = su_ID ` set (snap_Users snap)" if "snap_Baseline snap"
    using fl that same by (auto simp: touched_users_mem)
  have free: "rows_free u s" if "snap_Baseline snap" "u \<in> su_ID ` set (snap_Users snap)" for u
  proof -
    have "u \<in> set (touched_users pending)" "0 < u" using that flight(6) same touched by auto
    with view pending that same show ?thesis by (auto simp: view_ok_def view_of_def touched_by_def under_way_def)
  qed
  have mode: "snap_Incremental snap \<or> snap_Baseline snap \<and> (\<forall>u \<in> su_ID ` set (snap_Users snap). rows_free u s)"
    using fl free same by auto
  have cw: "cache_wf s" "edge_closed s" using wf live by (simp_all add: edge_wf_def session_live_def bounds_ok_def)
  have closed: "snap_closed snap" "snap_NodeAccessEnforced snap" using fl same by simp_all
  note effect = ApplyIdentitySnapshot_identity [OF applied cw closed mode]
  have cached: "edge_identity u s' = (if u \<in> set (touched_users snap) then snapshot_identity u snap else edge_identity u s)" for u
    using effect(3,4) [of u] touched fl same by (cases "snap_Incremental snap") auto
  have "view_ok coll n st ses True s'"
  proof (rule view_apply [OF view flight(1) pending])
    fix u
    show "edge_identity u s' = (if u \<in> set (touched_users pending) then snapshot_identity u pending else edge_identity u s)"
      using cached [of u] same by simp
    assume "snap_Baseline pending" "u \<notin> set (touched_users pending)" "rows_free u s"
    then show "rows_free u s'"
      using baseline_free [OF applied _ _ closed(1)] fl touched same by auto
  qed
  moreover have "applied_by ses s'" using rev old(3) by (simp add: applied_by_def)
  moreover have "reset_ok ses ?l s' down ?up"
    using live flight(2) unfolding session_live_def reset_ok_def resets_def jobs by auto
  moreover have "jobs_ok ses ?l s' ?up"
    using others acks old(1-3,5,6) rev flight(2)
    by (auto simp: jobs_ok_def filter_empty_conv chunks_got_def)
  moreover have "ready_ok ses ?l down" using live by (simp add: session_live_def ready_ok_def)
  moreover have "bounds_ok (revision_of st) ?l s' ?up"
    using live effect(2) rev flight(5) old(3) by (auto simp: session_live_def bounds_ok_def)
  moreover have "transfer_ok ses ?l down ?up"
    using live pending unfolding session_live_def transfer_ok_def chunks_got_def by auto
  ultimately show ?thesis using live pending unfolding session_live_def by simp
qed

lemma sync_work:
  assumes inv: "sync_inv coll enc n y" and dec: "\<And>snap. dec (enc snap) = Some snap"
    and run: "run_job jd now dec k (y_edge y) (y_link y) = Inr (s', l, msgs)"
  shows "sync_inv coll enc n (y\<lparr>y_edge := s', y_link := l, y_up := y_up y @ msgs\<rparr>)"
proof (cases "el_running (y_link y)")
  case None
  with inv run show ?thesis by (auto simp: run_job_def sync_inv_def)
next
  case (Some job)
  have wf: "edge_wf (y_edge y)" using inv by (simp add: sync_inv_def)
  show ?thesis
  proof (cases job)
    case (ResetJob sid)
    with Some run wf inv live_reset [where l = "y_link y" and sid = sid] show ?thesis
      by (auto simp: run_job_def sync_inv_def)
  next
    case (SnapshotJob sid r payload)
    with Some run obtain snap x where job: "dec payload = Some snap" "ApplyIdentitySnapshot jd now (Some snap) (y_edge y) = Inr (x, s')"
      and l: "l = (y_link y)\<lparr>el_running := None, el_locallyApplied := r\<rparr>"
        "msgs = map (\<lambda>i. IdentityProgress sid r (int i)) [1..<Suc k] @ [IdentityAck sid r]"
      by (auto simp: run_job_def simp del: upt_Suc split: option.splits if_splits sum.splits)
    have "edge_wf s'" using edge_wf_exec [OF wf, of jd now "EO_ApplyIdentitySnapshot (Some snap)"] job(2)
      by (simp add: edge_commit_def)
    moreover have "session_live coll n (y_center y) ses l s' (y_down y) (y_up y @ msgs)"
      if "session_live coll n (y_center y) ses (y_link y) (y_edge y) (y_down y) (y_up y)" "session_ok enc n (y_center y) ses" for ses
      using live_snapshot [OF that wf Some [unfolded SnapshotJob] dec job] unfolding l by simp
    ultimately show ?thesis using inv by (simp add: sync_inv_def)
  qed
qed

end
