(* ===== verification/Identity_Safety.thy ===== *)
theory Identity_Safety
  imports Identity_Sync
begin

text \<open>
  The controller's handlers and pushes keep the invariant of the exchange, and what follows for a
  node that believes itself synchronised: its view of a user is the controller's, or the outbox
  still owes it the change.
\<close>

section \<open>Acknowledgements\<close>

text \<open>What a handler does to the controller's side and to a live session.\<close>

definition handled :: "collation \<Rightarrow> json_encoding \<Rightarrow> string \<Rightarrow> Store \<Rightarrow> ctl_outcome \<Rightarrow> bool" where
  "handled coll enc n st out \<longleftrightarrow> out_error out \<noteq> None \<and> out_store out = st \<or>
     outbox_inv coll (out_store out) \<and> registered coll n (out_store out) \<and> session_ok enc n (out_store out) (out_session out)"

lemma sync_handled:
  assumes inv: "sync_inv coll enc n y" and "handled coll enc n (y_center y) out"
    and "y_alive y \<Longrightarrow> out_error out = None \<Longrightarrow>
      session_live coll n (out_store out) (out_session out) (y_link y) (y_edge y) (y_down y @ out_sent out) up"
  shows "sync_inv coll enc n (y\<lparr>y_center := out_store out, y_session := after_accept out, y_down := y_down y @ out_sent out, y_up := up\<rparr>)"
  using assms by (auto simp: sync_inv_def handled_def after_accept_def)

lemma handled_same: "outbox_inv coll st \<Longrightarrow> registered coll n st \<Longrightarrow> session_ok enc n st ses \<Longrightarrow> handled coll enc n st (done_with e st ses ms)"
  by (simp add: handled_def done_with_def)

lemma accept_cleared:
  assumes inv: "outbox_inv coll st" "registered coll n st" and ok: "session_ok enc n st ses"
    and out: "out = acceptCacheCleared coll True sid st ses" and m: "CacheCleared sid \<in> set up"
  shows "handled coll enc n st out"
    and "session_live coll n st ses l s down up \<Longrightarrow>
      session_live coll n (out_store out) (out_session out) l s (down @ out_sent out) (remove1 (CacheCleared sid) up)"
proof -
  have p3: "ns_cacheProtocol ses = 3" "ns_nodeID ses = n" using ok by (simp_all add: session_ok_def)
  let ?live = "\<lambda>o'. session_live coll n st ses l s down up \<longrightarrow>
      session_live coll n (out_store o') (out_session o') l s (down @ out_sent o') (remove1 (CacheCleared sid) up)"
  have idle: "handled coll enc n st (done_with None st ses [])" "?live (done_with None st ses [])"
    using handled_same [OF inv ok] session_live_up_mono [OF _ set_remove1_subset] by (auto simp: done_with_def)
  have "handled coll enc n st out \<and> ?live out"
  proof (cases "sid = ns_cacheSessionID ses \<and> \<not> ns_cacheReady ses")
    case False
    then have "out = done_with None st ses []" using p3 unfolding out acceptCacheCleared_def by auto
    with idle show ?thesis by simp
  next
    case True
    obtain x st' where r: "ResetNodeIdentityCache coll n sid (ns_bootID ses) st = Inr (x, st')"
      by (simp add: ResetNodeIdentityCache_def Let_def)
    let ?ses = "ses\<lparr>ns_cacheReady := True, ns_needsFull := False, ns_baselineActive := True, ns_baselineCursor := 0,
      ns_pendingRevision := 0, ns_appliedRevision := 0, ns_pendingIdentity := None, ns_blockedIPs := []\<rparr>"
    have o': "out = done_with None st' ?ses []" using True p3 r unfolding out acceptCacheCleared_def by simp
    note row = reset_row [OF r]
    have st': "outbox_inv coll st'" using outbox_inv_exec [OF inv(1), of "SO_ResetNodeIdentityCache n sid (ns_bootID ses)"] row(6)
      by (simp add: caller_ok_def)
    have rev: "0 \<le> revision_of st" using inv(1) by (rule revision_nonneg)
    have "registered coll n st'" using inv(2) row(5) by (simp add: registered_def)
    moreover have "session_ok enc n st' ?ses" using ok rev row(3) by (simp add: session_ok_def)
    ultimately have "handled coll enc n st out" using st' by (simp add: handled_def o' done_with_def)
    moreover have "session_live coll n st' ?ses l s down (remove1 (CacheCleared sid) up)" if live: "session_live coll n st ses l s down up"
    proof -
      have none: "ns_pendingIdentity ses = None" using ok True by (auto simp: session_ok_def split: option.splits)
      have old: "resets l down = []" "\<And>u. rows_free u s" "welcomes down = [] \<longrightarrow> el_cacheSessionID l = ns_cacheSessionID ses"
        "el_identityProtocol l < 3 \<longrightarrow> el_cacheSessionID l = []"
        using live True m by (auto simp: session_live_def reset_ok_def)
      have "reset_ok ?ses l s down up" using old by (simp add: reset_ok_def)
      moreover have "jobs_ok ?ses l s up"
        using live True none by (auto simp: session_live_def jobs_ok_def)
      moreover have "ready_ok ?ses l down" using live True by (auto simp: session_live_def ready_ok_def)
      moreover have "bounds_ok (revision_of st') l s up" "filter is_chunk down = []"
        using live none row(3) by (simp_all add: session_live_def)
      moreover have "view_ok coll n st' ?ses (applied_by ?ses s) s"
        using row(1) old(2) by (intro view_start) simp_all
      ultimately have "session_live coll n st' ?ses l s down up"
        using row(4) True by (simp add: session_live_def)
      then show ?thesis by (rule session_live_up_mono) (rule set_remove1_subset)
    qed
    ultimately show ?thesis by (simp add: o' done_with_def)
  qed
  then show "handled coll enc n st out" and "session_live coll n st ses l s down up \<Longrightarrow>
      session_live coll n (out_store out) (out_session out) l s (down @ out_sent out) (remove1 (CacheCleared sid) up)"
    by blast+
qed

lemma accept_ack:
  assumes inv: "outbox_inv coll st" "registered coll n st" and ok: "session_ok enc n st ses"
    and out: "out = confirmIdentity coll t True room sid r st ses" and m: "IdentityAck sid r \<in> set up"
  shows "handled coll enc n st out"
    and "session_live coll n st ses l s down up \<Longrightarrow> out_error out = None \<Longrightarrow>
      session_live coll n (out_store out) (out_session out) l s (down @ out_sent out) (remove1 (IdentityAck sid r) up)"
proof -
  have p3: "ns_cacheProtocol ses = 3" "ns_nodeID ses = n" using ok by (simp_all add: session_ok_def)
  let ?live = "\<lambda>o'. session_live coll n st ses l s down up \<longrightarrow> out_error o' = None \<longrightarrow>
      session_live coll n (out_store o') (out_session o') l s (down @ out_sent o') (remove1 (IdentityAck sid r) up)"
  have idle: "handled coll enc n st (done_with e st ses [])" "?live (done_with e st ses [])" for e
    using handled_same [OF inv ok] session_live_up_mono [OF _ set_remove1_subset] by (auto simp: done_with_def)
  have "handled coll enc n st out \<and> ?live out"
  proof (cases "\<exists>e. out = done_with e st ses []")
    case True
    with idle show ?thesis by auto
  next
    case False
    then obtain snap where new: "sid = ns_cacheSessionID ses" "ns_appliedRevision ses < r" and snap: "ns_pendingIdentity ses = Some snap"
      "snap_Revision snap = r" and all: "ns_chunkIndex ses = ns_chunkTotal ses"
      using p3 unfolding out confirmIdentity_def by (auto split: option.splits if_splits)
    have fl: "flight_ok ses snap" "r = ns_pendingRevision ses" "ns_cacheReady ses" "r \<le> revision_of st"
      "snap_Baseline snap \<Longrightarrow> ns_baselineCursor ses \<le> ns_pendingCursor ses" "0 \<le> ns_baselineCursor ses"
      using ok snap by (auto simp: session_ok_def)
    have full: "(\<not> snap_Incremental snap \<and> \<not> snap_Baseline snap) = False" using fl(1) by (auto simp: flight_ok_def)
    let ?confirm = "ConfirmNodeIdentityCache coll t n sid r (map su_ID (snap_Users snap)) (snap_RemovedUserIDs snap) False st"
    obtain x st' where confirm: "?confirm = Inr (x, st')"
      using False new snap all p3 full unfolding out confirmIdentity_def by (auto split: sum.splits)
    define ses' where "ses' = (let ses1 = ses\<lparr>ns_appliedRevision := r, ns_pendingIdentity := None, ns_pendingPayload := [],
           ns_blockedIPs := confirmed_blocks snap (ns_blockedIPs ses)\<rparr>
         in if snap_Baseline snap then ses1\<lparr>ns_baselineCursor := ns_pendingCursor ses1, ns_baselineActive := \<not> snap_BaselineEnd snap\<rparr> else ses1)"
    let ?msg = "IdentityConfirmed sid r (\<not> snap_Baseline snap \<or> snap_BaselineEnd snap)"
    obtain e msgs where o': "out = done_with e st' ses' msgs" and msgs: "msgs = [] \<or> msgs = [?msg]"
      using confirm new snap all p3 full unfolding out confirmIdentity_def ses'_def by (cases room) (auto simp: Let_def)
    have f: "ns_pendingIdentity ses' = None" "ns_appliedRevision ses' = r" "ns_pendingRevision ses' = r" "ns_cacheReady ses' = ns_cacheReady ses"
      "ns_cacheSessionID ses' = sid" "ns_nodeID ses' = n" "ns_cacheProtocol ses' = 3"
      "ns_baselineActive ses' \<longleftrightarrow> ns_baselineActive ses \<and> \<not> snap_BaselineEnd snap \<and> snap_Baseline snap"
      "ns_baselineCursor ses' = (if snap_Baseline snap then ns_pendingCursor ses else ns_baselineCursor ses)"
      using new p3 fl by (auto simp: ses'_def Let_def flight_ok_def)
    note row = confirm_row [OF confirm inv(1)]
    have "issued r st" using inv(1) fl(4) by (auto simp: issued_def outbox_inv_def store_parts revision_of_def)
    then have st': "outbox_inv coll st'"
      using outbox_inv_exec [OF inv(1), of "SO_ConfirmNodeIdentityCache n sid r (map su_ID (snap_Users snap)) (snap_RemovedUserIDs snap) False" t] row(6)
      by (simp add: caller_ok_def)
    have "registered coll n st'" using inv(2) row(5) by (simp add: registered_def)
    moreover have "session_ok enc n st' ses'"
      using ok fl f row(3) new by (auto simp: session_ok_def)
    ultimately have "handled coll enc n st out" using st' by (simp add: handled_def o' done_with_def)
    moreover have "session_live coll n st' ses' l s (down @ msgs) up" if live: "session_live coll n st ses l s down up"
    proof -
      have acks: "lastRevision s = Some r" using live m new fl(2) by (auto simp: session_live_def jobs_ok_def)
      then have applied: "applied_by ses s" using fl(2) by (simp add: applied_by_def)
      have chunks: "filter is_chunk down = []"
        using live snap all by (auto simp: session_live_def transfer_ok_def filter_empty_conv)
      have w: "welcomes (down @ msgs) = welcomes down" "resets l (down @ msgs) = resets l down" "filter is_chunk (down @ msgs) = []"
        using msgs chunks by (auto simp: welcomes_def resets_def)
      have "reset_ok ses' l s (down @ msgs) up"
        using live new(1) unfolding session_live_def reset_ok_def w f by simp
      moreover have "jobs_ok ses' l s up"
        using live acks fl(2) new f unfolding session_live_def jobs_ok_def by auto
      moreover have "ready_ok ses' l (down @ msgs)"
        using live msgs f new(1) fl(1,3) by (auto simp: session_live_def ready_ok_def flight_ok_def)
      moreover have "bounds_ok (revision_of st') l s up" using live row(3) by (simp add: session_live_def)
      moreover have "view_ok coll n st' ses' (applied_by ses' s) s"
      proof (rule view_confirm [OF _ fl(1) snap(1)])
        show "view_ok coll n st ses True s" using live fl(3) applied by (simp add: session_live_def)
        show "identity_at coll n u st' = identity_at coll n u st" for u using row(2) by simp
        show "covers ses' u = covers ses u" for u
          using f fl(1,5) snap(1) by (auto simp: covers_def flight_ok_def)
        show "row_state coll n u st' = (case row_state coll n u st of None \<Rightarrow> None
            | Some (a, d) \<Rightarrow> if u \<in> set (snap_RemovedUserIDs snap) \<and> d \<le> snap_Revision snap then None
                else if u \<in> set (map su_ID (snap_Users snap)) \<or> u \<in> set (snap_RemovedUserIDs snap) then Some (max a (snap_Revision snap), d)
                else Some (a, d))" for u
          unfolding snap(2) by (rule row(1))
      qed (rule f(1))
      moreover have "session_of coll n (cacheSessions st') = Some (ns_cacheSessionID ses')"
        using live fl(3) new(1) f row(4) by (simp add: session_live_def)
      ultimately show ?thesis using w(3) f(1) by (simp add: session_live_def)
    qed
    ultimately show ?thesis
      using session_live_up_mono [OF _ set_remove1_subset] by (simp add: o' done_with_def)
  qed
  then show "handled coll enc n st out" and "session_live coll n st ses l s down up \<Longrightarrow> out_error out = None \<Longrightarrow>
      session_live coll n (out_store out) (out_session out) l s (down @ out_sent out) (remove1 (IdentityAck sid r) up)"
    by blast+
qed

lemma session_ok_progress:
  "session_ok enc n st ses \<Longrightarrow> session_ok enc n st (ses\<lparr>ns_applyProgress := q\<rparr>)"
  "session_ok enc n st ses \<Longrightarrow> session_ok enc n st (ses\<lparr>ns_chunkIndex := i\<rparr>)"
  by (auto simp: session_ok_def flight_ok_def split: option.splits)

lemma view_progress:
  "view_ok coll n st (ses\<lparr>ns_applyProgress := q\<rparr>) = view_ok coll n st ses"
  "view_ok coll n st (ses\<lparr>ns_chunkIndex := i\<rparr>) = view_ok coll n st ses"
  by (rule view_session_cong; simp)+

lemma live_apply_progress:
  assumes "session_live coll n st ses l s down up"
  shows "session_live coll n st (ses\<lparr>ns_applyProgress := q\<rparr>) l s down up"
proof -
  let ?ses = "ses\<lparr>ns_applyProgress := q\<rparr>"
  have "chunk_message ?ses = chunk_message ses" "chunks_got ?ses l = chunks_got ses l"
    by (simp_all add: chunk_message_def chunk_data_def chunks_got_def)
  then have "reset_ok ?ses l s down up = reset_ok ses l s down up" "jobs_ok ?ses l s up = jobs_ok ses l s up"
    "ready_ok ?ses l down = ready_ok ses l down" "transfer_ok ?ses l down up = transfer_ok ses l down up"
    "applied_by ?ses s = applied_by ses s"
    by (simp_all add: reset_ok_def jobs_ok_def ready_ok_def transfer_ok_def applied_by_def)
  with assms show ?thesis by (simp add: session_live_def view_progress)
qed

text \<open>An acknowledged fragment makes the next one due.\<close>

lemma live_chunk_ack:
  assumes live: "session_live coll n st ses l s down up" and pending: "ns_pendingIdentity ses \<noteq> None"
    and ack: "IdentityChunkAck (ns_cacheSessionID ses) (ns_pendingRevision ses) (int (ns_chunkIndex ses)) \<in> set up"
    and ses': "ses' = ses\<lparr>ns_chunkIndex := Suc (ns_chunkIndex ses)\<rparr>"
    and msgs: "msgs = [] \<or> msgs = [chunk_message ses'] \<and> ns_chunkIndex ses' < ns_chunkTotal ses'"
  shows "session_live coll n st ses' l s (down @ msgs) up"
proof -
  have tr: "transfer_ok ses l down up" using live pending by (simp add: session_live_def)
  have got: "chunks_got ses' l = chunks_got ses l" by (simp add: chunks_got_def ses')
  have at: "chunks_got ses l = Suc (ns_chunkIndex ses)" using tr ack by (force simp: transfer_ok_def)
  then have chunks: "filter is_chunk down = []" using tr by (auto simp: transfer_ok_def filter_empty_conv)
  have w: "welcomes (down @ msgs) = welcomes down" "resets l (down @ msgs) = resets l down"
    using msgs by (auto simp: welcomes_def resets_def chunk_message_def)
  have "transfer_ok ses' l (down @ msgs) up"
    using tr chunks msgs at unfolding transfer_ok_def got
    by (auto simp: ses' filter_empty_conv chunk_message_def)
  moreover have "reset_ok ses' l s (down @ msgs) up"
    using live unfolding session_live_def reset_ok_def w ses' by simp
  moreover have "jobs_ok ses' l s up" using live unfolding session_live_def jobs_ok_def got by (simp add: ses')
  moreover have "ready_ok ses' l (down @ msgs)"
    using live msgs by (auto simp: session_live_def ready_ok_def ses' chunk_message_def)
  moreover have "applied_by ses' s = applied_by ses s" by (simp add: applied_by_def ses')
  ultimately show ?thesis using live pending unfolding session_live_def ses' view_progress by auto
qed

text \<open>What a progress report may do: nothing, note the progress, or move on to the next fragment.\<close>

lemma progress_outcome:
  assumes out: "out = acceptIdentityProgress True room m st ses" and p3: "ns_cacheProtocol ses = 3"
  obtains e where "out = done_with e st ses []"
    | q where "out = done_with None st (ses\<lparr>ns_applyProgress := q\<rparr>) []"
    | e msgs where "out = done_with e st (ses\<lparr>ns_chunkIndex := Suc (ns_chunkIndex ses)\<rparr>) msgs"
        "msgs = [] \<or> msgs = [chunk_message (ses\<lparr>ns_chunkIndex := Suc (ns_chunkIndex ses)\<rparr>)] \<and> Suc (ns_chunkIndex ses) < ns_chunkTotal ses"
        "ns_pendingIdentity ses \<noteq> None" "m = IdentityChunkAck (ns_cacheSessionID ses) (ns_pendingRevision ses) (int (ns_chunkIndex ses))"
proof -
  let ?ses = "ses\<lparr>ns_chunkIndex := Suc (ns_chunkIndex ses)\<rparr>"
  let ?due = "ns_pendingIdentity ses \<noteq> None \<and> m = IdentityChunkAck (ns_cacheSessionID ses) (ns_pendingRevision ses) (int (ns_chunkIndex ses))"
  define P where "P o' \<longleftrightarrow> (\<exists>e. o' = done_with e st ses []) \<or> (\<exists>q. o' = done_with None st (ses\<lparr>ns_applyProgress := q\<rparr>) []) \<or>
      (\<exists>e msgs. o' = done_with e st ?ses msgs \<and> (msgs = [] \<or> msgs = [chunk_message ?ses] \<and> Suc (ns_chunkIndex ses) < ns_chunkTotal ses) \<and> ?due)" for o'
  have P: "P (done_with e st ses [])" "P (done_with None st (ses\<lparr>ns_applyProgress := q\<rparr>) [])"
    "?due \<Longrightarrow> P (done_with e st ?ses [])"
    "?due \<Longrightarrow> Suc (ns_chunkIndex ses) < ns_chunkTotal ses \<Longrightarrow> P (done_with e st ?ses [chunk_message ?ses])" for e q
    unfolding P_def by blast+
  have "P out"
  proof (cases m)
    case (IdentityChunkAck sid r q)
    show ?thesis unfolding out unfolding acceptIdentityProgress_def IdentityChunkAck
      by (simp add: P(1) Let_def sendIdentityChunkLocked_def) (auto intro!: P(3,4) simp: IdentityChunkAck)
  qed (simp_all add: out acceptIdentityProgress_def P(1,2))
  then show thesis unfolding P_def using that by blast
qed

lemma accept_progress:
  assumes inv: "outbox_inv coll st" "registered coll n st" and ok: "session_ok enc n st ses"
    and out: "out = acceptIdentityProgress True room m st ses" and m: "m \<in> set up"
  shows "handled coll enc n st out"
    and "session_live coll n st ses l s down up \<Longrightarrow> out_error out = None \<Longrightarrow>
      session_live coll n (out_store out) (out_session out) l s (down @ out_sent out) (remove1 m up)"
proof -
  have p3: "ns_cacheProtocol ses = 3" using ok by (simp add: session_ok_def)
  have shrink: "session_live coll n st ses' l s down' up \<Longrightarrow> session_live coll n st ses' l s down' (remove1 m up)" for ses' down'
    by (erule session_live_up_mono) (rule set_remove1_subset)
  consider e where "out = done_with e st ses []"
    | q where "out = done_with None st (ses\<lparr>ns_applyProgress := q\<rparr>) []"
    | e msgs where "out = done_with e st (ses\<lparr>ns_chunkIndex := Suc (ns_chunkIndex ses)\<rparr>) msgs"
        "msgs = [] \<or> msgs = [chunk_message (ses\<lparr>ns_chunkIndex := Suc (ns_chunkIndex ses)\<rparr>)] \<and> Suc (ns_chunkIndex ses) < ns_chunkTotal ses"
        "ns_pendingIdentity ses \<noteq> None" "m = IdentityChunkAck (ns_cacheSessionID ses) (ns_pendingRevision ses) (int (ns_chunkIndex ses))"
    by (rule progress_outcome [OF out p3]) blast+
  then have "handled coll enc n st out \<and> (session_live coll n st ses l s down up \<longrightarrow> out_error out = None \<longrightarrow>
      session_live coll n (out_store out) (out_session out) l s (down @ out_sent out) (remove1 m up))"
  proof cases
    case 1
    then show ?thesis using handled_same [OF inv ok] shrink by (simp add: done_with_def)
  next
    case 2
    then show ?thesis
      using handled_same [OF inv session_ok_progress(1) [OF ok]] shrink live_apply_progress by (simp add: done_with_def)
  next
    case 3
    then show ?thesis
      using handled_same [OF inv session_ok_progress(2) [OF ok]] m
        shrink [OF live_chunk_ack [of coll n st ses l s down up, OF _ 3(3) _ refl]] by (auto simp: done_with_def)
  qed
  then show "handled coll enc n st out" and "session_live coll n st ses l s down up \<Longrightarrow> out_error out = None \<Longrightarrow>
      session_live coll n (out_store out) (out_session out) l s (down @ out_sent out) (remove1 m up)"
    by blast+
qed

lemma sync_accept:
  assumes inv: "sync_inv coll enc n y" and ses: "y_session y = Some ses" and m: "m \<in> set (y_up y)"
    and out: "out = accept_message coll t room m (y_center y) ses"
  shows "sync_inv coll enc n (y\<lparr>y_center := out_store out, y_session := after_accept out, y_down := y_down y @ out_sent out,
    y_up := remove1 m (y_up y)\<rparr>)"
proof -
  have st: "outbox_inv coll (y_center y)" "registered coll n (y_center y)" "session_ok enc n (y_center y) ses"
    using inv ses by (simp_all add: sync_inv_def)
  have live: "y_alive y \<Longrightarrow> session_live coll n (y_center y) ses (y_link y) (y_edge y) (y_down y) (y_up y)"
    using inv ses by (simp add: sync_inv_def)
  have other: "?thesis" if "out = acceptIdentityProgress True room m (y_center y) ses"
    using accept_progress [OF st that m] live by (intro sync_handled [OF inv]) blast+
  show ?thesis
  proof (cases m)
    case (CacheCleared sid)
    have o': "out = acceptCacheCleared coll True sid (y_center y) ses" by (simp add: out accept_message_def CacheCleared)
    show ?thesis using accept_cleared [OF st o' m [unfolded CacheCleared]] live unfolding CacheCleared
      by (intro sync_handled [OF inv]) blast+
  next
    case (IdentityAck sid r)
    have o': "out = confirmIdentity coll t True room sid r (y_center y) ses" by (simp add: out accept_message_def IdentityAck)
    show ?thesis using accept_ack [OF st o' m [unfolded IdentityAck]] live unfolding IdentityAck
      by (intro sync_handled [OF inv]) blast+
  qed (rule other; simp add: out accept_message_def)+
qed

section \<open>Pushes\<close>

lemma sync_pushed:
  assumes inv: "sync_inv coll enc n y" and "outbox_inv coll (out_store out)" "registered coll n (out_store out)"
    and "session_ok enc n (out_store out) (out_session out)"
    and "y_alive y \<Longrightarrow> after_push ses out \<noteq> None \<Longrightarrow>
      session_live coll n (out_store out) (out_session out) (y_link y) (y_edge y) (y_down y @ out_sent out) (y_up y)"
  shows "sync_inv coll enc n (y\<lparr>y_center := out_store out, y_session := after_push ses out, y_down := y_down y @ out_sent out\<rparr>)"
  using assms by (auto simp: sync_inv_def after_push_def split: if_splits)

lemma issue_evolves:
  assumes "outbox_inv coll st"
  shows "evolves coll n st (issued_store st)" "outbox_inv coll (issued_store st)"
  using evolves_other [OF assms, of SO_NextIdentityRevision n] outbox_inv_exec [OF assms, of SO_NextIdentityRevision]
  by (simp_all add: caller_ok_def other_node_def)

text \<open>A session without a snapshot under way may forget where its next page would end.\<close>

lemma idle_session:
  assumes none: "ns_pendingIdentity ses = None" and ses': "ses' = ses\<lparr>ns_needsBlockedIPs := b, ns_pendingCursor := c\<rparr>"
  shows "session_ok enc n st ses' = session_ok enc n st ses" "session_live coll n st ses' l s down up = session_live coll n st ses l s down up"
proof -
  show "session_ok enc n st ses' = session_ok enc n st ses" using none by (simp add: session_ok_def ses')
  have "view_ok coll n st ses' = view_ok coll n st ses" by (rule view_session_cong) (use none in \<open>simp_all add: ses'\<close>)
  then show "session_live coll n st ses' l s down up = session_live coll n st ses l s down up"
    using none by (simp add: session_live_def reset_ok_def jobs_ok_def ready_ok_def applied_by_def chunks_got_def ses')
qed

lemma live_request_reset:
  assumes live: "session_live coll n st ses l s down up" and none: "ns_pendingIdentity ses = None"
    and fresh: "sid \<noteq> []" "sid \<notin> message_sid ` set (down @ up)" "sid \<notin> job_sid ` set (jobs l)" "sid \<noteq> el_cacheSessionID l"
    and ses': "ses' = ses\<lparr>ns_cacheSessionID := sid, ns_cacheReady := False, ns_needsFull := False\<rparr>"
  shows "session_live coll n st ses' l s (down @ [Welcome sid]) up"
proof -
  have w: "welcomes (down @ [Welcome sid]) = welcomes down @ [sid]" "resets l (down @ [Welcome sid]) = resets l down @ [sid]"
    by (simp_all add: welcomes_def resets_def)
  have up: "CacheCleared sid \<notin> set up" "\<And>r. IdentityAck sid r \<notin> set up" "\<And>r c. IdentityConfirmed sid r c \<notin> set down"
    using fresh(2) by (force simp: image_iff)+
  have "sid \<notin> set (welcomes down)"
  proof
    assume "sid \<in> set (welcomes down)"
    then obtain m where "m \<in> set down" "sid \<in> set (welcome_of m)" by (auto simp: welcomes_def)
    then have "message_sid m = sid" by (cases m rule: Message.exhaust) auto
    with \<open>m \<in> set down\<close> fresh(2) show False by auto
  qed
  moreover have "sid \<notin> set (concat (map reset_of (jobs l)))"
  proof
    assume "sid \<in> set (concat (map reset_of (jobs l)))"
    then obtain j where "j \<in> set (jobs l)" "sid \<in> set (reset_of j)" by auto
    then have "job_sid j = sid" by (cases j rule: apply_job.exhaust) auto
    with \<open>j \<in> set (jobs l)\<close> fresh(3) show False by auto
  qed
  ultimately have new: "sid \<notin> set (resets l down)" by (simp add: resets_def)
  have "reset_ok ses' l s (down @ [Welcome sid]) up"
    using live new up(1) unfolding session_live_def reset_ok_def w by (simp add: ses')
  moreover have "jobs_ok ses' l s up" using live none up(2) by (auto simp: session_live_def jobs_ok_def ses')
  moreover have "ready_ok ses' l (down @ [Welcome sid])" using up(3) fresh(4) by (simp add: ready_ok_def ses')
  ultimately show ?thesis using live none by (simp add: session_live_def ses')
qed

lemma push_snapshot:
  assumes inv: "outbox_inv coll st" "registered coll n st" and ok: "session_ok enc n st ses"
    and none: "ns_pendingIdentity ses = None" and enc: "\<And>snap. enc snap \<noteq> []" and push: "snapshot_push coll enc st ses out"
  shows "outbox_inv coll (out_store out)" "registered coll n (out_store out)" "session_ok enc n (out_store out) (out_session out)"
    and "session_live coll n st ses l s down up \<Longrightarrow>
      session_live coll n (out_store out) (out_session out) l s (down @ out_sent out) up"
proof -
  let ?st = "issued_store st"
  have ses: "ns_nodeID ses = n" "0 \<le> ns_baselineCursor ses" "ns_appliedRevision ses \<le> revision_of st" using ok by (simp_all add: session_ok_def)
  obtain snap x b c where ready: "ns_cacheReady ses" and fresh: "fresh_snapshot coll n st ses c snap"
    and rev: "snap_Revision snap = revision_of st + 1"
    and prep: "PrepareNodeIdentityCache coll n (ns_cacheSessionID ses) (snap_Revision snap) (touched_users snap) ?st = Inr (x, out_store out)"
    and ses': "out_session out = send_state enc snap (ses\<lparr>ns_needsBlockedIPs := b, ns_pendingCursor := c\<rparr>)"
    and sent: "out_sent out = [] \<or> out_sent out = [chunk_message (out_session out)]"
    using push ses(1) by (auto simp: snapshot_push_def)
  define new where "new = out_session out"
  have f: "ns_pendingIdentity new = Some snap" "ns_pendingRevision new = snap_Revision snap" "ns_pendingPayload new = enc snap"
    "ns_chunkIndex new = 0" "ns_chunkTotal new = (length (enc snap) + identityChunkBytes - 1) div identityChunkBytes"
    "ns_pendingCursor new = c" "ns_cacheReady new" "ns_cacheSessionID new = ns_cacheSessionID ses" "ns_nodeID new = n"
    "ns_cacheProtocol new = ns_cacheProtocol ses" "ns_baselineActive new = ns_baselineActive ses"
    "ns_baselineCursor new = ns_baselineCursor ses" "ns_appliedRevision new = ns_appliedRevision ses"
    using ready ses(1) by (simp_all add: new_def ses' send_state_def)
  have flight: "flight_ok new snap" using fresh f by (simp add: fresh_snapshot_def flight_ok_def)
  have total: "0 < ns_chunkTotal new"
    using enc [of snap] by (simp add: f(5) identityChunkBytes_def div_greater_zero_iff Suc_le_eq)
  note issue = issue_evolves(1) [OF inv(1), of n] issue_evolves(2) [OF inv(1)]
  have rev1: "revision_of ?st = revision_of st + 1" using next_revision [OF inv(1)] by blast
  note row = prepare_row [OF prep]
  have same: "nextUserID ?st = nextUserID st" by (auto simp: commit_def NextIdentityRevision_def split: option.splits sum.splits)
  have "issued (snap_Revision snap) ?st"
    using issue(2) rev rev1 by (auto simp: issued_def outbox_inv_def store_parts revision_of_def)
  then have ok_op: "caller_ok (SO_PrepareNodeIdentityCache n (ns_cacheSessionID ses) (snap_Revision snap) (touched_users snap)) ?st"
    using fresh same by (auto simp: caller_ok_def fresh_snapshot_def)
  show st': "outbox_inv coll (out_store out)" using outbox_inv_exec [OF issue(2) ok_op] row(6) by simp
  show "registered coll n (out_store out)" using inv(2) issue(1) row(5) by (simp add: registered_def evolves_def)
  have pos: "0 < u" if "snap_Baseline snap" "u \<in> set (touched_users snap)" for u
    using fresh that ses(2) by (force simp: fresh_snapshot_def)
  show "session_ok enc n (out_store out) (out_session out)"
    unfolding new_def [symmetric]
    using ok f flight rev rev1 row(3) ses fresh pos by (auto simp: session_ok_def fresh_snapshot_def)
  assume live: "session_live coll n st ses l s down up"
  have bounds: "bounds_ok (revision_of st) l s up" using live by (simp add: session_live_def)
  have old: "chunks_got new l = 0" "lastRevision s \<noteq> Some (snap_Revision snap)"
    using bounds rev by (auto simp: chunks_got_def f bounds_ok_def split: option.splits)
  have chunks: "filter is_chunk down = []" using live none by (simp add: session_live_def)
  have w: "welcomes (down @ out_sent out) = welcomes down" "resets l (down @ out_sent out) = resets l down"
    using sent by (auto simp: welcomes_def resets_def chunk_message_def)
  have "reset_ok new l s (down @ out_sent out) up" using live ready unfolding session_live_def reset_ok_def w f(8) by (simp add: f)
  moreover have "jobs_ok new l s up"
    using live none old unfolding session_live_def jobs_ok_def f(8) by (auto simp: f)
  moreover have "ready_ok new l (down @ out_sent out)"
    using live sent by (auto simp: session_live_def ready_ok_def f chunk_message_def)
  moreover have "bounds_ok (revision_of (out_store out)) l s up"
    by (rule bounds_ok_mono [OF bounds]) (simp add: row(3) rev1)
  moreover have "transfer_ok new l (down @ out_sent out) up"
  proof -
    have "el_chunkRevision l \<noteq> snap_Revision snap" using bounds rev by (auto simp: bounds_ok_def)
    moreover have "IdentityChunkAck sid (snap_Revision snap) q \<notin> set up" for sid q
      using bounds rev by (force simp: bounds_ok_def)
    ultimately show ?thesis
      using chunks sent [folded new_def] total old(1) by (auto simp: transfer_ok_def f(2,4,8) filter_empty_conv)
  qed
  moreover have "session_of coll n (cacheSessions (out_store out)) = Some (ns_cacheSessionID ses)"
    using live ready issue(1) row(4) by (simp add: session_live_def evolves_def)
  moreover have "view_ok coll n (out_store out) new False s"
  proof -
    have at: "identity_at coll n u ?st = identity_at coll n u st" for u
      by (rule identity_at_same) (auto simp: commit_def NextIdentityRevision_def split: option.splits sum.splits)
    have rows: "row_state coll n u ?st = row_state coll n u st" for u
      by (auto simp: row_state_def commit_def NextIdentityRevision_def split: option.splits sum.splits)
    have "view_ok coll n st ses (applied_by ses s) s" using live ready by (simp add: session_live_def)
    then show ?thesis
    proof (rule view_push [OF _ none inv(1) flight f(1) _ f(11,12)])
      fix u
      show "row_state coll n u (out_store out) = (if u \<in> set (touched_users snap)
          then Some (case row_state coll n u st of None \<Rightarrow> (0, snap_Revision snap) | Some (a, d) \<Rightarrow> (a, max d (snap_Revision snap)))
          else row_state coll n u st)"
        using row(1) [of u] rows [of u] by simp
      show "identity_at coll n u (out_store out) = identity_at coll n u st" using row(2) at by simp
    qed (use fresh rev f(6) in \<open>auto simp: fresh_snapshot_def\<close>)
  qed
  moreover have "\<not> applied_by new s" using old(2) by (simp add: applied_by_def f)
  ultimately show "session_live coll n (out_store out) (out_session out) l s (down @ out_sent out) up"
    unfolding new_def [symmetric] session_live_def by (simp add: f(1,8))
qed

lemma sync_push:
  assumes inv: "sync_inv coll enc n y" and enc: "\<And>snap. enc snap \<noteq> []" and ses: "y_session y = Some ses" and fresh: "fresh_id sid y"
    and out: "out = pushNodeIdentity coll enc dbu True room sid blocks (y_center y) ses"
  shows "sync_inv coll enc n (y\<lparr>y_center := out_store out, y_session := after_push ses out, y_down := y_down y @ out_sent out\<rparr>)"
proof -
  let ?st = "y_center y"
  have st: "outbox_inv coll ?st" "registered coll n ?st" and ok: "session_ok enc n ?st ses"
    and live: "y_alive y \<Longrightarrow> session_live coll n ?st ses (y_link y) (y_edge y) (y_down y) (y_up y)"
    using inv ses by (simp_all add: sync_inv_def)
  have p3: "ns_cacheProtocol ses = 3" using ok by (simp add: session_ok_def)
  show ?thesis
  proof (cases "ns_pendingRevision ses \<le> ns_appliedRevision ses")
    case False
    then have "out = done_with None ?st ses []" by (simp add: out pushNodeIdentity_def Let_def)
    then show ?thesis using st ok live by (intro sync_pushed [OF inv]) (simp_all add: done_with_def)
  next
    case True
    then have none: "ns_pendingIdentity ses = None" using ok by (auto simp: session_ok_def split: option.splits)
    from push_outcome [OF st(1) p3 out] show ?thesis
    proof (elim disjE conjE)
      assume "idle_push ?st ses out"
      then obtain b c where o': "out_sent out = []" "out_store out \<in> {?st, issued_store ?st}"
        and ses': "out_session out = ses\<lparr>ns_needsBlockedIPs := b, ns_pendingCursor := c\<rparr>"
        by (auto simp: idle_push_def)
      have ev: "evolves coll n ?st (out_store out)" "outbox_inv coll (out_store out)"
        using o'(2) issue_evolves [OF st(1)] st(1) by (auto intro: evolves_same_rows)
      have "registered coll n (out_store out)" using ev(1) st(2) by (simp add: evolves_def registered_def)
      moreover have "session_ok enc n (out_store out) ses" using session_ok_mono [OF ok] ev(1) by (simp add: evolves_def)
      ultimately show ?thesis
        using ev live session_live_evolves [OF _ ok ev(1)] idle_session [OF none ses'] o'(1)
        by (intro sync_pushed [OF inv]) simp_all
    next
      assume r: "reset_push sid ?st ses out"
      then have o': "out_store out = ?st"
        and ses': "out_session out = ses\<lparr>ns_cacheSessionID := sid, ns_cacheReady := False, ns_needsFull := False\<rparr>"
        by (simp_all add: reset_push_def)
      have "session_ok enc n ?st (out_session out)"
        using ok none fresh by (simp add: session_ok_def ses' fresh_id_def)
      moreover have "session_live coll n ?st (out_session out) (y_link y) (y_edge y) (y_down y @ out_sent out) (y_up y)"
        if alive: "y_alive y" "after_push ses out \<noteq> None"
      proof -
        have "sid \<noteq> ns_cacheSessionID ses"
        proof (cases "welcomes (y_down y) = []")
          case True
          then show ?thesis using live [OF alive(1)] fresh by (auto simp: session_live_def reset_ok_def fresh_id_def)
        next
          case False
          then have "last (welcomes (y_down y)) = ns_cacheSessionID ses"
            using live [OF alive(1)] by (auto simp: session_live_def reset_ok_def resets_def)
          then have "ns_cacheSessionID ses \<in> set (welcomes (y_down y))" using last_in_set [OF False] by simp
          then obtain m where "m \<in> set (y_down y)" "ns_cacheSessionID ses \<in> set (welcome_of m)" by (auto simp: welcomes_def)
          then have "ns_cacheSessionID ses \<in> message_sid ` set (y_down y)"
            by (cases m rule: Message.exhaust) (auto simp: image_iff intro!: bexI [of _ m])
          then show ?thesis using fresh by (auto simp: fresh_id_def)
        qed
        then have "out_sent out = [Welcome sid]" using r alive(2) by (auto simp: reset_push_def after_push_def ses' split: if_splits)
        then show ?thesis
          using live_request_reset [OF live [OF alive(1)] none _ _ _ _ ses'] fresh by (simp add: fresh_id_def)
      qed
      ultimately show ?thesis using st by (intro sync_pushed [OF inv]) (simp_all add: o')
    next
      assume "snapshot_push coll enc ?st ses out"
      from push_snapshot [OF st ok none enc this] live show ?thesis by (intro sync_pushed [OF inv]) simp_all
    qed
  qed
qed

lemma sync_inv_step:
  assumes step: "sync_step coll jd enc dec n y y'" and inv: "sync_inv coll enc n y"
    and json: "\<And>snap. dec (enc snap) = Some snap" "\<And>snap. enc snap \<noteq> []"
  shows "sync_inv coll enc n y'"
  using step
proof cases
  case (change op t)
  with inv show ?thesis by (simp add: sync_change)
next
  case (stale_prepare sid r us t)
  show ?thesis unfolding stale_prepare(1) by (rule sync_stale [OF inv stale_prepare(2,3)])
next
  case (push ses sid out dbu room blocks)
  show ?thesis unfolding push(1) by (rule sync_push [OF inv json(2) push(2-4)])
next
  case (deliver m rest l answers)
  show ?thesis unfolding deliver(1) by (rule sync_deliver [OF inv deliver(2-4)])
next
  case (work now k s' l msgs)
  show ?thesis unfolding work(1) by (rule sync_work [OF inv json(1) work(3)])
next
  case (accept ses m out t room)
  show ?thesis unfolding accept(1) by (rule sync_accept [OF inv accept(2-4)])
qed (use inv sync_schedule sync_local sync_connect sync_drop sync_close sync_fault sync_take sync_lose in simp_all)

lemma sync_inv_init: "sync_init coll n y \<Longrightarrow> sync_inv coll enc n y"
  using outbox.inv_init edge.inv_init by (simp add: sync_inv_def sync_init_def)

lemma sync_reach_inv:
  assumes "reach (sync_init coll n) (sync_step coll jd enc dec n) y"
    and "\<And>snap. dec (enc snap) = Some snap" "\<And>snap. enc snap \<noteq> []"
  shows "sync_inv coll enc n y"
  using assms(1) by (induction rule: reach.induct) (auto intro: sync_inv_init sync_inv_step [OF _ _ assms(2,3)])

text \<open>The node is ready in the epoch of the session the controller holds for it.\<close>

definition in_epoch :: "IdSync \<Rightarrow> bool" where
  "in_epoch y \<longleftrightarrow> y_alive y \<and> el_syncReady (y_link y) \<and>
     (\<exists>ses. y_session y = Some ses \<and> el_cacheSessionID (y_link y) = ns_cacheSessionID ses)"

lemma in_epoch_view:
  assumes "sync_inv coll enc n y" "in_epoch y" "0 < u"
  shows "edge_identity u (y_edge y) = identity_at coll n u (y_center y) \<or>
    (\<exists>a d. row_state coll n u (y_center y) = Some (a, d) \<and> a < d)"
proof -
  obtain ses where ses: "y_session y = Some ses" "y_alive y" "el_syncReady (y_link y)"
    "el_cacheSessionID (y_link y) = ns_cacheSessionID ses"
    using assms(2) by (auto simp: in_epoch_def)
  then have live: "session_live coll n (y_center y) ses (y_link y) (y_edge y) (y_down y) (y_up y)"
    using assms(1) by (simp add: sync_inv_def)
  then have "ns_cacheReady ses" "\<not> ns_baselineActive ses" using ses by (auto simp: session_live_def ready_ok_def)
  then have "covers ses u" "view_ok coll n (y_center y) ses (applied_by ses (y_edge y)) (y_edge y)"
    using live by (simp_all add: covers_def session_live_def)
  then show ?thesis using view_owed assms(3) unfolding view_ok_def by blast
qed

lemma in_epoch_pending:
  assumes inv: "sync_inv coll enc n y" and epoch: "in_epoch y"
    and idle: "PendingNodeIdentityUsers coll n (el_cacheSessionID (y_link y)) (y_center y) = []" and u: "0 < u"
  shows "edge_identity u (y_edge y) = identity_at coll n u (y_center y)"
proof (rule ccontr)
  assume "edge_identity u (y_edge y) \<noteq> identity_at coll n u (y_center y)"
  then obtain a d where row: "row_state coll n u (y_center y) = Some (a, d)" "a < d" using in_epoch_view [OF inv epoch u] by blast
  then obtain c where "cache_row coll u n (y_center y) = Some c" "cache_Applied c < cache_Desired c" by (auto simp: row_state_cache)
  then have owed: "owed coll u n (cache_Desired c) (userNodeCache (y_center y))"
    by (auto simp: cache_row_def owed_def owes_def dest!: find_Some_iff')
  obtain ses where ses: "y_session y = Some ses" "y_alive y" "el_syncReady (y_link y)"
    "el_cacheSessionID (y_link y) = ns_cacheSessionID ses"
    using epoch by (auto simp: in_epoch_def)
  then have "session_live coll n (y_center y) ses (y_link y) (y_edge y) (y_down y) (y_up y)" "outbox_inv coll (y_center y)"
    using inv by (simp_all add: sync_inv_def)
  then have "session_of coll n (cacheSessions (y_center y)) = Some (ns_cacheSessionID ses)" "outbox_inv coll (y_center y)"
    using ses by (auto simp: session_live_def ready_ok_def)
  then show False
    using owed_pending [OF _ owed, of "el_cacheSessionID (y_link y)"] idle ses(4) by (simp add: current_session_def)
qed

end
