(* ===== verification/Identity_Progress.thy ===== *)
theory Identity_Progress
  imports Identity_Safety
begin

text \<open>
  The exchange makes progress: from every state the system can be in, a reconnection and the pages
  of a baseline bring the node to the controller's identities. Each step of that run is shown to be
  enabled; what it does to the view is the business of the invariant.
\<close>

section \<open>A baseline page fits the cache\<close>

lemma insert_rows_fits:
  assumes "\<And>r x. r \<in> set rs \<Longrightarrow> x \<in> set table \<Longrightarrow> \<not> clash r x" "sorted_wrt (\<lambda>x r. \<not> clash r x) rs"
  shows "insert_rows clash rs table \<noteq> None"
  using assms
proof (induction rs arbitrary: table)
  case (Cons r rs)
  have "insert_rows clash rs (table @ [r]) \<noteq> None" using Cons.prems by (intro Cons.IH) auto
  with Cons.prems show ?case by (auto simp: list_ex_iff)
qed simp

text \<open>The cached rows of a user are rows of the controller.\<close>

definition mirrored :: "collation \<Rightarrow> string \<Rightarrow> Store \<Rightarrow> int \<Rightarrow> EdgeStore \<Rightarrow> bool" where
  "mirrored coll n st cursor s \<longleftrightarrow>
     (\<forall>u. rows_free u s \<or> u \<le> cursor \<and> edge_identity u s = identity_at coll n u st)"

lemma mirrored_identity:
  assumes "mirrored coll n st cursor s" "\<not> rows_free u s"
  shows "u \<le> cursor" "edge_identity u s \<in> {identity_data u st, no_identity}"
  using assms unfolding mirrored_def identity_at_def by (blast, metis insertCI)

lemma mirrored_token:
  assumes mir: "mirrored coll n st cursor s" and t: "t \<in> set (cachedTokens s)"
  obtains x where "x \<in> set (accessTokens st)" "token_ID x = sn_ID t" "token_TokenHash x = sn_TokenHash t"
    "token_UserID x \<le> cursor"
proof -
  have "\<not> rows_free (sn_UserID t) s" using t by (auto simp: rows_free_def)
  note u = mirrored_identity [OF mir this]
  have "access_token_of t \<in> set (ident_Tokens (edge_identity (sn_UserID t) s))"
    using t by (simp add: edge_identity_def rows_identity_def Let_def)
  with u(2) have "access_token_of t \<in> set (tokens_of [sn_UserID t] st)"
    by (auto simp: identity_data_def no_identity_def)
  then obtain x where x: "x \<in> set (accessTokens st)" "access_token_of t = token_view x" by (auto simp: tokens_of_def)
  have "token_ID (token_view x) = sn_ID t" "token_TokenHash (token_view x) = sn_TokenHash t" "token_UserID (token_view x) = sn_UserID t"
    by (simp_all only: x(2) [symmetric]) (simp_all add: access_token_of_def)
  then have "token_ID x = sn_ID t" "token_TokenHash x = sn_TokenHash t" "token_UserID x = sn_UserID t" by (simp_all add: token_view_def)
  then show thesis using that [OF x(1)] u(1) by simp
qed

lemma mirrored_grant:
  assumes mir: "mirrored coll n st cursor s" and closed: "edge_closed s" and g: "g \<in> set (cachedGrants s)"
  obtains x where "g \<in> set (portGrants st)" "x \<in> set (accessTokens st)" "token_ID x = grant_TokenID g" "token_UserID x \<le> cursor"
proof -
  obtain t where t: "t \<in> set (cachedTokens s)" "sn_ID t = grant_TokenID g" using g closed by (auto simp: edge_closed_def)
  have "\<not> rows_free (sn_UserID t) s" using t by (auto simp: rows_free_def)
  note u = mirrored_identity [OF mir this]
  have "g \<in> set (ident_Grants (edge_identity (sn_UserID t) s))"
    using t g by (auto simp: edge_identity_def rows_identity_def Let_def image_iff)
  with u(2) have "g \<in> set (grants_of [sn_UserID t] st)" by (auto simp: identity_data_def no_identity_def)
  then have "g \<in> set (portGrants st)" by (simp add: grants_of_def)
  with t show thesis using that by (auto intro: mirrored_token [OF mir t(1)])
qed

lemma sorted_wrt_keyed:
  assumes "distinct (map f rs)" "\<And>x y. x \<in> set rs \<Longrightarrow> y \<in> set rs \<Longrightarrow> clash x y \<Longrightarrow> f x = f y"
  shows "sorted_wrt (\<lambda>x r. \<not> clash r x) rs"
  using assms by (induction rs) (force simp: image_iff)+

lemma keyed_same: "keyed f rows \<Longrightarrow> x \<in> set rows \<Longrightarrow> y \<in> set rows \<Longrightarrow> f x = f y \<Longrightarrow> x = y"
  by (auto simp: keyed_def distinct_map inj_on_def)

lemma distinct_selected:
  "distinct (map f rows) \<Longrightarrow> distinct (map f (sort_key g (filter P rows)))"
  by (auto simp: distinct_map inj_on_def)

lemma baseline_insert:
  assumes inv: "store_inv coll st" and page: "ReadNodeIdentityPage coll n cursor None 64 st = Some p"
    and mir: "mirrored coll n st cursor s" and closed: "edge_closed s"
  shows "insert_identities (page_snapshot b r blocks p) s \<noteq> None"
proof -
  let ?us = "take 64 (page_rows coll n cursor None st)" and ?snap = "page_snapshot b r blocks p"
  let ?ids = "map user_ID ?us"
  have p: "page_Users p = map user_view ?us" "page_Tokens p = tokens_of ?ids st" "page_Policies p = policies_of ?ids st"
    "page_Grants p = grants_of ?ids st" "page_DPIPolicies p = dpi_of ?ids st"
    using page by (auto simp: ReadNodeIdentityPage_def Let_def split: if_splits)
  have above: "cursor < u" if "u \<in> set ?ids" for u
    using that page_rows_mem by (auto dest!: in_set_takeD)
  have cached: "u \<le> cursor" if "\<not> rows_free u s" for u using mirrored_identity(1) [OF mir that] .
  have keys: "keyed user_ID (users st)" "keyed token_ID (accessTokens st)" "keyed (coll \<circ> token_TokenHash) (accessTokens st)"
    "keyed grant_ID (portGrants st)" "keyed prow_UserID (userPolicies st)" "keyed (dpi_UserID \<circ> fst) (dpiPolicies st)"
    using inv by (simp_all add: store_parts)
  have su: "su_ID (snapshot_user (user_view x)) = user_ID x" for x by (simp add: snapshot_user_def)
  have sn: "sn_ID (snapshot_token (token_view t)) = token_ID t" "sn_TokenHash (snapshot_token (token_view t)) = token_TokenHash t" for t
    by (simp_all add: snapshot_token_def token_view_def)
  have us: "insert_rows (\<lambda>r x. su_ID r = su_ID x) (map (admitted_user True) (snap_Users ?snap)) (cachedUsers s) \<noteq> None"
  proof (rule insert_rows_fits)
    fix y x assume y: "y \<in> set (map (admitted_user True) (snap_Users ?snap))" and x: "x \<in> set (cachedUsers s)"
    have "su_ID y \<in> set ?ids" using y by (auto simp: page_snapshot_def Let_def p su)
    moreover have "\<not> rows_free (su_ID x) s" using x by (auto simp: rows_free_def)
    ultimately show "su_ID y \<noteq> su_ID x" using above cached by (metis not_less)
  next
    have "distinct (map user_ID (page_rows coll n cursor None st))"
      using distinct_page_rows keys(1) by (simp add: keyed_def)
    then have "distinct ?ids" by (simp flip: take_map)
    then show "sorted_wrt (\<lambda>x r. su_ID r \<noteq> su_ID x) (map (admitted_user True) (snap_Users ?snap))"
      by (intro sorted_wrt_keyed [where f = su_ID]) (simp_all add: page_snapshot_def Let_def p su comp_def)
  qed
  have toks: "insert_rows (\<lambda>r x. sn_ID r = sn_ID x \<or> sn_TokenHash r = sn_TokenHash x) (snap_Tokens ?snap) (cachedTokens s) \<noteq> None"
  proof (rule insert_rows_fits)
    fix y x assume y: "y \<in> set (snap_Tokens ?snap)" and x: "x \<in> set (cachedTokens s)"
    obtain t where t: "t \<in> set (accessTokens st)" "token_UserID t \<in> set ?ids" "y = snapshot_token (token_view t)"
      using y by (auto simp: page_snapshot_def Let_def p tokens_of_def)
    obtain z where z: "z \<in> set (accessTokens st)" "token_ID z = sn_ID x" "token_TokenHash z = sn_TokenHash x"
      "token_UserID z \<le> cursor" by (rule mirrored_token [OF mir x])
    have "t \<noteq> z" using above [OF t(2)] z(4) by auto
    then show "\<not> (sn_ID y = sn_ID x \<or> sn_TokenHash y = sn_TokenHash x)"
      using keyed_same [OF keys(2) t(1) z(1)] keyed_same [OF keys(3) t(1) z(1)] z(2,3) t(3) by (auto simp: sn)
  next
    let ?ts = "sort_key token_ID (filter (\<lambda>t. token_UserID t \<in> set ?ids) (accessTokens st))"
    have "distinct (map token_ID ?ts)" using keys(2) by (intro distinct_selected) (simp add: keyed_def)
    then have "sorted_wrt (\<lambda>x r. \<not> (token_ID r = token_ID x \<or> token_TokenHash r = token_TokenHash x)) ?ts"
    proof (rule sorted_wrt_keyed)
      fix x y assume "x \<in> set ?ts" "y \<in> set ?ts" and same: "token_ID x = token_ID y \<or> token_TokenHash x = token_TokenHash y"
      then have "x \<in> set (accessTokens st)" "y \<in> set (accessTokens st)" by simp_all
      from same keyed_same [OF keys(3) this] show "token_ID x = token_ID y" by auto
    qed
    then show "sorted_wrt (\<lambda>x r. \<not> (sn_ID r = sn_ID x \<or> sn_TokenHash r = sn_TokenHash x)) (snap_Tokens ?snap)"
      by (simp add: page_snapshot_def Let_def p tokens_of_def sorted_wrt_map sn)
  qed
  have pols: "insert_rows (\<lambda>r x. policy_UserID r = policy_UserID x) (snap_Policies ?snap) (cachedPolicies s) \<noteq> None"
  proof (rule insert_rows_fits)
    fix y x assume y: "y \<in> set (snap_Policies ?snap)" and x: "x \<in> set (cachedPolicies s)"
    have "policy_UserID y \<in> set ?ids" using y by (auto simp: page_snapshot_def Let_def p policies_of_def)
    moreover have "\<not> rows_free (policy_UserID x) s" using x by (auto simp: rows_free_def)
    ultimately show "policy_UserID y \<noteq> policy_UserID x" using above cached by (metis not_less)
  next
    have "distinct (map prow_UserID (sort_key prow_UserID (filter (\<lambda>t. prow_UserID t \<in> set ?ids) (userPolicies st))))"
      using keys(5) by (intro distinct_selected) (simp add: keyed_def)
    then show "sorted_wrt (\<lambda>x r. policy_UserID r \<noteq> policy_UserID x) (snap_Policies ?snap)"
      by (intro sorted_wrt_keyed [where f = policy_UserID]) (simp_all add: page_snapshot_def Let_def p policies_of_def comp_def)
  qed
  have dpis: "insert_rows (\<lambda>r x. dpi_UserID r = dpi_UserID x) (snap_DPIPolicies ?snap) (cachedDPIPolicies s) \<noteq> None"
  proof (rule insert_rows_fits)
    fix y x assume y: "y \<in> set (snap_DPIPolicies ?snap)" and x: "x \<in> set (cachedDPIPolicies s)"
    have "dpi_UserID y \<in> set ?ids" using y by (auto simp: page_snapshot_def Let_def p dpi_of_def)
    moreover have "\<not> rows_free (dpi_UserID x) s" using x by (auto simp: rows_free_def)
    ultimately show "dpi_UserID y \<noteq> dpi_UserID x" using above cached by (metis not_less)
  next
    have "distinct (map (dpi_UserID \<circ> fst) (sort_key (dpi_UserID \<circ> fst) (filter (\<lambda>t. dpi_UserID (fst t) \<in> set ?ids) (dpiPolicies st))))"
      using keys(6) by (intro distinct_selected) (simp add: keyed_def)
    then show "sorted_wrt (\<lambda>x r. dpi_UserID r \<noteq> dpi_UserID x) (snap_DPIPolicies ?snap)"
      by (intro sorted_wrt_keyed [where f = dpi_UserID]) (simp_all add: page_snapshot_def Let_def p dpi_of_def comp_def)
  qed
  have grants: "insert_rows (\<lambda>r x. grant_ID r = grant_ID x) (snap_Grants ?snap) (cachedGrants s) \<noteq> None"
  proof (rule insert_rows_fits)
    fix y x assume y: "y \<in> set (snap_Grants ?snap)" and x: "x \<in> set (cachedGrants s)"
    obtain t where t: "y \<in> set (portGrants st)" "t \<in> set (accessTokens st)" "token_ID t = grant_TokenID y" "token_UserID t \<in> set ?ids"
      using y by (auto simp: page_snapshot_def Let_def p grants_of_def list_ex_iff)
    obtain z where z: "x \<in> set (portGrants st)" "z \<in> set (accessTokens st)" "token_ID z = grant_TokenID x" "token_UserID z \<le> cursor"
      by (rule mirrored_grant [OF mir closed x])
    have "t \<noteq> z" using above [OF t(4)] z(4) by auto
    then show "grant_ID y \<noteq> grant_ID x"
      using keyed_same [OF keys(2) t(2) z(2)] keyed_same [OF keys(4) t(1) z(1)] t(3) z(3) by auto
  next
    have "distinct (map grant_ID (snap_Grants ?snap))"
      unfolding page_snapshot_def Let_def p grants_of_def using keys(4) by (simp add: keyed_def distinct_selected)
    then show "sorted_wrt (\<lambda>x r. grant_ID r \<noteq> grant_ID x) (snap_Grants ?snap)" by (rule sorted_wrt_keyed) simp
  qed
  have "snap_NodeAccessEnforced ?snap" by (simp add: page_snapshot_def Let_def)
  then show ?thesis using us toks pols dpis grants by (auto simp: insert_identities_def)
qed

section \<open>Runs\<close>

abbreviation sync_run where
  "sync_run coll jd enc dec n \<equiv> steps (sync_step coll jd enc dec n)"

lemma steps_one: "step s t \<Longrightarrow> steps step s t"
  by (rule steps_step [OF steps_refl])

lemma steps_trans: "steps step t u \<Longrightarrow> steps step s t \<Longrightarrow> steps step s u"
  by (induction rule: steps.induct) (auto intro: steps_step)

lemma sync_inv_run:
  assumes "sync_run coll jd enc dec n y y'" "sync_inv coll enc n y"
    and json: "\<And>snap. dec (enc snap) = Some snap" "\<And>snap. enc snap \<noteq> []"
  shows "sync_inv coll enc n y'"
  using assms(1,2) by (induction rule: steps.induct) (auto intro: sync_inv_step [OF _ _ json])

lemmas sync_run_one = steps_one [where step = "sync_step coll jd enc dec n" for coll jd enc dec n]
  and sync_run_step = steps_step [where step = "sync_step coll jd enc dec n" for coll jd enc dec n]
  and sync_run_trans = steps_trans [where step = "sync_step coll jd enc dec n" for coll jd enc dec n]

text \<open>The node has nothing queued and holds no fragment.\<close>

definition link_idle :: "string \<Rightarrow> EdgeLink \<Rightarrow> bool" where
  "link_idle sid l \<longleftrightarrow> el_job l = None \<and> el_running l = None \<and> el_chunkBuffer l = [] \<and> el_identityProtocol l = 3 \<and>
     el_cacheSessionID l = sid"

section \<open>The fragments of a snapshot arrive\<close>

text \<open>Fragment \<open>i\<close> is on the wire, and the node has those before it.\<close>

definition sending :: "nodeSession \<Rightarrow> IdSync \<Rightarrow> bool" where
  "sending ses y \<longleftrightarrow> y_alive y \<and> y_session y = Some ses \<and> ns_pendingIdentity ses \<noteq> None \<and> y_down y = [chunk_message ses] \<and>
     y_up y = [] \<and> ns_chunkIndex ses < ns_chunkTotal ses \<and> chunks_got ses (y_link y) = ns_chunkIndex ses \<and>
     el_job (y_link y) = None \<and> el_running (y_link y) = None \<and> (ns_chunkIndex ses = 0 \<longrightarrow> el_chunkBuffer (y_link y) = []) \<and>
     el_identityProtocol (y_link y) = 3 \<and> el_cacheSessionID (y_link y) = ns_cacheSessionID ses"

lemma fragment_data:
  assumes "i < (length p + identityChunkBytes - 1) div identityChunkBytes"
  shows "take identityChunkBytes (drop (i * identityChunkBytes) p) \<noteq> []"
proof -
  have "Suc i * identityChunkBytes \<le> length p + identityChunkBytes - 1"
    using assms less_eq_div_iff_mult_less_eq [of identityChunkBytes "Suc i" "length p + identityChunkBytes - 1"]
    by (simp add: Suc_le_eq identityChunkBytes_def)
  then have "i * identityChunkBytes < length p" by (simp add: identityChunkBytes_def)
  then show ?thesis by (simp add: identityChunkBytes_def)
qed

lemma fragment_step:
  assumes inv: "sync_inv coll enc n y" and snd: "sending ses y"
    and json: "\<And>snap. dec (enc snap) = Some snap" "\<And>snap. enc snap \<noteq> []"
  obtains l where "receive_message (chunk_message ses) (y_link y) =
      Inr (l, [IdentityChunkAck (ns_cacheSessionID ses) (ns_pendingRevision ses) (int (ns_chunkIndex ses))])"
    "el_running l = None" "el_identityProtocol l = 3" "el_cacheSessionID l = ns_cacheSessionID ses"
    "el_chunkRevision l = ns_pendingRevision ses" "el_chunkIndex l = Suc (ns_chunkIndex ses)"
    "if Suc (ns_chunkIndex ses) < ns_chunkTotal ses then el_job l = None else el_chunkBuffer l = [] \<and>
       (\<exists>p. el_job l = Some (SnapshotJob (ns_cacheSessionID ses) (ns_pendingRevision ses) p))"
proof -
  let ?l = "y_link y" and ?i = "ns_chunkIndex ses"
  have live: "session_live coll n (y_center y) ses ?l (y_edge y) (y_down y) (y_up y)" "session_ok enc n (y_center y) ses"
    using inv snd by (simp_all add: sync_inv_def sending_def)
  have tr: "transfer_ok ses ?l (y_down y) (y_up y)" using live(1) snd by (auto simp: session_live_def sending_def)
  have total: "?i < (length (ns_pendingPayload ses) + identityChunkBytes - 1) div identityChunkBytes"
    using live(2) snd by (auto simp: session_ok_def sending_def)
  have data: "chunk_data ses \<noteq> []" "length (chunk_data ses) \<le> identityChunkBytes"
    using fragment_data [OF total] unfolding chunk_data_def by (simp_all only: length_take min.cobounded2 not_False_eq_True)
  have more: "el_chunkRevision ?l = ns_pendingRevision ses" "el_chunkTotal ?l = ns_chunkTotal ses" "el_chunkIndex ?l = ?i" if "?i \<noteq> 0"
    using tr snd that by (auto simp: transfer_ok_def sending_def chunks_got_def split: if_splits)
  define l1 where "l1 = (if ?i = 0 then ?l\<lparr>el_syncReady := False, el_chunkRevision := ns_pendingRevision ses, el_chunkIndex := 0,
      el_chunkTotal := ns_chunkTotal ses\<rparr> else ?l)"
  have l1: "el_chunkTotal l1 = ns_chunkTotal ses" "el_chunkIndex l1 = ?i" "el_chunkRevision l1 = ns_pendingRevision ses"
    "el_job l1 = None" "el_running l1 = None" "el_identityProtocol l1 = 3" "el_cacheSessionID l1 = ns_cacheSessionID ses"
    using more snd by (simp_all add: l1_def sending_def)
  define l where "l = (if Suc ?i = ns_chunkTotal ses
      then l1\<lparr>el_chunkBuffer := [], el_chunkIndex := Suc ?i,
        el_job := Some (SnapshotJob (ns_cacheSessionID ses) (ns_pendingRevision ses) (el_chunkBuffer l1 @ chunk_data ses))\<rparr>
      else l1\<lparr>el_chunkBuffer := el_chunkBuffer l1 @ chunk_data ses, el_chunkIndex := Suc ?i\<rparr>)"
  have s: "?i < ns_chunkTotal ses" "?i = 0 \<longrightarrow> el_chunkBuffer ?l = []" "el_identityProtocol ?l = 3"
    "el_cacheSessionID ?l = ns_cacheSessionID ses"
    using snd by (simp_all add: sending_def)
  have "receive_message (chunk_message ses) ?l =
      Inr (l, [IdentityChunkAck (ns_cacheSessionID ses) (ns_pendingRevision ses) (int ?i)])"
    unfolding receive_message_def chunk_message_def Message.case receive_chunk_def l1_def [symmetric]
    using s data l1 by (cases l1) (auto simp: Let_def queueApply_def l_def)
  then show thesis by (rule that) (use s l1 in \<open>auto simp: l_def\<close>)
qed

lemma transfer_run:
  assumes "sync_inv coll enc n y" "sending ses y"
    and json: "\<And>snap. dec (enc snap) = Some snap" "\<And>snap. enc snap \<noteq> []"
  shows "\<exists>l. sync_run coll jd enc dec n y
      (y\<lparr>y_session := Some (ses\<lparr>ns_chunkIndex := ns_chunkTotal ses\<rparr>), y_link := l, y_down := [], y_up := []\<rparr>) \<and>
    el_job l = Some (SnapshotJob (ns_cacheSessionID ses) (ns_pendingRevision ses) (ns_pendingPayload ses)) \<and>
    el_running l = None \<and> el_chunkBuffer l = [] \<and> el_identityProtocol l = 3 \<and> el_cacheSessionID l = ns_cacheSessionID ses"
  using assms(1,2)
proof (induction "ns_chunkTotal ses - ns_chunkIndex ses" arbitrary: ses y rule: less_induct)
  case less
  note inv = less.prems(1) and snd = less.prems(2)
  let ?i = "ns_chunkIndex ses" and ?ses = "ses\<lparr>ns_chunkIndex := Suc (ns_chunkIndex ses)\<rparr>"
  let ?ack = "IdentityChunkAck (ns_cacheSessionID ses) (ns_pendingRevision ses) (int ?i)"
  have s: "y_alive y" "y_session y = Some ses" "ns_pendingIdentity ses \<noteq> None" "y_down y = [chunk_message ses]" "y_up y = []"
    "?i < ns_chunkTotal ses" using snd by (simp_all add: sending_def)
  obtain l where recv: "receive_message (chunk_message ses) (y_link y) = Inr (l, [?ack])"
    and l: "el_running l = None" "el_identityProtocol l = 3" "el_cacheSessionID l = ns_cacheSessionID ses"
      "el_chunkRevision l = ns_pendingRevision ses" "el_chunkIndex l = Suc ?i"
      "if Suc ?i < ns_chunkTotal ses then el_job l = None else el_chunkBuffer l = [] \<and>
         (\<exists>p. el_job l = Some (SnapshotJob (ns_cacheSessionID ses) (ns_pendingRevision ses) p))"
    by (rule fragment_step [OF inv snd json]) blast+
  let ?y1 = "y\<lparr>y_link := l, y_down := [], y_up := [?ack]\<rparr>"
  have step1: "sync_step coll jd enc dec n y ?y1"
    using sync_step.deliver [OF s(1,4) recv, of coll jd enc dec n] s(5) by simp
  let ?out = "accept_message coll 0 True ?ack (y_center y) ses"
  have ok: "session_ok enc n (y_center y) ses" using inv s by (simp add: sync_inv_def)
  then have out: "?out = done_with None (y_center y) ?ses (if Suc ?i < ns_chunkTotal ses then [chunk_message ?ses] else [])"
    using s by (auto simp: accept_message_def acceptIdentityProgress_def sendIdentityChunkLocked_def session_ok_def Let_def)
  let ?y2 = "y\<lparr>y_session := Some ?ses, y_link := l, y_down := (if Suc ?i < ns_chunkTotal ses then [chunk_message ?ses] else []), y_up := []\<rparr>"
  have step2: "sync_step coll jd enc dec n ?y1 ?y2"
  proof -
    have "sync_step coll jd enc dec n ?y1 (?y1\<lparr>y_center := out_store ?out, y_session := after_accept ?out,
        y_down := y_down ?y1 @ out_sent ?out, y_up := remove1 ?ack (y_up ?y1)\<rparr>)"
      by (rule sync_step.accept [where ses = ses and t = 0 and room = True]) (simp_all add: s)
    also have "?y1\<lparr>y_center := out_store ?out, y_session := after_accept ?out,
        y_down := y_down ?y1 @ out_sent ?out, y_up := remove1 ?ack (y_up ?y1)\<rparr> = ?y2"
      unfolding out by (cases y) (simp add: after_accept_def done_with_def)
    finally show ?thesis .
  qed
  have run: "sync_run coll jd enc dec n y ?y2" by (rule sync_run_step [OF sync_run_one [OF step1] step2])
  have inv2: "sync_inv coll enc n ?y2" by (rule sync_inv_run [OF run inv json])
  show ?case
  proof (cases "Suc ?i < ns_chunkTotal ses")
    case True
    have "sending ?ses ?y2" using True s l by (simp add: sending_def chunks_got_def)
    moreover have "ns_chunkTotal ?ses - ns_chunkIndex ?ses < ns_chunkTotal ses - ?i" using True by simp
    ultimately obtain l' where
      l': "sync_run coll jd enc dec n ?y2 (?y2\<lparr>y_session := Some (?ses\<lparr>ns_chunkIndex := ns_chunkTotal ?ses\<rparr>), y_link := l', y_down := [], y_up := []\<rparr>)"
        "el_job l' = Some (SnapshotJob (ns_cacheSessionID ses) (ns_pendingRevision ses) (ns_pendingPayload ses))"
        "el_running l' = None \<and> el_chunkBuffer l' = [] \<and> el_identityProtocol l' = 3 \<and> el_cacheSessionID l' = ns_cacheSessionID ses"
      using less.hyps [OF _ inv2, of ?ses] by auto
    have "?y2\<lparr>y_session := Some (?ses\<lparr>ns_chunkIndex := ns_chunkTotal ?ses\<rparr>), y_link := l', y_down := [], y_up := []\<rparr> =
        y\<lparr>y_session := Some (ses\<lparr>ns_chunkIndex := ns_chunkTotal ses\<rparr>), y_link := l', y_down := [], y_up := []\<rparr>"
      by (cases y) simp
    with sync_run_trans [OF l'(1) run] l'(2,3) show ?thesis by auto
  next
    case False
    then have last: "Suc ?i = ns_chunkTotal ses" using s by simp
    obtain p where p: "el_job l = Some (SnapshotJob (ns_cacheSessionID ses) (ns_pendingRevision ses) p)" using l(6) False by auto
    have "jobs_ok ?ses l (y_edge y) []" using inv2 s(1) False by (simp add: sync_inv_def session_live_def)
    then have "p = ns_pendingPayload ses" using p by (auto simp: jobs_ok_def jobs_def l(1))
    moreover have "?ses = ses\<lparr>ns_chunkIndex := ns_chunkTotal ses\<rparr>" using last by simp
    ultimately show ?thesis using run False p l by (intro exI [of _ l]) simp
  qed
qed

section \<open>One page of a baseline\<close>

definition rows_settled :: "collation \<Rightarrow> string \<Rightarrow> Store \<Rightarrow> bool" where
  "rows_settled coll n st \<longleftrightarrow> (\<forall>u a d. row_state coll n u st = Some (a, d) \<longrightarrow> d \<le> a)"

text \<open>Between two pages, and after the last.\<close>

definition paging :: "collation \<Rightarrow> string \<Rightarrow> nodeSession \<Rightarrow> IdSync \<Rightarrow> bool" where
  "paging coll n ses y \<longleftrightarrow> y_alive y \<and> y_session y = Some ses \<and> ns_cacheReady ses \<and> ns_pendingIdentity ses = None \<and>
     link_idle (ns_cacheSessionID ses) (y_link y) \<and> y_down y = [] \<and> y_up y = [] \<and> rows_settled coll n (y_center y) \<and>
     (\<forall>u \<le> 0. rows_free u (y_edge y)) \<and> (ns_baselineActive ses \<longrightarrow> identityResetPending (y_edge y))"

lemma paging_mirrored:
  assumes inv: "sync_inv coll enc n y" and pg: "paging coll n ses y"
  shows "0 < u \<Longrightarrow> covers ses u \<Longrightarrow> edge_identity u (y_edge y) = identity_at coll n u (y_center y)"
    and "ns_baselineActive ses \<Longrightarrow> mirrored coll n (y_center y) (ns_baselineCursor ses) (y_edge y)"
proof -
  have "session_live coll n (y_center y) ses (y_link y) (y_edge y) (y_down y) (y_up y)"
    using inv pg by (simp add: sync_inv_def paging_def)
  then have view: "view_ok coll n (y_center y) ses (applied_by ses (y_edge y)) (y_edge y)"
    using pg by (simp add: session_live_def paging_def)
  have v: "if covers ses u then row_settled (identity_at coll n u (y_center y)) (row_state coll n u (y_center y)) (edge_identity u (y_edge y))
      else rows_free u (y_edge y)" if "0 < u" for u
    using view pg that by (simp add: view_ok_def view_of_def touched_by_def paging_def)
  show same: "edge_identity u (y_edge y) = identity_at coll n u (y_center y)" if "0 < u" "covers ses u" for u
    using v [OF that(1)] that(2) pg
    by (auto simp: row_settled_def paging_def rows_settled_def split: option.splits)
  show "mirrored coll n (y_center y) (ns_baselineCursor ses) (y_edge y)" if "ns_baselineActive ses"
    unfolding mirrored_def
  proof
    fix u
    show "rows_free u (y_edge y) \<or> u \<le> ns_baselineCursor ses \<and> edge_identity u (y_edge y) = identity_at coll n u (y_center y)"
      using v [of u] same [of u] that pg by (cases "0 < u") (auto simp: covers_def paging_def split: if_splits)
  qed
qed

text \<open>The push of the page: the snapshot is prepared, and its first fragment is on the wire.\<close>

lemma push_page:
  assumes inv: "sync_inv coll enc n y" and pg: "paging coll n ses y" and base: "ns_baselineActive ses"
    and enc: "\<And>snap. enc snap \<noteq> []"
  obtains p snap st ses' where "ReadNodeIdentityPage coll n (ns_baselineCursor ses) None 64 (y_center y) = Some p"
    "snap = page_snapshot True (revision_of (y_center y) + 1) [] p"
    "ses' = send_state enc snap (ses\<lparr>ns_pendingCursor := page_LastID p\<rparr>)"
    "PrepareNodeIdentityCache coll n (ns_cacheSessionID ses) (snap_Revision snap) (touched_users snap) (issued_store (y_center y)) = Inr ((), st)"
    "sync_step coll jd enc dec n y (y\<lparr>y_center := st, y_session := Some ses', y_down := [chunk_message ses']\<rparr>)"
proof -
  let ?st = "y_center y" and ?sid = "ns_cacheSessionID ses"
  have live: "session_live coll n ?st ses (y_link y) (y_edge y) (y_down y) (y_up y)" and ok: "session_ok enc n ?st ses"
    and ob: "outbox_inv coll ?st"
    using inv pg by (simp_all add: sync_inv_def paging_def)
  have ready: "ns_cacheReady ses" "ns_pendingIdentity ses = None" using pg by (simp_all add: paging_def)
  have ses: "ns_nodeID ses = n" "ns_cacheProtocol ses = 3" "?sid \<noteq> []" "ns_pendingRevision ses \<le> ns_appliedRevision ses"
    using ok ready by (simp_all add: session_ok_def)
  obtain p where page: "ReadNodeIdentityPage coll n (ns_baselineCursor ses) None 64 ?st = Some p"
    by (simp add: ReadNodeIdentityPage_def Let_def)
  define snap where "snap = page_snapshot True (revision_of ?st + 1) [] p"
  define ses' where "ses' = send_state enc snap (ses\<lparr>ns_pendingCursor := page_LastID p\<rparr>)"
  define st1 where "st1 = issued_store ?st"
  have nxt: "NextIdentityRevision ?st = Inr (revision_of ?st + 1, st1)"
    unfolding st1_def using next_revision [OF ob] by blast
  have "session_of coll n (cacheSessions st1) = Some ?sid"
    using live ready issue_evolves(1) [OF ob, of n] by (simp add: session_live_def evolves_def st1_def)
  then obtain st where prep: "PrepareNodeIdentityCache coll n ?sid (snap_Revision snap) (touched_users snap) st1 = Inr ((), st)"
    by (simp add: PrepareNodeIdentityCache_def lockCacheSession_def)
  let ?fresh = "replicate (Suc (Max (length ` ({?sid, el_cacheSessionID (y_link y)})))) (CHR ''x'')"
  have fresh: "fresh_id ?fresh y"
  proof -
    have "length x \<noteq> length ?fresh" if "x \<in> {?sid, el_cacheSessionID (y_link y)}" for x
      using Max_ge [of "length ` {?sid, el_cacheSessionID (y_link y)}" "length x"] that by auto
    then have "x \<noteq> ?fresh" if "x \<in> {?sid, el_cacheSessionID (y_link y)}" for x using that by metis
    then show ?thesis using pg by (auto simp: fresh_id_def paging_def link_idle_def jobs_def)
  qed
  have mode: "snap_Baseline snap" "\<not> snap_Incremental snap" by (simp_all add: snap_def page_snapshot_def Let_def)
  have fields: "(ses\<lparr>ns_pendingCursor := page_LastID p, ns_pendingRevision := snap_Revision snap, ns_pendingIdentity := Some snap, ns_applyProgress := 0,
       ns_pendingPayload := enc snap, ns_chunkIndex := 0, ns_chunkTotal := (length (enc snap) + identityChunkBytes - 1) div identityChunkBytes\<rparr>) = ses'"
    unfolding ses'_def send_state_def by (cases ses) simp
  have out: "pushNodeIdentity coll enc False True True ?fresh [] ?st ses = done_with None st ses' [chunk_message ses']"
    using ses ready base page nxt prep mode fields
    by (simp add: pushNodeIdentity_def push_users_def identityPageMessage_def enqueue_result_def enqueueIdentity_def
        sendIdentityChunkLocked_def Let_def snap_def [symmetric])
  have "sync_step coll jd enc dec n y (y\<lparr>y_center := st, y_session := Some ses', y_down := [chunk_message ses']\<rparr>)"
    using sync_step.push [of y ses ?fresh "done_with None st ses' [chunk_message ses']" coll enc False True "[]" jd dec n]
      fresh out pg by (simp add: after_push_def done_with_def paging_def)
  then show thesis using that [OF page snap_def ses'_def] prep by (simp add: st1_def)
qed

lemma page_snapshot_fields:
  "snap_Baseline (page_snapshot b r blocks p) = b" "snap_Incremental (page_snapshot b r blocks p) = (\<not> b)"
  "snap_Revision (page_snapshot b r blocks p) = r" "snap_BaselineEnd (page_snapshot b r blocks p) = (b \<and> page_End p)"
  "snap_RemovedUserIDs (page_snapshot b r blocks p) = page_Removed p"
  "su_ID ` set (snap_Users (page_snapshot b r blocks p)) = user_ID ` set (page_Users p)"
  by (simp_all add: page_snapshot_def Let_def image_image snapshot_user_def)

text \<open>The node applies the page.\<close>

lemma rotated_pending: "identityResetPending (fold revoke_rotated ts s) = identityResetPending s"
  by (induction ts arbitrary: s) (simp_all add: revoke_rotated_def revoke_def)

lemma apply_page:
  assumes si: "store_inv coll st" and page: "ReadNodeIdentityPage coll n cursor None 64 st = Some p"
    and snap: "snap = page_snapshot True r [] p"
    and mir: "mirrored coll n st cursor s" and s: "edge_closed s" "identityResetPending s" "\<forall>u \<le> 0. rows_free u s"
    and r: "0 < r" "\<And>q. lastRevision s = Some q \<Longrightarrow> q < r" and "0 \<le> cursor"
  obtains s' where "ApplyIdentitySnapshot jd now (Some snap) s = Inr ((), s')" "\<forall>u \<le> 0. rows_free u s'"
    "\<not> page_End p \<Longrightarrow> identityResetPending s'"
proof -
  let ?s0 = "fold revoke_rotated (snap_Tokens snap) s"
  note f = page_snapshot_fields [of True r "[]" p, folded snap]
  have "mirrored coll n st cursor ?s0" "edge_closed ?s0" using mir s(1) by (simp_all add: mirrored_def)
  from baseline_insert [OF si page this, where b = True and r = r and blocks = "[]", folded snap]
  obtain s1 where ins: "insert_identities snap ?s0 = Some s1" by auto
  have clear: "clear_replaced snap ?s0 = ?s0" by (simp add: clear_replaced_def f)
  have "check_snapshot snap s = None" using s(2) r by (auto simp: check_snapshot_def f not_le split: option.splits)
  then have app: "ApplyIdentitySnapshot jd now (Some snap) s = Inr ((), finish_snapshot jd now snap s1)"
    using ins clear by (simp add: ApplyIdentitySnapshot_def)
  have pos: "0 < u" if "u \<in> user_ID ` set (page_Users p)" for u using page_bounds(1) [OF si page that] assms(10) by simp
  have "rows_free u (finish_snapshot jd now snap s1)" if "u \<le> 0" for u
  proof (rule baseline_free [OF app])
    show "snap_closed snap" unfolding snap by (rule page_snapshot_closed [OF page])
    show "u \<notin> su_ID ` set (snap_Users snap)" unfolding f using pos [of u] that by auto
  qed (use that s(3) f in simp_all)
  moreover have "identityResetPending (finish_snapshot jd now snap s1)" if "\<not> page_End p"
  proof -
    have "identityResetPending s1"
      using ins s(2) by (auto simp: insert_identities_def rotated_pending split: option.splits)
    then show ?thesis
      using that by (simp add: finish_snapshot_def f Let_def reset_notices_def apply_blocks_def revoke_unbacked_def revoke_def)
  qed
  ultimately show thesis using that [OF app] by blast
qed

text \<open>The controller confirms it.\<close>

lemma confirm_page:
  assumes ob: "outbox_inv coll st" and sid: "session_of coll n (cacheSessions st) = Some (ns_cacheSessionID ses)"
    and ses: "session_ok enc n st ses" "ns_pendingIdentity ses = Some snap" "ns_chunkIndex ses = ns_chunkTotal ses"
      "snap_Baseline snap"
  obtains st' ses' where "ConfirmNodeIdentityCache coll t n (ns_cacheSessionID ses) (snap_Revision snap) (map su_ID (snap_Users snap))
      (snap_RemovedUserIDs snap) False st = Inr ((), st')"
    "accept_message coll t True (IdentityAck (ns_cacheSessionID ses) (snap_Revision snap)) st ses =
      done_with None st' ses' [IdentityConfirmed (ns_cacheSessionID ses) (snap_Revision snap) (snap_BaselineEnd snap)]"
    "ns_pendingIdentity ses' = None" "ns_cacheReady ses'" "ns_cacheSessionID ses' = ns_cacheSessionID ses"
    "ns_baselineCursor ses' = ns_pendingCursor ses" "ns_baselineActive ses' = (\<not> snap_BaselineEnd snap)"
proof -
  have s: "ns_nodeID ses = n" "ns_cacheProtocol ses = 3" "ns_cacheReady ses" "snap_Revision snap = ns_pendingRevision ses"
    "ns_appliedRevision ses < ns_pendingRevision ses"
    using ses by (simp_all add: session_ok_def)
  obtain st' where st': "ConfirmNodeIdentityCache coll t n (ns_cacheSessionID ses) (snap_Revision snap) (map su_ID (snap_Users snap))
      (snap_RemovedUserIDs snap) False st = Inr ((), st')"
    using sid by (simp add: ConfirmNodeIdentityCache_def lockCacheSession_def Let_def)
  show thesis
    by (rule that [OF st', of "ses\<lparr>ns_appliedRevision := snap_Revision snap, ns_pendingIdentity := None, ns_pendingPayload := [],
        ns_blockedIPs := confirmed_blocks snap (ns_blockedIPs ses), ns_baselineCursor := ns_pendingCursor ses,
        ns_baselineActive := (\<not> snap_BaselineEnd snap)\<rparr>"])
      (use st' s ses in \<open>simp_all add: accept_message_def confirmIdentity_def Let_def\<close>)
qed

lemma settled_page:
  assumes ob: "outbox_inv coll st" and rows: "rows_settled coll n st"
    and prep: "PrepareNodeIdentityCache coll n sid r us (issued_store st) = Inr ((), st1)" and r: "r = revision_of st + 1"
    and ob1: "outbox_inv coll st1" and conf: "ConfirmNodeIdentityCache coll t n sid r us [] False st1 = Inr ((), st2)"
  shows "rows_settled coll n st2" "same_identities st st2" "nextUserID st2 = nextUserID st"
proof -
  define st0 where "st0 = issued_store st"
  have frame: "userNodeCache st0 = userNodeCache st" "nextUserID st0 = nextUserID st"
    by (auto simp: st0_def commit_def NextIdentityRevision_def split: option.splits sum.splits)
  have same: "same_identities st st0"
    by (intro allI identity_at_same) (auto simp: st0_def commit_def NextIdentityRevision_def split: option.splits sum.splits)
  note row1 = prepare_row [OF prep, folded st0_def] and row2 = confirm_row [OF conf ob1]
  show "same_identities st st2" using same row1(2) row2(2) by simp
  show "nextUserID st2 = nextUserID st"
    using prep conf frame unfolding st0_def [symmetric]
    by (auto simp: PrepareNodeIdentityCache_def ConfirmNodeIdentityCache_def Let_def split: option.splits)
  show "rows_settled coll n st2"
    unfolding rows_settled_def
  proof (intro allI impI)
    fix u a d
    assume row: "row_state coll n u st2 = Some (a, d)"
    have old: "row_state coll n u st0 = row_state coll n u st" by (simp add: row_state_def frame)
    have bound: "d' \<le> a' \<and> d' < r" if "row_state coll n u st = Some (a', d')" for a' d'
      using that rows cache_row_bounds(1) [OF ob] r by (auto simp: rows_settled_def row_state_cache)
    show "d \<le> a"
      using row row1(1) [of u] row2(1) [of u] bound
      by (auto simp: old max_def split: option.splits if_splits dest: bound)
  qed
qed

lemma page_advance:
  assumes si: "store_inv coll st" and page: "ReadNodeIdentityPage coll n cursor None 64 st = Some p" and more: "\<not> page_End p"
  shows "cursor < page_LastID p" "page_LastID p < nextUserID st"
proof -
  let ?us = "take 64 (page_rows coll n cursor None st)"
  have p: "page_LastID p = (if ?us = [] then cursor else user_ID (last ?us))" "\<not> length (page_rows coll n cursor None st) \<le> 64"
    using page more by (auto simp: ReadNodeIdentityPage_def Let_def split: if_splits)
  then have "?us \<noteq> []" by auto
  then have "last ?us \<in> set (page_rows coll n cursor None st)" by (meson in_set_takeD last_in_set)
  with \<open>?us \<noteq> []\<close> p(1) si show "cursor < page_LastID p" "page_LastID p < nextUserID st"
    by (auto simp: page_rows_mem store_parts)
qed

text \<open>The page is at the node, complete.\<close>

lemma page_sent:
  assumes inv: "sync_inv coll enc n y" and pg: "paging coll n ses y" and base: "ns_baselineActive ses"
    and json: "\<And>snap. dec (enc snap) = Some snap" "\<And>snap. enc snap \<noteq> []"
  obtains p snap st1 ses2 l where "ReadNodeIdentityPage coll n (ns_baselineCursor ses) None 64 (y_center y) = Some p"
    "snap = page_snapshot True (revision_of (y_center y) + 1) [] p"
    "PrepareNodeIdentityCache coll n (ns_cacheSessionID ses) (snap_Revision snap) (touched_users snap) (issued_store (y_center y)) = Inr ((), st1)"
    "sync_run coll jd enc dec n y (y\<lparr>y_center := st1, y_session := Some ses2, y_link := l, y_down := [], y_up := []\<rparr>)"
    "ns_cacheSessionID ses2 = ns_cacheSessionID ses" "ns_pendingIdentity ses2 = Some snap" "ns_chunkIndex ses2 = ns_chunkTotal ses2"
    "ns_cacheReady ses2" "ns_pendingCursor ses2 = page_LastID p"
    "el_job l = Some (SnapshotJob (ns_cacheSessionID ses) (snap_Revision snap) (enc snap))" "el_running l = None" "el_chunkBuffer l = []"
    "el_identityProtocol l = 3" "el_cacheSessionID l = ns_cacheSessionID ses"
proof -
  let ?st = "y_center y" and ?sid = "ns_cacheSessionID ses"
  have "session_live coll n ?st ses (y_link y) (y_edge y) (y_down y) (y_up y)" and ready: "ns_cacheReady ses"
    using inv pg by (simp_all add: sync_inv_def paging_def)
  then have old: "el_chunkRevision (y_link y) \<noteq> revision_of ?st + 1" by (auto simp: session_live_def bounds_ok_def)
  obtain p snap st1 ses1 where page: "ReadNodeIdentityPage coll n (ns_baselineCursor ses) None 64 ?st = Some p"
    and snap: "snap = page_snapshot True (revision_of ?st + 1) [] p"
    and ses1: "ses1 = send_state enc snap (ses\<lparr>ns_pendingCursor := page_LastID p\<rparr>)"
    and prep: "PrepareNodeIdentityCache coll n ?sid (snap_Revision snap) (touched_users snap) (issued_store ?st) = Inr ((), st1)"
    and push: "sync_step coll jd enc dec n y (y\<lparr>y_center := st1, y_session := Some ses1, y_down := [chunk_message ses1]\<rparr>)"
    by (rule push_page [OF inv pg base json(2)])
  let ?y1 = "y\<lparr>y_center := st1, y_session := Some ses1, y_down := [chunk_message ses1]\<rparr>"
  have run1: "sync_run coll jd enc dec n y ?y1" by (rule sync_run_one [OF push])
  have "0 < ns_chunkTotal ses1"
    using json(2) [of snap] by (simp add: ses1 send_state_def identityChunkBytes_def div_greater_zero_iff Suc_le_eq)
  then have "sending ses1 ?y1"
    using pg old page_snapshot_fields(3) [of True "revision_of ?st + 1" "[]" p, folded snap]
    by (simp add: sending_def paging_def link_idle_def ses1 send_state_def chunks_got_def)
  from transfer_run [OF sync_inv_run [OF run1 inv json] this json] obtain l where run2: "sync_run coll jd enc dec n ?y1
      (?y1\<lparr>y_session := Some (ses1\<lparr>ns_chunkIndex := ns_chunkTotal ses1\<rparr>), y_link := l, y_down := [], y_up := []\<rparr>)"
    and l: "el_job l = Some (SnapshotJob ?sid (snap_Revision snap) (enc snap))" "el_running l = None" "el_chunkBuffer l = []"
      "el_identityProtocol l = 3" "el_cacheSessionID l = ?sid"
    by (auto simp: ses1 send_state_def)
  let ?ses2 = "ses1\<lparr>ns_chunkIndex := ns_chunkTotal ses1\<rparr>"
  have "sync_run coll jd enc dec n y (y\<lparr>y_center := st1, y_session := Some ?ses2, y_link := l, y_down := [], y_up := []\<rparr>)"
    using sync_run_trans [OF run2 run1] by simp
  then show thesis
    by (rule that [OF page snap prep _ _ _ _ _ _ l]) (simp_all add: ses1 send_state_def ready)
qed

text \<open>The worker applies the job and answers.\<close>

lemma job_run:
  assumes "y_alive y" "y_up y = []" "el_job (y_link y) = Some (SnapshotJob sid (snap_Revision snap) (enc snap))" "el_running (y_link y) = None"
    and dec: "dec (enc snap) = Some snap" and app: "ApplyIdentitySnapshot jd 0 (Some snap) (y_edge y) = Inr ((), s')"
  shows "sync_run coll jd enc dec n y (y\<lparr>y_edge := s', y_up := [IdentityAck sid (snap_Revision snap)],
    y_link := (y_link y)\<lparr>el_running := None, el_job := None, el_locallyApplied := snap_Revision snap\<rparr>\<rparr>)"
proof -
  let ?l1 = "(y_link y)\<lparr>el_running := el_job (y_link y), el_job := None\<rparr>"
  let ?l2 = "(y_link y)\<lparr>el_running := None, el_job := None, el_locallyApplied := snap_Revision snap\<rparr>"
  have step1: "sync_step coll jd enc dec n y (y\<lparr>y_link := ?l1\<rparr>)"
    using sync_step.take [of coll jd enc dec n y] assms(4) by (simp add: take_job_def)
  have "run_job jd 0 dec 0 (y_edge y) ?l1 = Inr (s', ?l2, [IdentityAck sid (snap_Revision snap)])"
    using assms by (simp add: run_job_def)
  from sync_step.work [of "y\<lparr>y_link := ?l1\<rparr>" jd 0 dec 0 s' ?l2 "[IdentityAck sid (snap_Revision snap)]" coll enc n] this assms(1,2)
  have step2: "sync_step coll jd enc dec n (y\<lparr>y_link := ?l1\<rparr>) (y\<lparr>y_edge := s', y_up := [IdentityAck sid (snap_Revision snap)], y_link := ?l2\<rparr>)"
    by (cases y) simp
  show ?thesis by (rule sync_run_step [OF sync_run_one [OF step1] step2])
qed

text \<open>The controller accepts the acknowledgement, and the node its confirmation.\<close>

lemma confirm_run:
  assumes "y_alive y" "y_session y = Some ses" "y_down y = []" "y_up y = [IdentityAck sid r]"
    and link: "el_cacheSessionID (y_link y) = sid" "el_identityProtocol (y_link y) = 3" "el_locallyApplied (y_link y) = r"
    and acc: "accept_message coll 0 True (IdentityAck sid r) (y_center y) ses = done_with None st' ses' [IdentityConfirmed sid r complete]"
  shows "sync_run coll jd enc dec n y (y\<lparr>y_center := st', y_session := Some ses', y_up := [],
    y_link := (y_link y)\<lparr>el_syncReady := complete\<rparr>\<rparr>)"
proof -
  let ?y1 = "y\<lparr>y_center := st', y_session := Some ses', y_down := [IdentityConfirmed sid r complete], y_up := []\<rparr>"
  have step1: "sync_step coll jd enc dec n y ?y1"
    using sync_step.accept [of y ses "IdentityAck sid r" _ coll 0 True jd enc dec n] acc assms(2-4)
    by (cases y) (simp add: done_with_def after_accept_def)
  have step2: "sync_step coll jd enc dec n ?y1 (y\<lparr>y_center := st', y_session := Some ses', y_up := [],
      y_link := (y_link y)\<lparr>el_syncReady := complete\<rparr>\<rparr>)"
    using sync_step.deliver [of ?y1 "IdentityConfirmed sid r complete" "[]" _ "[]" coll jd enc dec n] assms(1,3) link
    by (cases y) (simp add: receive_message_def receive_confirmed_def)
  show ?thesis by (rule sync_run_step [OF sync_run_one [OF step1] step2])
qed

lemma page_round:
  assumes inv: "sync_inv coll enc n y" and pg: "paging coll n ses y" and base: "ns_baselineActive ses"
    and json: "\<And>snap. dec (enc snap) = Some snap" "\<And>snap. enc snap \<noteq> []"
  obtains y' ses' where "sync_run coll jd enc dec n y y'" "paging coll n ses' y'"
    "same_identities (y_center y) (y_center y')" "nextUserID (y_center y') = nextUserID (y_center y)"
    "if ns_baselineActive ses' then ns_baselineCursor ses < ns_baselineCursor ses' \<and> ns_baselineCursor ses' < nextUserID (y_center y)
     else el_syncReady (y_link y')"
proof -
  let ?st = "y_center y" and ?sid = "ns_cacheSessionID ses"
  have live: "session_live coll n ?st ses (y_link y) (y_edge y) (y_down y) (y_up y)" and ok: "session_ok enc n ?st ses"
    and ob: "outbox_inv coll ?st" and alive: "y_alive y" and settled: "rows_settled coll n ?st"
    using inv pg by (simp_all add: sync_inv_def paging_def)
  have si: "store_inv coll ?st" using ob by (simp add: outbox_inv_def)
  have bounds: "edge_closed (y_edge y)" "lastRevision (y_edge y) = Some q \<Longrightarrow> q < revision_of ?st + 1" "0 < revision_of ?st + 1" for q
    using live by (auto simp: session_live_def bounds_ok_def split: option.splits)
  obtain p snap st1 ses2 l where page: "ReadNodeIdentityPage coll n (ns_baselineCursor ses) None 64 ?st = Some p"
    and snap: "snap = page_snapshot True (revision_of ?st + 1) [] p"
    and prep: "PrepareNodeIdentityCache coll n ?sid (snap_Revision snap) (touched_users snap) (issued_store ?st) = Inr ((), st1)"
    and run2: "sync_run coll jd enc dec n y (y\<lparr>y_center := st1, y_session := Some ses2, y_link := l, y_down := [], y_up := []\<rparr>)"
    and f2: "ns_cacheSessionID ses2 = ?sid" "ns_pendingIdentity ses2 = Some snap" "ns_chunkIndex ses2 = ns_chunkTotal ses2"
      "ns_cacheReady ses2" "ns_pendingCursor ses2 = page_LastID p"
    and l: "el_job l = Some (SnapshotJob ?sid (snap_Revision snap) (enc snap))" "el_running l = None" "el_chunkBuffer l = []"
      "el_identityProtocol l = 3" "el_cacheSessionID l = ?sid"
    by (rule page_sent [OF inv pg base json])
  note f = page_snapshot_fields [of True "revision_of ?st + 1" "[]" p, folded snap]
  obtain s' where app: "ApplyIdentitySnapshot jd 0 (Some snap) (y_edge y) = Inr ((), s')" "\<forall>u \<le> 0. rows_free u s'"
    "\<not> page_End p \<Longrightarrow> identityResetPending s'"
    by (rule apply_page [OF si page snap paging_mirrored(2) [OF inv pg base] bounds(1), where jd = jd and now = 0])
      (use pg base bounds ok in \<open>simp_all add: paging_def session_ok_def\<close>)
  let ?l4 = "l\<lparr>el_running := None, el_job := None, el_locallyApplied := snap_Revision snap\<rparr>"
  let ?y4 = "y\<lparr>y_center := st1, y_session := Some ses2, y_down := [], y_edge := s', y_up := [IdentityAck ?sid (snap_Revision snap)], y_link := ?l4\<rparr>"
  have "sync_run coll jd enc dec n (y\<lparr>y_center := st1, y_session := Some ses2, y_link := l, y_down := [], y_up := []\<rparr>) ?y4"
    using job_run [of "y\<lparr>y_center := st1, y_session := Some ses2, y_link := l, y_down := [], y_up := []\<rparr>" ?sid snap enc dec jd s'] alive l json app(1)
    by (cases y) simp
  note run4 = sync_run_trans [OF this run2]
  have "sync_inv coll enc n ?y4" by (rule sync_inv_run [OF run4 inv json])
  then have st1: "outbox_inv coll st1" "session_ok enc n st1 ses2" "session_of coll n (cacheSessions st1) = Some (ns_cacheSessionID ses2)"
    using alive f2 by (simp_all add: sync_inv_def session_live_def)
  obtain st2 ses3 where conf: "ConfirmNodeIdentityCache coll 0 n ?sid (snap_Revision snap) (map su_ID (snap_Users snap))
      (snap_RemovedUserIDs snap) False st1 = Inr ((), st2)"
    and acc: "accept_message coll 0 True (IdentityAck ?sid (snap_Revision snap)) st1 ses2 =
      done_with None st2 ses3 [IdentityConfirmed ?sid (snap_Revision snap) (page_End p)]"
    and f3: "ns_pendingIdentity ses3 = None" "ns_cacheReady ses3" "ns_cacheSessionID ses3 = ?sid"
      "ns_baselineCursor ses3 = page_LastID p" "ns_baselineActive ses3 = (\<not> page_End p)"
    using confirm_page [OF st1(1,3,2) f2(2,3), where t = 0, unfolded f2 f, OF TrueI] by (auto simp: f)
  let ?y6 = "y\<lparr>y_center := st2, y_session := Some ses3, y_down := [], y_edge := s', y_up := [], y_link := ?l4\<lparr>el_syncReady := page_End p\<rparr>\<rparr>"
  have "sync_run coll jd enc dec n ?y4 ?y6"
    using confirm_run [of ?y4 ses2 ?sid "snap_Revision snap", where st' = st2 and ses' = ses3 and coll = coll] alive l acc by (cases y) simp
  note run6 = sync_run_trans [OF this run4]
  have removed: "snap_RemovedUserIDs snap = []" "touched_users snap = map su_ID (snap_Users snap)"
    using f(5) page_bounds(3) [OF si page] by (simp_all add: touched_users_def)
  note after = settled_page [OF ob settled prep [unfolded removed] f(3) st1(1) conf [unfolded removed]]
  show thesis
    by (rule that [OF run6, of ses3])
      (use alive f3 l app after page_advance [OF si page] in \<open>auto simp: paging_def link_idle_def\<close>)
qed

end
