(* ===== verification/Snapshot_Codec.thy ===== *)
theory Snapshot_Codec
  imports Cluster_Types
begin

text \<open>
  An encoding of identity snapshots that can be decoded. The exchange only relies on its payload
  being the non-empty encoding of a snapshot from which the snapshot is recovered; the program uses
  JSON, and this self-delimiting encoding is an instance on which the results can be applied.
\<close>

type_synonym 'a codec = "('a \<Rightarrow> string) \<times> (string \<Rightarrow> ('a \<times> string) option)"

definition decodable :: "'a codec \<Rightarrow> bool" where
  "decodable c \<longleftrightarrow> (\<forall>x rest. snd c (fst c x @ rest) = Some (x, rest))"

lemma decodableD [simp]: "decodable c \<Longrightarrow> snd c (fst c x @ rest) = Some (x, rest)"
  by (simp add: decodable_def)

section \<open>Basic values\<close>

fun nat_decode :: "string \<Rightarrow> (nat \<times> string) option" where
  "nat_decode [] = None"
| "nat_decode (c # cs) = (if c = CHR ''1'' then map_option (\<lambda>(k, r). (Suc k, r)) (nat_decode cs) else Some (0, cs))"

definition nat_codec :: "nat codec" where
  "nat_codec = (\<lambda>k. replicate k (CHR ''1'') @ ''.'', nat_decode)"

definition char_codec :: "char codec" where
  "char_codec = (\<lambda>c. [c], \<lambda>s. case s of [] \<Rightarrow> None | c # r \<Rightarrow> Some (c, r))"

definition iso_codec :: "('a \<Rightarrow> 'b) \<Rightarrow> ('b \<Rightarrow> 'a) \<Rightarrow> 'b codec \<Rightarrow> 'a codec" where
  "iso_codec f g c = (\<lambda>x. fst c (f x), \<lambda>s. map_option (\<lambda>(y, r). (g y, r)) (snd c s))"

definition pair_codec :: "'a codec \<Rightarrow> 'b codec \<Rightarrow> ('a \<times> 'b) codec" where
  "pair_codec c d = (\<lambda>(x, y). fst c x @ fst d y,
     \<lambda>s. case snd c s of None \<Rightarrow> None | Some (x, r) \<Rightarrow> map_option (\<lambda>(y, r'). ((x, y), r')) (snd d r))"

fun decode_times :: "(string \<Rightarrow> ('a \<times> string) option) \<Rightarrow> nat \<Rightarrow> string \<Rightarrow> ('a list \<times> string) option" where
  "decode_times d 0 s = Some ([], s)"
| "decode_times d (Suc k) s =
     (case d s of None \<Rightarrow> None | Some (x, r) \<Rightarrow> map_option (\<lambda>(xs, r'). (x # xs, r')) (decode_times d k r))"

definition list_codec :: "'a codec \<Rightarrow> 'a list codec" where
  "list_codec c = (\<lambda>xs. fst nat_codec (length xs) @ concat (map (fst c) xs),
     \<lambda>s. case snd nat_codec s of None \<Rightarrow> None | Some (k, r) \<Rightarrow> decode_times (snd c) k r)"

lemma nat_codec [simp]: "decodable nat_codec"
proof -
  have "nat_decode (replicate k (CHR ''1'') @ CHR ''.'' # rest) = Some (k, rest)" for k rest
    by (induction k) simp_all
  then show ?thesis by (simp add: decodable_def nat_codec_def)
qed

lemma char_codec [simp]: "decodable char_codec"
  by (simp add: decodable_def char_codec_def)

lemma iso_codec: "decodable c \<Longrightarrow> (\<And>x. g (f x) = x) \<Longrightarrow> decodable (iso_codec f g c)"
  by (simp add: decodable_def iso_codec_def)

lemma pair_codec [simp]: "decodable c \<Longrightarrow> decodable d \<Longrightarrow> decodable (pair_codec c d)"
  by (simp add: decodable_def pair_codec_def split_beta)

lemma list_codec [simp]:
  assumes "decodable c"
  shows "decodable (list_codec c)"
proof -
  have "decode_times (snd c) (length xs) (concat (map (fst c) xs) @ rest) = Some (xs, rest)" for xs rest
    using assms by (induction xs) simp_all
  then show ?thesis unfolding decodable_def list_codec_def by simp
qed

definition int_codec :: "int codec" where
  "int_codec = iso_codec (\<lambda>i. (nat i, nat (- i))) (\<lambda>(p, q). int p - int q) (pair_codec nat_codec nat_codec)"

definition bool_codec :: "bool codec" where
  "bool_codec = iso_codec (\<lambda>b. if b then 1 else 0) (\<lambda>k. k = 1) nat_codec"

definition option_codec :: "'a codec \<Rightarrow> 'a option codec" where
  "option_codec c = iso_codec (\<lambda>x. case x of None \<Rightarrow> [] | Some y \<Rightarrow> [y]) (\<lambda>xs. case xs of [] \<Rightarrow> None | y # _ \<Rightarrow> Some y) (list_codec c)"

abbreviation string_codec :: "string codec" where
  "string_codec \<equiv> list_codec char_codec"

lemma int_codec [simp]: "decodable int_codec"
  unfolding int_codec_def by (rule iso_codec) simp_all

lemma bool_codec [simp]: "decodable bool_codec"
  unfolding bool_codec_def by (rule iso_codec) simp_all

lemma option_codec [simp]: "decodable c \<Longrightarrow> decodable (option_codec c)"
  unfolding option_codec_def by (rule iso_codec) (simp_all split: option.splits)

section \<open>The rows of a snapshot\<close>

definition user_codec :: "SnapshotUser codec" where
  "user_codec = iso_codec (\<lambda>u. (su_ID u, su_Username u, su_Role u, su_Status u, su_BanReason u))
     (\<lambda>(i, n, r, s, b). \<lparr>su_ID = i, su_Username = n, su_Role = r, su_Status = s, su_BanReason = b\<rparr>)
     (pair_codec int_codec (pair_codec string_codec (pair_codec string_codec (pair_codec string_codec string_codec))))"

definition token_codec :: "SnapshotToken codec" where
  "token_codec = iso_codec
     (\<lambda>t. (sn_ID t, sn_UserID t, sn_Name t, sn_TokenHash t, sn_Status t, sn_BanReason t, sn_MaxProxyCount t, sn_ExpiresAt t))
     (\<lambda>(i, u, n, h, s, b, m, e). \<lparr>sn_ID = i, sn_UserID = u, sn_Name = n, sn_TokenHash = h, sn_Status = s, sn_BanReason = b,
        sn_MaxProxyCount = m, sn_ExpiresAt = e\<rparr>)
     (pair_codec int_codec (pair_codec int_codec (pair_codec string_codec (pair_codec string_codec (pair_codec string_codec
       (pair_codec string_codec (pair_codec int_codec (option_codec int_codec))))))))"

definition resource_codec :: "UserResourcePolicy codec" where
  "resource_codec = iso_codec
     (\<lambda>p. (policy_UserID p, policy_PortStart p, policy_PortEnd p, policy_MaxPorts p, policy_AllowedProtocols p, policy_Enabled p))
     (\<lambda>(u, a, b, m, ps, e). \<lparr>policy_UserID = u, policy_PortStart = a, policy_PortEnd = b, policy_MaxPorts = m,
        policy_AllowedProtocols = ps, policy_Enabled = e\<rparr>)
     (pair_codec int_codec (pair_codec int_codec (pair_codec int_codec (pair_codec int_codec
       (pair_codec (list_codec string_codec) bool_codec)))))"

definition grant_codec :: "PortGrant codec" where
  "grant_codec = iso_codec
     (\<lambda>g. (grant_ID g, grant_TokenID g, grant_Protocol g, grant_RemotePortStart g, grant_RemotePortEnd g, grant_MaxCount g,
        grant_Domain g, grant_Subdomain g, grant_Enabled g))
     (\<lambda>(i, t, p, a, b, m, d, s, e). \<lparr>grant_ID = i, grant_TokenID = t, grant_Protocol = p, grant_RemotePortStart = a,
        grant_RemotePortEnd = b, grant_MaxCount = m, grant_Domain = d, grant_Subdomain = s, grant_Enabled = e\<rparr>)
     (pair_codec int_codec (pair_codec int_codec (pair_codec string_codec (pair_codec int_codec (pair_codec int_codec
       (pair_codec int_codec (pair_codec string_codec (pair_codec string_codec bool_codec))))))))"

definition dpi_codec :: "Policy codec" where
  "dpi_codec = iso_codec
     (\<lambda>p. (dpi_UserID p, dpi_Enabled p, dpi_Mode p, dpi_EnabledDetectors p, dpi_BlockOnAnyFinding p, dpi_AllowHTTP p, dpi_AllowTLS p,
        dpi_AllowQUIC p, dpi_AllowEncryptedTunnel p, dpi_MaxInspectBytes p, dpi_TemporaryBlockTTL p, dpi_EncryptedTunnelMode p))
     (\<lambda>(u, e, m, ds, b, h, t, q, x, i, ttl, em). \<lparr>dpi_UserID = u, dpi_Enabled = e, dpi_Mode = m, dpi_EnabledDetectors = ds,
        dpi_BlockOnAnyFinding = b, dpi_AllowHTTP = h, dpi_AllowTLS = t, dpi_AllowQUIC = q, dpi_AllowEncryptedTunnel = x,
        dpi_MaxInspectBytes = i, dpi_TemporaryBlockTTL = ttl, dpi_EncryptedTunnelMode = em\<rparr>)
     (pair_codec int_codec (pair_codec bool_codec (pair_codec string_codec (pair_codec (list_codec string_codec) (pair_codec bool_codec
       (pair_codec bool_codec (pair_codec bool_codec (pair_codec bool_codec (pair_codec bool_codec (pair_codec int_codec
         (pair_codec int_codec string_codec)))))))))))"

definition block_codec :: "BlockedIP codec" where
  "block_codec = iso_codec (\<lambda>b. (blk_IP b, blk_Reason b, blk_CreatedBy b, blk_CreatedAt b))
     (\<lambda>(i, r, c, t). \<lparr>blk_IP = i, blk_Reason = r, blk_CreatedBy = c, blk_CreatedAt = t\<rparr>)
     (pair_codec string_codec (pair_codec string_codec (pair_codec int_codec int_codec)))"

definition snapshot_codec :: "IdentitySnapshot codec" where
  "snapshot_codec = iso_codec
     (\<lambda>s. (snap_Baseline s, snap_BaselineEnd s, snap_ReplaceBlockedIPs s, snap_Incremental s, snap_RemovedUserIDs s,
        snap_NodeAccessEnforced s, snap_Revision s, snap_Users s, snap_Tokens s, snap_Policies s, snap_Grants s, snap_DPIPolicies s,
        snap_BlockedIPs s, snap_RemovedBlockedIPs s))
     (\<lambda>(b, e, rb, i, ru, a, r, us, ts, ps, gs, ds, bs, rbs). \<lparr>snap_Baseline = b, snap_BaselineEnd = e, snap_ReplaceBlockedIPs = rb,
        snap_Incremental = i, snap_RemovedUserIDs = ru, snap_NodeAccessEnforced = a, snap_Revision = r, snap_Users = us,
        snap_Tokens = ts, snap_Policies = ps, snap_Grants = gs, snap_DPIPolicies = ds, snap_BlockedIPs = bs,
        snap_RemovedBlockedIPs = rbs\<rparr>)
     (pair_codec bool_codec (pair_codec bool_codec (pair_codec bool_codec (pair_codec bool_codec (pair_codec (list_codec int_codec)
       (pair_codec bool_codec (pair_codec int_codec (pair_codec (list_codec user_codec) (pair_codec (list_codec token_codec)
         (pair_codec (list_codec resource_codec) (pair_codec (list_codec grant_codec) (pair_codec (list_codec dpi_codec)
           (pair_codec (list_codec block_codec) (list_codec string_codec))))))))))))))"

lemma user_codec [simp]: "decodable user_codec"
  unfolding user_codec_def by (rule iso_codec) simp_all

lemma token_codec [simp]: "decodable token_codec"
  unfolding token_codec_def by (rule iso_codec) simp_all

lemma resource_codec [simp]: "decodable resource_codec"
  unfolding resource_codec_def by (rule iso_codec) simp_all

lemma grant_codec [simp]: "decodable grant_codec"
  unfolding grant_codec_def by (rule iso_codec) simp_all

lemma dpi_codec [simp]: "decodable dpi_codec"
  unfolding dpi_codec_def by (rule iso_codec) simp_all

lemma block_codec [simp]: "decodable block_codec"
  unfolding block_codec_def by (rule iso_codec) simp_all

lemma snapshot_codec [simp]: "decodable snapshot_codec"
  unfolding snapshot_codec_def by (rule iso_codec) simp_all

section \<open>Encoding and decoding\<close>

definition demo_enc :: "IdentitySnapshot \<Rightarrow> string" where
  "demo_enc snap = fst snapshot_codec snap"

definition demo_dec :: "string \<Rightarrow> IdentitySnapshot option" where
  "demo_dec p = map_option fst (snd snapshot_codec p)"

lemma demo_round_trip: "demo_dec (demo_enc snap) = Some snap"
  using decodableD [OF snapshot_codec, of snap "[]"] by (simp add: demo_dec_def demo_enc_def)

lemma demo_enc_nonempty: "demo_enc snap \<noteq> []"
  by (simp add: demo_enc_def snapshot_codec_def iso_codec_def pair_codec_def bool_codec_def nat_codec_def)

end
