(* ===== verification/Identity_Liveness.thy ===== *)
theory Identity_Liveness
  imports Identity_Progress Snapshot_Codec
begin

text \<open>
  The results on the exchange of identities: what a node that believes itself synchronised holds,
  how its answers compare with the controller's data, and that synchronisation can always be
  completed.
\<close>

section \<open>A baseline runs to its end\<close>

lemma baseline_run:
  assumes "sync_inv coll enc n y" "paging coll n ses y" "ns_baselineActive ses"
    and json: "\<And>snap. dec (enc snap) = Some snap" "\<And>snap. enc snap \<noteq> []"
  shows "\<exists>y' ses'. sync_run coll jd enc dec n y y' \<and> paging coll n ses' y' \<and> same_identities (y_center y) (y_center y') \<and>
    \<not> ns_baselineActive ses' \<and> el_syncReady (y_link y')"
  using assms(1-3)
proof (induction "nat (nextUserID (y_center y) - ns_baselineCursor ses)" arbitrary: y ses rule: less_induct)
  case less
  obtain y1 ses1 where run: "sync_run coll jd enc dec n y y1" and pg: "paging coll n ses1 y1"
    and same: "same_identities (y_center y) (y_center y1)" "nextUserID (y_center y1) = nextUserID (y_center y)"
    and or: "if ns_baselineActive ses1 then ns_baselineCursor ses < ns_baselineCursor ses1 \<and> ns_baselineCursor ses1 < nextUserID (y_center y)
       else el_syncReady (y_link y1)"
    by (rule page_round [OF less.prems json])
  show ?case
  proof (cases "ns_baselineActive ses1")
    case False
    with run pg same or show ?thesis by (intro exI [of _ y1] exI [of _ ses1]) simp
  next
    case True
    with or have "nat (nextUserID (y_center y1) - ns_baselineCursor ses1) < nat (nextUserID (y_center y) - ns_baselineCursor ses)"
      by (simp add: same(2))
    from less.hyps [OF this sync_inv_run [OF run less.prems(1) json] pg True] obtain y2 ses2 where
      "sync_run coll jd enc dec n y1 y2" "paging coll n ses2 y2" "same_identities (y_center y1) (y_center y2)"
      "\<not> ns_baselineActive ses2 \<and> el_syncReady (y_link y2)" by blast
    with same(1) show ?thesis by (intro exI [of _ y2] exI [of _ ses2]) (simp add: sync_run_trans [OF _ run])
  qed
qed

text \<open>A reconnection leads to the start of a baseline, whatever the state.\<close>

lemma edge_discarded [simp]:
  "rows_free u (DiscardControlIdentityCache s)" "identityResetPending (DiscardControlIdentityCache s)"
  by (simp_all add: DiscardControlIdentityCache_def resetIdentityCache_def clear_identities_def rows_free_def Let_def)

lemma restart_run:
  assumes inv: "sync_inv coll enc n y" and json: "\<And>snap. dec (enc snap) = Some snap" "\<And>snap. enc snap \<noteq> []"
  obtains y' ses where "sync_run coll jd enc dec n y y'" "paging coll n ses y'" "ns_baselineActive ses"
    "same_identities (y_center y) (y_center y')"
proof -
  let ?sid = "''epoch''" and ?d = DiscardControlIdentityCache
  let ?ses = "new_session n [] 0 ?sid"
  let ?y1 = "y\<lparr>y_alive := False, y_link := new_link, y_down := []\<rparr>"
  have step1: "sync_step coll jd enc dec n y ?y1"
    using sync_step.drop [of "y_edge y" y coll jd enc dec n] by (cases y) simp
  let ?y2 = "?y1\<lparr>y_session := Some ?ses, y_alive := True, y_edge := ?d (y_edge y), y_down := [Welcome ?sid], y_up := []\<rparr>"
  have step2: "sync_step coll jd enc dec n ?y1 ?y2"
    using sync_step.connect [of ?y1 ?sid coll jd enc dec n "[]" 0] by (cases y) simp
  let ?l3 = "new_link\<lparr>el_connected := True, el_identityProtocol := 3, el_cacheSessionID := ?sid, el_job := Some (ResetJob ?sid)\<rparr>"
  let ?y3 = "?y2\<lparr>y_link := ?l3, y_down := []\<rparr>"
  have step3: "sync_step coll jd enc dec n ?y2 ?y3"
    using sync_step.deliver [of ?y2 "Welcome ?sid" "[]" ?l3 "[]" coll jd enc dec n]
    by (cases y) (simp add: receive_message_def receive_welcome_def queueApply_def new_link_def)
  let ?l4 = "?l3\<lparr>el_running := Some (ResetJob ?sid), el_job := None\<rparr>"
  let ?y4 = "?y3\<lparr>y_link := ?l4\<rparr>"
  have step4: "sync_step coll jd enc dec n ?y3 ?y4"
    using sync_step.take [of coll jd enc dec n ?y3] by (cases y) (simp add: take_job_def new_link_def)
  let ?l5 = "?l4\<lparr>el_running := None\<rparr>"
  let ?y5 = "?y4\<lparr>y_edge := ?d (?d (y_edge y)), y_link := ?l5, y_up := [CacheCleared ?sid]\<rparr>"
  have step5: "sync_step coll jd enc dec n ?y4 ?y5"
    using sync_step.work [of ?y4 jd 0 dec 0 "?d (?d (y_edge y))" ?l5 "[CacheCleared ?sid]" coll enc n]
    by (cases y) (simp add: run_job_def new_link_def)
  obtain st x where reset: "ResetNodeIdentityCache coll n ?sid [] (y_center y) = Inr (x, st)"
    by (simp add: ResetNodeIdentityCache_def Let_def)
  let ?ses' = "?ses\<lparr>ns_cacheReady := True, ns_baselineActive := True\<rparr>"
  let ?y6 = "?y5\<lparr>y_center := st, y_session := Some ?ses', y_up := []\<rparr>"
  have "accept_message coll 0 True (CacheCleared ?sid) (y_center y) ?ses = done_with None st ?ses' []"
    using reset by (simp add: accept_message_def acceptCacheCleared_def new_session_def)
  then have step6: "sync_step coll jd enc dec n ?y5 ?y6"
    using sync_step.accept [of ?y5 ?ses "CacheCleared ?sid" _ coll 0 True jd enc dec n]
    by (cases y) (simp add: done_with_def after_accept_def)
  have run: "sync_run coll jd enc dec n y ?y6"
    by (rule sync_run_step [OF sync_run_step [OF sync_run_step [OF sync_run_step [OF sync_run_step [OF sync_run_one
          [OF step1] step2] step3] step4] step5] step6])
  show thesis
    by (rule that [OF run, of ?ses'])
      (use reset_row [OF reset] in \<open>auto simp: paging_def link_idle_def new_session_def new_link_def rows_settled_def\<close>)
qed

lemma sync_possible:
  assumes inv: "sync_inv coll enc n y" and json: "\<And>snap. dec (enc snap) = Some snap" "\<And>snap. enc snap \<noteq> []"
  obtains y' where "sync_run coll jd enc dec n y y'" "in_epoch y'" "same_identities (y_center y) (y_center y')"
    "\<forall>u > 0. edge_identity u (y_edge y') = identity_at coll n u (y_center y')"
    "rows_settled coll n (y_center y')"
proof -
  obtain y1 ses1 where run1: "sync_run coll jd enc dec n y y1" and pg: "paging coll n ses1 y1" "ns_baselineActive ses1"
    and same: "same_identities (y_center y) (y_center y1)" by (rule restart_run [OF inv json])
  have inv1: "sync_inv coll enc n y1" by (rule sync_inv_run [OF run1 inv json])
  obtain y2 ses2 where run2: "sync_run coll jd enc dec n y1 y2" and pg2: "paging coll n ses2 y2"
    and same2: "same_identities (y_center y1) (y_center y2)" and ready: "\<not> ns_baselineActive ses2" "el_syncReady (y_link y2)"
    using baseline_run [OF inv1 pg json] by blast
  have inv2: "sync_inv coll enc n y2" by (rule sync_inv_run [OF run2 inv1 json])
  have all: "covers ses2 u" for u using ready(1) by (simp add: covers_def)
  show thesis
  proof (rule that [OF sync_run_trans [OF run2 run1]])
    show "in_epoch y2" using pg2 ready(2) by (auto simp: in_epoch_def paging_def link_idle_def)
    show "\<forall>u > 0. edge_identity u (y_edge y2) = identity_at coll n u (y_center y2)"
      using paging_mirrored(1) [OF inv2 pg2 _ all] by blast
  qed (use same same2 pg2 in \<open>simp_all add: paging_def\<close>)
qed

section \<open>Decisions about credentials\<close>

text \<open>What an identity says of a token, what the node answers, and what the controller's tables say.\<close>

definition unexpired :: "go_time \<Rightarrow> go_time option \<Rightarrow> bool" where
  "unexpired now expiry = (case expiry of None \<Rightarrow> True | Some e \<Rightarrow> time_before now e)"

definition identity_authorizes :: "go_time \<Rightarrow> int \<Rightarrow> UserIdentity \<Rightarrow> bool" where
  "identity_authorizes now tok i \<longleftrightarrow>
     (\<exists>x \<in> set (ident_Users i). user_Status x = ''active'' \<and> user_Role x = ''user'') \<and>
     (\<exists>t \<in> set (ident_Tokens i). token_ID t = tok \<and> token_Status t = ''active'' \<and> unexpired now (token_ExpiresAt t))"

definition controller_authorizes :: "collation \<Rightarrow> string \<Rightarrow> go_time \<Rightarrow> int \<Rightarrow> int \<Rightarrow> Store \<Rightarrow> bool" where
  "controller_authorizes coll n now u tok st \<longleftrightarrow> CanAccessNode coll u n st \<and>
     (\<exists>x \<in> set (users st). user_ID x = u \<and> user_Status x = ''active'' \<and> user_Role x = ''user'') \<and>
     (\<exists>t \<in> set (accessTokens st). token_ID t = tok \<and> token_UserID t = u \<and> token_Status t = ''active'' \<and>
        unexpired now (token_ExpiresAt t))"

lemma find_unique:
  assumes "distinct (map f xs)" "\<And>x. P x \<Longrightarrow> f x = k"
  shows "(\<exists>x \<in> set xs. P x \<and> Q x) \<longleftrightarrow> (case find P xs of None \<Rightarrow> False | Some x \<Rightarrow> Q x)"
proof (cases "find P xs")
  case None
  then have "\<forall>x \<in> set xs. \<not> P x" by (auto simp: find_None_iff)
  with None show ?thesis by auto
next
  case (Some y)
  then have y: "y \<in> set xs" "P y" by (auto dest: find_Some_iff')
  have one: "x = y" if "x \<in> set xs" "P x" for x
    using assms(1) assms(2) [OF that(2)] assms(2) [OF y(2)] that(1) y(1) by (auto simp: distinct_map inj_on_def)
  have "(\<exists>x \<in> set xs. P x \<and> Q x) \<longleftrightarrow> Q y" using y by (blast dest: one)
  then show ?thesis by (simp add: Some)
qed

lemma RuntimeAuthorized_identity:
  assumes wf: "cache_wf s"
  shows "RuntimeAuthorized now u tok s = None \<longleftrightarrow> identity_authorizes now tok (edge_identity u s)"
proof -
  have us: "(\<exists>x \<in> set (cachedUsers s). su_ID x = u \<and> Q x) \<longleftrightarrow>
      (case find (\<lambda>x. su_ID x = u) (cachedUsers s) of None \<Rightarrow> False | Some x \<Rightarrow> Q x)" for Q
    by (rule find_unique [where f = su_ID and k = u]) (use wf in \<open>simp_all add: cache_wf_def\<close>)
  have ts: "(\<exists>t \<in> set (cachedTokens s). (sn_ID t = tok \<and> sn_UserID t = u) \<and> Q t) \<longleftrightarrow>
      (case find (\<lambda>t. sn_ID t = tok \<and> sn_UserID t = u) (cachedTokens s) of None \<Rightarrow> False | Some t \<Rightarrow> Q t)" for Q
    by (rule find_unique [where f = sn_ID and k = tok]) (use wf in \<open>simp_all add: cache_wf_def\<close>)
  have "identity_authorizes now tok (edge_identity u s) \<longleftrightarrow>
      (\<exists>x \<in> set (cachedUsers s). su_ID x = u \<and> su_Status x = ''active'' \<and> su_Role x = ''user'') \<and>
      (\<exists>t \<in> set (cachedTokens s). (sn_ID t = tok \<and> sn_UserID t = u) \<and> sn_Status t = ''active'' \<and> unexpired now (sn_ExpiresAt t))"
    by (auto simp: identity_authorizes_def edge_identity_def rows_identity_def Let_def user_of_def access_token_of_def)
  then show ?thesis
    unfolding us ts by (auto simp: RuntimeAuthorized_def unexpired_def split: option.splits)
qed

lemma controller_authorizes_identity:
  "controller_authorizes coll n now u tok st \<longleftrightarrow> identity_authorizes now tok (identity_at coll n u st)"
proof -
  have view: "user_Status (user_view x) = user_Status x" "user_Role (user_view x) = user_Role x"
    "token_Status (token_view t) = token_Status t" "token_ExpiresAt (token_view t) = token_ExpiresAt t" for x t
    by (simp_all add: user_view_def token_view_def)
  show ?thesis
    by (auto simp: controller_authorizes_def identity_authorizes_def identity_at_def identity_data_def no_identity_def tokens_of_def
        view image_iff)
qed

section \<open>Synchronised nodes\<close>

text \<open>
  The controller of the examples has one node and one user, who holds a token and may use the node.
\<close>

definition demo_center :: Store where
  "demo_center = store_exec (\<lambda>x. x) 0 (SO_CreateAccessToken 1 ''laptop'' ''p'' ''h1'' ''pre'' 5 None)
     (store_exec (\<lambda>x. x) 0 (SO_SaveUserNodeAccess 1 [''n1'']) witness_store)"

definition demo_sync :: IdSync where
  "demo_sync = \<lparr>y_center = demo_center, y_session = None, y_alive = False, y_link = new_link, y_edge = empty_edge, y_down = [], y_up = []\<rparr>"

abbreviation demo_reach :: "IdSync \<Rightarrow> bool" where
  "demo_reach \<equiv> reach (sync_init (\<lambda>x. x) ''n1'') (sync_step (\<lambda>x. x) (\<lambda>x. x) demo_enc demo_dec ''n1'')"

lemmas demo_store_eval = demo_center_def witness_store_def empty_store_def commit_def CreateUser_def insert_user_def then_get_def
  GetUserByID_def query_row_def SaveUserNodeAccess_def insert_access_def delete_where_def update_where_def
  markUserIdentityDirtyTx_def NextIdentityRevision_def dirty_targets_def upsert_desired_def session_of_def
  CreateAccessToken_def execUserIdentityChange_def insert_token_def GetAccessTokenByID_def

lemma demo_sync_reached: "demo_reach demo_sync"
proof -
  have change: "demo_reach (demo_sync\<lparr>y_center := store_exec (\<lambda>x. x) 0 op st\<rparr>)"
    if "demo_reach (demo_sync\<lparr>y_center := st\<rparr>)" "caller_ok op st" "\<not> sync_op op" for op st
  proof -
    have "sync_step (\<lambda>x. x) (\<lambda>x. x) demo_enc demo_dec ''n1'' (demo_sync\<lparr>y_center := st\<rparr>)
        ((demo_sync\<lparr>y_center := st\<rparr>)\<lparr>y_center := store_exec (\<lambda>x. x) 0 op (y_center (demo_sync\<lparr>y_center := st\<rparr>))\<rparr>)"
      by (rule sync_step.change) (use that in simp_all)
    then show ?thesis using reach_step [OF that(1)] by simp
  qed
  have start: "demo_reach (demo_sync\<lparr>y_center := empty_store [''n1'']\<rparr>)"
    by (rule reach_init) (simp add: sync_init_def demo_sync_def store_init_def registered_def empty_store_def)
  have first: "demo_reach (demo_sync\<lparr>y_center := witness_store\<rparr>)"
    unfolding witness_store_def by (rule change [OF start]) (simp_all add: caller_ok_def sync_op_def)
  have "demo_reach (demo_sync\<lparr>y_center := demo_center\<rparr>)"
    unfolding demo_center_def
    by (rule change [OF change [OF first]]) (simp_all add: caller_ok_def sync_op_def demo_store_eval)
  then show ?thesis by (simp add: demo_sync_def)
qed

lemma settled_pending:
  assumes rows: "rows_settled coll n st" and inv: "outbox_inv coll st"
  shows "PendingNodeIdentityUsers coll n sid st = []"
proof -
  have "cache_Desired c \<le> cache_Applied c" if c: "c \<in> set (userNodeCache st)" "coll (cache_NodeID c) = coll n" for c
  proof -
    have "distinct (map (cache_key coll) (userNodeCache st))" using inv by (simp add: outbox_inv_def store_parts keyed_def)
    then have "find (\<lambda>d. cache_key coll d = (cache_UserID c, coll n)) (userNodeCache st) = Some c"
      using c find_unique [where f = "cache_key coll" and P = "\<lambda>d. cache_key coll d = (cache_UserID c, coll n)" and Q = "\<lambda>d. d = c"
          and xs = "userNodeCache st" and k = "(cache_UserID c, coll n)"]
      by (auto simp: cache_key_def split: option.splits)
    then have "row_state coll n (cache_UserID c) st = Some (cache_Applied c, cache_Desired c)"
      by (simp add: row_state_def row_look_def)
    with rows show ?thesis by (simp add: rows_settled_def)
  qed
  then show ?thesis by (auto simp: PendingNodeIdentityUsers_def filter_empty_conv not_less)
qed

lemma demo_ready:
  obtains y where "demo_reach y" "in_epoch y" "PendingNodeIdentityUsers (\<lambda>x. x) ''n1'' (el_cacheSessionID (y_link y)) (y_center y) = []"
    "identity_at (\<lambda>x. x) ''n1'' 1 (y_center y) = identity_at (\<lambda>x. x) ''n1'' 1 demo_center"
proof -
  have inv: "sync_inv (\<lambda>x. x) demo_enc ''n1'' demo_sync"
    by (rule sync_reach_inv [OF demo_sync_reached demo_round_trip demo_enc_nonempty])
  obtain y where y: "sync_run (\<lambda>x. x) (\<lambda>x. x) demo_enc demo_dec ''n1'' demo_sync y" "in_epoch y"
    "same_identities (y_center demo_sync) (y_center y)"
    "\<forall>u > 0. edge_identity u (y_edge y) = identity_at (\<lambda>x. x) ''n1'' u (y_center y)"
    "rows_settled (\<lambda>x. x) ''n1'' (y_center y)"
    by (rule sync_possible [OF inv demo_round_trip demo_enc_nonempty, where jd = "\<lambda>x. x"])
  have "demo_reach y" using y(1) demo_sync_reached by (induction rule: steps.induct) (auto intro: reach_step)
  moreover have "outbox_inv (\<lambda>x. x) (y_center y)"
    using sync_inv_run [OF y(1) inv demo_round_trip demo_enc_nonempty] by (simp add: sync_inv_def)
  ultimately show thesis using that y(2,3,5) settled_pending by (simp add: demo_sync_def)
qed

text \<open>
  C1. A node that is ready in the epoch of the controller's session holds, for every user, exactly the
  identity the controller would send it now, unless the outbox still has an unconfirmed row for that
  user; when no user is pending the cache as a whole is the controller's data. The exchange is
  arbitrary: fragments, resets, lost answers, reconnections and concurrent changes at the controller.
\<close>

theorem ready_node_matches_controller:
  assumes "reach (sync_init coll n) (sync_step coll jd enc dec n) y"
    and "\<And>snap. dec (enc snap) = Some snap" "\<And>snap. enc snap \<noteq> []" and "in_epoch y" "0 < u"
  shows "(edge_identity u (y_edge y) = identity_at coll n u (y_center y) \<or>
      (\<exists>a d. row_state coll n u (y_center y) = Some (a, d) \<and> a < d)) \<and>
    (PendingNodeIdentityUsers coll n (el_cacheSessionID (y_link y)) (y_center y) = [] \<longrightarrow>
      edge_identity u (y_edge y) = identity_at coll n u (y_center y))"
  using in_epoch_view [OF _ assms(4,5)] in_epoch_pending [OF _ assms(4) _ assms(5)] sync_reach_inv [OF assms(1-3)] by blast

theorem ready_node_matches_controller_witness:
  "\<exists>y. demo_reach y \<and> in_epoch y \<and> edge_identity 1 (y_edge y) = identity_at (\<lambda>x. x) ''n1'' 1 demo_center \<and>
    map user_Username (ident_Users (edge_identity 1 (y_edge y))) = [''ann'']"
proof -
  obtain y where y: "demo_reach y" "in_epoch y" "PendingNodeIdentityUsers (\<lambda>x. x) ''n1'' (el_cacheSessionID (y_link y)) (y_center y) = []"
    "identity_at (\<lambda>x. x) ''n1'' 1 (y_center y) = identity_at (\<lambda>x. x) ''n1'' 1 demo_center"
    by (rule demo_ready)
  have "edge_identity 1 (y_edge y) = identity_at (\<lambda>x. x) ''n1'' 1 demo_center"
    using ready_node_matches_controller [OF y(1) demo_round_trip demo_enc_nonempty y(2), of 1] y(3,4) by simp
  moreover have "map user_Username (ident_Users (identity_at (\<lambda>x. x) ''n1'' 1 demo_center)) = [''ann'']"
    by (simp add: identity_at_def identity_data_def CanAccessNode_def count_where_def user_view_def demo_store_eval)
  ultimately show ?thesis using y(1,2) by auto
qed

text \<open>
  C2. When no user is pending at a ready node, its answer about a token is the one the controller's
  tables give: the node authorises a runtime exactly when the user is active, has the role of a user
  and access to the node, and the token is theirs, active and not expired. A ban, a revoked access and
  a deleted token therefore all take effect at the node.
\<close>

theorem ready_node_authorizes:
  assumes "reach (sync_init coll n) (sync_step coll jd enc dec n) y"
    and "\<And>snap. dec (enc snap) = Some snap" "\<And>snap. enc snap \<noteq> []" and "in_epoch y" "0 < u"
    and "PendingNodeIdentityUsers coll n (el_cacheSessionID (y_link y)) (y_center y) = []"
  shows "RuntimeAuthorized now u tok (y_edge y) = None \<longleftrightarrow> controller_authorizes coll n now u tok (y_center y)"
proof -
  have inv: "sync_inv coll enc n y" by (rule sync_reach_inv [OF assms(1-3)])
  then have "cache_wf (y_edge y)" by (simp add: sync_inv_def edge_wf_def)
  with in_epoch_pending [OF inv assms(4,6,5)] show ?thesis
    by (simp add: RuntimeAuthorized_identity controller_authorizes_identity)
qed

theorem ready_node_authorizes_witness:
  "\<exists>y. demo_reach y \<and> in_epoch y \<and> RuntimeAuthorized 0 1 1 (y_edge y) = None \<and> RuntimeAuthorized 0 1 2 (y_edge y) \<noteq> None"
proof -
  obtain y where y: "demo_reach y" "in_epoch y" "PendingNodeIdentityUsers (\<lambda>x. x) ''n1'' (el_cacheSessionID (y_link y)) (y_center y) = []"
    "identity_at (\<lambda>x. x) ''n1'' 1 (y_center y) = identity_at (\<lambda>x. x) ''n1'' 1 demo_center"
    by (rule demo_ready)
  have "RuntimeAuthorized 0 1 tok (y_edge y) = None \<longleftrightarrow> controller_authorizes (\<lambda>x. x) ''n1'' 0 1 tok demo_center" for tok
    using ready_node_authorizes [OF y(1) demo_round_trip demo_enc_nonempty y(2) _ y(3), of 1 0 tok] y(4)
    by (simp add: controller_authorizes_identity)
  moreover have "controller_authorizes (\<lambda>x. x) ''n1'' 0 1 1 demo_center" "\<not> controller_authorizes (\<lambda>x. x) ''n1'' 0 1 2 demo_center"
    by (simp_all add: controller_authorizes_def CanAccessNode_def count_where_def unexpired_def demo_store_eval)
  ultimately show ?thesis using y(1,2) by blast
qed

text \<open>
  C3. Synchronisation can always be completed. From every state the system can reach there is a run that
  leaves the controller's identities as they are and after which the node is ready and holds those
  identities for all users: no interleaving of resets, losses and failures leaves the pair in a state
  from which it cannot recover.
\<close>

theorem synchronisation_completes:
  assumes "reach (sync_init coll n) (sync_step coll jd enc dec n) y"
    and "\<And>snap. dec (enc snap) = Some snap" "\<And>snap. enc snap \<noteq> []"
  shows "\<exists>y'. steps (sync_step coll jd enc dec n) y y' \<and> in_epoch y' \<and>
    (\<forall>u. identity_at coll n u (y_center y') = identity_at coll n u (y_center y)) \<and>
    (\<forall>u > 0. edge_identity u (y_edge y') = identity_at coll n u (y_center y))"
proof -
  obtain y' where "steps (sync_step coll jd enc dec n) y y'" "in_epoch y'" "same_identities (y_center y) (y_center y')"
    "\<forall>u > 0. edge_identity u (y_edge y') = identity_at coll n u (y_center y')" "rows_settled coll n (y_center y')"
    by (rule sync_possible [OF sync_reach_inv [OF assms] assms(2,3), where jd = jd])
  then show ?thesis by (intro exI [of _ y']) simp
qed

theorem synchronisation_completes_witness:
  "\<exists>y. steps (sync_step (\<lambda>x. x) (\<lambda>x. x) demo_enc demo_dec ''n1'') demo_sync y \<and> in_epoch y \<and>
    edge_identity 1 (y_edge y) = identity_at (\<lambda>x. x) ''n1'' 1 demo_center"
  using synchronisation_completes [OF demo_sync_reached demo_round_trip demo_enc_nonempty]
  by (auto simp: demo_sync_def)

end
