(* ===== verification/Node_Server.thy ===== *)
theory Node_Server
  imports Frp_Core Dpi_Service Config Node_Runtime Security Edge_Store Store_Outbox
begin

text \<open>
  The HTTP server of a node (\<open>internal/httpapi/server.go\<close>) as far as every request handler shares it:
  the configuration, the store of a controller or of an edge node, the connection manager, the
  inspection service, and the fault state of \<open>node_fault.go\<close> that decides whether new logins and
  proxies are admitted while a database or the control channel is down. A request sees one instant
  of the clock; a database call may fail, which \<open>fails\<close> decides per call.
\<close>

section \<open>State\<close>

record faultClient =
  fcl_rowID :: int
  fcl_tokenHash :: string
  fcl_tokenID :: int
  fcl_clientID :: string
  fcl_draining :: bool
  fcl_warned :: bool
  fcl_logoutSent :: bool
  fcl_lastSeen :: go_time

record nodeFaultState =
  nf_closed :: bool
  nf_databaseFailed :: bool
  nf_clients :: "(string, faultClient) go_map"
  nf_drains :: "(string, bool) go_map"
  nf_localFailed :: bool

text \<open>What the server reads of the control client of an edge node, and of a controller's control server.\<close>

record EdgeClientView =
  ecl_Connected :: bool
  ecl_SyncReady :: bool
  ecl_ControllerFault :: bool

record ControlView =
  cv_databaseSuspect :: bool
  cv_databaseFault :: bool

text \<open>A row of \<open>audit_logs\<close>; no code of the server reads the table.\<close>

record AuditEntry =
  au_actorType :: string
  au_actorID :: int
  au_action :: string
  au_targetType :: string
  au_targetID :: string
  au_message :: string

record 'e Server =
  srv_cfg :: Config
  srv_store :: "Store option"
  srv_edgeState :: "EdgeStore option"
  srv_edgeClient :: "EdgeClientView option"
  srv_control :: "ControlView option"
  srv_core :: Manager
  srv_dpi :: "'e Service"
  srv_fault :: nodeFaultState
  srv_audit :: "AuditEntry list"

text \<open>
  The database calls of the handlers. A call that fails answers \<open>Broken\<close>, an error other than
  \<open>ErrNotFound\<close>, and changes nothing.
\<close>

datatype db_call =
    Q_GetAccessTokenByHash | Q_GetUserByID | Q_CanAccessNode | Q_FindOrCreateClient | Q_GetClient
  | Q_IsClientHeartbeatFresh | Q_GetUserResourcePolicy | Q_TouchClientHeartbeat | Q_ListPortGrants
  | Q_RemotePortInUse | Q_CreateRuntimeLease | Q_GetRuntimeLease | Q_GetAccessTokenByID
  | Q_GetLeaseAllocation | Q_CountActiveProxySessions | Q_StartProxySession | Q_CloseProxySession
  | Q_UpdateClientFRPCAddress | Q_RevokeLeases | Q_CloseSessions | Q_PopCommands | Q_DeleteCommands
  | Q_ClearPresence | Q_AcknowledgeCommand | Q_ReleaseRuntimeLease | Q_ListStaleClients | Q_GetPolicy
  | Q_Credential | Q_DisconnectWarning | Q_Audit

type_synonym db_faults = "db_call \<Rightarrow> bool"

datatype 'a answer = Found 'a | Missing | Broken

definition ask :: "db_faults \<Rightarrow> db_call \<Rightarrow> db_error + 'a \<Rightarrow> 'a answer" where
  "ask fails q r =
     (if fails q then Broken
      else case r of Inr x \<Rightarrow> Found x | Inl e \<Rightarrow> if e = ErrNotFound then Missing else Broken)"

definition no_faults :: db_faults where
  "no_faults = (\<lambda>_. False)"

text \<open>
  What a request is served with: the clocks of the node and of its database, the collation of the
  database, the failing calls, and \<open>julianday\<close> of the edge database.
\<close>

record Request_Env =
  rq_now :: go_time
  rq_dbnow :: go_time
  rq_coll :: collation
  rq_fails :: db_faults
  rq_jd :: julian

text \<open>
  What a handler writes: \<open>writeError\<close>, a JSON object with \<open>ok\<close> false, or its result. \<open>writeJSON\<close> turns
  the status \<open>database_unavailable\<close> into the code 503.
\<close>

datatype 'a reply = Failure int string | Rejection int string string | Reply 'a

definition reject_json :: "int \<Rightarrow> string \<times> string \<Rightarrow> 'a reply" where
  "reject_json code r = Rejection (if fst r = ''database_unavailable'' then 503 else code) (fst r) (snd r)"

definition node_fault_reason :: string where
  "node_fault_reason = map char_of
     [0xE8, 0x8A, 0x82, 0xE7, 0x82, 0xB9, 0xE5, 0xBC, 0x82, 0xE5, 0xB8, 0xB8, 0xEF, 0xBC, 0x9A, 0xE6, 0x9A,
      0x82, 0xE4, 0xB8, 0x8D, 0xE6, 0x8E, 0xA5, 0xE5, 0x8F, 0x97, 0xE6, 0x96, 0xB0, 0xE7, 0x99, 0xBB, 0xE5,
      0xBD, 0x95, 0xE6, 0x88, 0x96, 0xE6, 0x96, 0xB0, 0xE7, 0xA9, 0xBF, 0xE9, 0x80, 0x8F, 0xE7, 0xAB, 0xAF,
      0xE5, 0x8F, 0xA3 :: nat]"

definition frp_fault_reason :: string where
  "frp_fault_reason = map char_of
     [0xE8, 0x8A, 0x82, 0xE7, 0x82, 0xB9, 0xE5, 0xBC, 0x82, 0xE5, 0xB8, 0xB8, 0xEF, 0xBC, 0x9A, 0xE7, 0xA6,
      0x81, 0xE6, 0xAD, 0xA2, 0xE6, 0x96, 0xB0, 0xE7, 0x99, 0xBB, 0xE5, 0xBD, 0x95, 0xE5, 0x92, 0x8C, 0xE6,
      0x96, 0xB0, 0xE7, 0xA9, 0xBF, 0xE9, 0x80, 0x8F, 0xE7, 0xAB, 0xAF, 0xE5, 0x8F, 0xA3 :: nat]"

definition database_reason :: string where
  "database_reason = map char_of
     [0xE8, 0x8A, 0x82, 0xE7, 0x82, 0xB9, 0xE5, 0xBC, 0x82, 0xE5, 0xB8, 0xB8, 0xEF, 0xBC, 0x9A, 0xE6, 0x95,
      0xB0, 0xE6, 0x8D, 0xAE, 0xE5, 0xBA, 0x93, 0xE6, 0x9A, 0x82, 0xE6, 0x97, 0xB6, 0xE4, 0xB8, 0x8D, 0xE5,
      0x8F, 0xAF, 0xE7, 0x94, 0xA8 :: nat]"

definition recovering_reason :: string where
  "recovering_reason = map char_of
     [0xE6, 0x95, 0xB0, 0xE6, 0x8D, 0xAE, 0xE5, 0xBA, 0x93, 0xE6, 0x9A, 0x82, 0xE6, 0x97, 0xB6, 0xE4, 0xB8,
      0x8D, 0xE5, 0x8F, 0xAF, 0xE7, 0x94, 0xA8, 0xEF, 0xBC, 0x8C, 0xE6, 0xAD, 0xA3, 0xE5, 0x9C, 0xA8, 0xE7,
      0xAD, 0x89, 0xE5, 0xBE, 0x85, 0xE6, 0x81, 0xA2, 0xE5, 0xA4, 0x8D :: nat]"

definition fault_reason :: string where
  "fault_reason = map char_of
     [0xE8, 0x8A, 0x82, 0xE7, 0x82, 0xB9, 0xE5, 0xBC, 0x82, 0xE5, 0xB8, 0xB8 :: nat]"

definition reauth_message :: string where
  "reauth_message = map char_of
     [0xE8, 0x8A, 0x82, 0xE7, 0x82, 0xB9, 0xE5, 0xBC, 0x82, 0xE5, 0xB8, 0xB8, 0xEF, 0xBC, 0x9A, 0xE6, 0x89,
      0x80, 0xE6, 0x9C, 0x89, 0xE7, 0xA9, 0xBF, 0xE9, 0x80, 0x8F, 0xE7, 0xAB, 0xAF, 0xE5, 0x8F, 0xA3, 0xE5,
      0xB7, 0xB2, 0xE5, 0x85, 0xB3, 0xE9, 0x97, 0xAD, 0xEF, 0xBC, 0x8C, 0xE8, 0xAF, 0xB7, 0xE9, 0x87, 0x8D,
      0xE6, 0x96, 0xB0, 0xE7, 0x99, 0xBB, 0xE5, 0xBD, 0x95 :: nat]"

definition warning_message :: string where
  "warning_message = map char_of
     [0xE8, 0x8A, 0x82, 0xE7, 0x82, 0xB9, 0xE5, 0xBC, 0x82, 0xE5, 0xB8, 0xB8, 0xEF, 0xBC, 0x9A, 0xE5, 0xB7,
      0xB2, 0xE5, 0xBC, 0x80, 0xE6, 0x94, 0xBE, 0xE7, 0x9A, 0x84, 0xE7, 0xA9, 0xBF, 0xE9, 0x80, 0x8F, 0xE7,
      0xAB, 0xAF, 0xE5, 0x8F, 0xA3, 0xE7, 0xBB, 0xA7, 0xE7, 0xBB, 0xAD, 0xE8, 0xBF, 0x90, 0xE8, 0xA1, 0x8C,
      0xEF, 0xBC, 0x8C, 0xE7, 0xA6, 0x81, 0xE6, 0xAD, 0xA2, 0xE6, 0x96, 0xB0, 0xE5, 0xBB, 0xBA, 0xE7, 0xAB,
      0xAF, 0xE5, 0x8F, 0xA3, 0xEF, 0xBC, 0x9B, 0xE5, 0x85, 0xA8, 0xE9, 0x83, 0xA8, 0xE5, 0x85, 0xB3, 0xE9,
      0x97, 0xAD, 0xE5, 0x90, 0x8E, 0xE5, 0xB0, 0x86, 0xE8, 0x87, 0xAA, 0xE5, 0x8A, 0xA8, 0xE7, 0x99, 0xBB,
      0xE5, 0x87, 0xBA :: nat]"

section \<open>Fault state\<close>

definition faultClientKey :: "string \<Rightarrow> string \<Rightarrow> string" where
  "faultClientKey hash cid = hash @ '':'' @ TrimSpace cid"

definition faultDrainKey :: "int \<Rightarrow> string \<Rightarrow> string" where
  "faultDrainKey tokenID cid = itoa tokenID @ '':'' @ TrimSpace cid"

definition finish_drain :: "int \<Rightarrow> string \<Rightarrow> 'e Server \<Rightarrow> 'e Server" where
  "finish_drain tokenID clientID s =
     s\<lparr>srv_core := FinishClientDrain tokenID clientID (srv_core s),
       srv_fault := (srv_fault s)\<lparr>nf_drains := AList.delete (faultDrainKey tokenID clientID) (nf_drains (srv_fault s))\<rparr>\<rparr>"

definition put_client :: "string \<Rightarrow> faultClient \<Rightarrow> 'e Server \<Rightarrow> 'e Server" where
  "put_client key c s = s\<lparr>srv_fault := (srv_fault s)\<lparr>nf_clients := AList.update key c (nf_clients (srv_fault s))\<rparr>\<rparr>"

definition rememberClient :: "go_time \<Rightarrow> string \<Rightarrow> Client \<Rightarrow> bool \<Rightarrow> 'e Server \<Rightarrow> 'e Server" where
  "rememberClient now plain client login s =
     (let hash = TokenHash plain;
          key = faultClientKey hash (client_ClientID client);
          idle = (\<lambda>t c. login \<and> \<not> nf_closed (srv_fault s) \<and> ClientProxyCount (srv_core s) t c = 0)
      in case map_of (nf_clients (srv_fault s)) key of
           Some c \<Rightarrow>
             if fcl_draining c \<and> idle (fcl_tokenID c) (fcl_clientID c)
             then put_client key (c\<lparr>fcl_draining := False, fcl_warned := False, fcl_logoutSent := False, fcl_lastSeen := now\<rparr>)
                    (finish_drain (fcl_tokenID c) (fcl_clientID c) s)
             else put_client key (c\<lparr>fcl_lastSeen := now\<rparr>) s
         | None \<Rightarrow>
             put_client key
               \<lparr>fcl_rowID = client_ID client, fcl_tokenHash = hash, fcl_tokenID = client_TokenID client,
                fcl_clientID = client_ClientID client, fcl_draining = False, fcl_warned = False,
                fcl_logoutSent = False, fcl_lastSeen = now\<rparr>
               (if idle (client_TokenID client) (client_ClientID client)
                then finish_drain (client_TokenID client) (client_ClientID client) s else s))"

definition edgeOnlineForNewSessions :: "'e Server \<Rightarrow> bool" where
  "edgeOnlineForNewSessions s \<longleftrightarrow>
     \<not> (nf_closed (srv_fault s) \<or> nf_localFailed (srv_fault s)) \<and> srv_edgeState s \<noteq> None \<and>
     (case srv_edgeClient s of
        None \<Rightarrow> False
      | Some c \<Rightarrow> ecl_Connected c \<and> ecl_SyncReady c \<and> \<not> ecl_ControllerFault c)"

definition nodeUnavailable :: "'e Server \<Rightarrow> bool" where
  "nodeUnavailable s =
     (if cfg_Mode (srv_cfg s) = ModeEdge then \<not> edgeOnlineForNewSessions s else nf_closed (srv_fault s))"

text \<open>The reset flag is read only when there is a control client, which comes with an edge store.\<close>

definition nodeUnavailableEdge :: "'e Server \<Rightarrow> bool" where
  "nodeUnavailableEdge s \<longleftrightarrow> cfg_Mode (srv_cfg s) = ModeEdge \<and>
     (case srv_edgeClient s of
        None \<Rightarrow> True
      | Some c \<Rightarrow> \<not> ecl_Connected c \<or> ecl_ControllerFault c \<or>
          (case srv_edgeState s of None \<Rightarrow> False | Some e \<Rightarrow> identityResetPending e))"

definition clientIsDraining :: "'e Server \<Rightarrow> int \<Rightarrow> string \<Rightarrow> bool" where
  "clientIsDraining s tokenID clientID \<longleftrightarrow>
     map_get False (nf_drains (srv_fault s)) (faultDrainKey tokenID clientID) \<or>
     ClientDraining (srv_core s) tokenID clientID"

definition drain_all :: "nodeFaultState \<Rightarrow> nodeFaultState" where
  "drain_all f =
     f\<lparr>nf_clients := map_rewrite (\<lambda>_ c. c\<lparr>fcl_draining := True\<rparr>) (nf_clients f),
       nf_drains := fold (\<lambda>(_, c) d. AList.update (faultDrainKey (fcl_tokenID c) (fcl_clientID c)) True d) (nf_clients f) (nf_drains f)\<rparr>"

definition transitionNodeFault :: "bool \<Rightarrow> 'e Server \<Rightarrow> 'e Server" where
  "transitionNodeFault closed s =
     (if \<not> closed \<and> srv_edgeState s \<noteq> None \<and> nf_localFailed (srv_fault s) then s
      else
        (let f = (srv_fault s)\<lparr>nf_closed := closed\<rparr>
         in s\<lparr>srv_core := SetAdmissionClosed closed (srv_core s),
              srv_dpi := SetProviderUnavailable closed (srv_edgeState s = None) (srv_dpi s),
              srv_fault := (if closed then drain_all f else f)\<rparr>))"

definition pauseDatabaseAdmission :: "'e Server \<Rightarrow> 'e Server" where
  "pauseDatabaseAdmission s =
     s\<lparr>srv_core := PauseAdmission (srv_core s), srv_dpi := SetProviderUnavailable True True (srv_dpi s),
       srv_fault := (srv_fault s)\<lparr>nf_closed := True\<rparr>\<rparr>"

definition set_suspect :: "bool \<Rightarrow> 'e Server \<Rightarrow> 'e Server" where
  "set_suspect b s = s\<lparr>srv_control := map_option (\<lambda>c. c\<lparr>cv_databaseSuspect := b\<rparr>) (srv_control s)\<rparr>"

definition set_fault :: "bool \<Rightarrow> 'e Server \<Rightarrow> 'e Server" where
  "set_fault b s = s\<lparr>srv_control := map_option (\<lambda>c. c\<lparr>cv_databaseFault := b,
     cv_databaseSuspect := (b \<and> cv_databaseSuspect c)\<rparr>) (srv_control s)\<rparr>"

text \<open>The rejection a failed database call is answered with; it also closes admission.\<close>

definition databaseRejection :: "'e Server \<Rightarrow> (string \<times> string) \<times> 'e Server" where
  "databaseRejection s = ((''database_unavailable'', database_reason), set_suspect True (pauseDatabaseAdmission s))"

section \<open>Health\<close>

text \<open>One observation of the controller's database; the zero time stands for a healthy one.\<close>

definition observeControllerDatabaseHealth :: "go_time \<Rightarrow> bool \<Rightarrow> go_time \<Rightarrow> 'e Server \<Rightarrow> go_time \<times> 'e Server" where
  "observeControllerDatabaseHealth now failed failedSince s =
     (if failed then
        (let (since, s1) = (if failedSince = 0 then (now, set_suspect True (pauseDatabaseAdmission s)) else (failedSince, s))
         in if time_sub now since \<ge> 10 * second
            then (let already = nf_databaseFailed (srv_fault s1);
                      s2 = s1\<lparr>srv_fault := (srv_fault s1)\<lparr>nf_databaseFailed := True\<rparr>\<rparr>
                  in (since, if already then s2 else transitionNodeFault True (set_fault True s2)))
            else (since, s1))
      else
        (let s1 = s\<lparr>srv_fault := (srv_fault s)\<lparr>nf_databaseFailed := False\<rparr>\<rparr>;
             recovering = nf_closed (srv_fault s) \<or> (case srv_control s of None \<Rightarrow> False | Some c \<Rightarrow> cv_databaseSuspect c)
         in (0, if recovering then transitionNodeFault False (set_fault False s1) else s1)))"

text \<open>One turn of the edge node's health loop; the store is probed once a second, \<open>Some\<close> its outcome.\<close>

definition edge_health_tick :: "bool option \<Rightarrow> 'e Server \<Rightarrow> 'e Server" where
  "edge_health_tick probe s =
     (let s1 = (case (srv_edgeState s, probe) of
                  (Some _, Some failed) \<Rightarrow> s\<lparr>srv_fault := (srv_fault s)\<lparr>nf_localFailed := failed\<rparr>\<rparr>
                | _ \<Rightarrow> s);
          closed = (case (srv_edgeClient s1, srv_edgeState s1) of
                      (Some c, Some e) \<Rightarrow> \<not> ecl_Connected c \<or> ecl_ControllerFault c \<or> identityResetPending e
                    | _ \<Rightarrow> True) \<or> nf_localFailed (srv_fault s1)
      in if nf_closed (srv_fault s1) \<noteq> closed then transitionNodeFault closed s1 else s1)"

text \<open>The controller's loop also forgets GUI sessions that are idle and have no proxy.\<close>

definition clientHeartbeatTimeout :: duration where
  "clientHeartbeatTimeout = 60 * second"

definition prune_fault_clients :: "go_time \<Rightarrow> 'e Server \<Rightarrow> 'e Server" where
  "prune_fault_clients now s =
     s\<lparr>srv_fault := (srv_fault s)\<lparr>nf_clients := map_delete_where (\<lambda>_ c.
         time_sub now (fcl_lastSeen c) > 2 * clientHeartbeatTimeout \<and>
         ClientProxyCount (srv_core s) (fcl_tokenID c) (fcl_clientID c) = 0) (nf_clients (srv_fault s))\<rparr>\<rparr>"

definition controller_health_tick :: "go_time \<Rightarrow> bool \<Rightarrow> go_time \<Rightarrow> 'e Server \<Rightarrow> go_time \<times> 'e Server" where
  "controller_health_tick now failed failedSince s =
     (let (since, s1) = (if srv_store s = None then (failedSince, s)
                         else observeControllerDatabaseHealth now failed failedSince s)
      in (since, prune_fault_clients now s1))"

section \<open>Runtime of a client\<close>

definition Audit :: "Request_Env \<Rightarrow> string \<Rightarrow> int \<Rightarrow> string \<Rightarrow> string \<Rightarrow> string \<Rightarrow> string \<Rightarrow> 'e Server \<Rightarrow> 'e Server" where
  "Audit rq actorType actorID action targetType targetID message s =
     (if rq_fails rq Q_Audit then s
      else s\<lparr>srv_audit := srv_audit s @ [\<lparr>au_actorType = actorType, au_actorID = actorID, au_action = action,
             au_targetType = targetType, au_targetID = targetID, au_message = message\<rparr>]\<rparr>)"

text \<open>The leases and the sessions are two statements; the error of the second is ignored.\<close>

definition revoke_runtime :: "Request_Env \<Rightarrow> Client \<Rightarrow> string \<Rightarrow> Store \<Rightarrow> Store" where
  "revoke_runtime rq client reason st =
     (if rq_fails rq Q_RevokeLeases then st
      else (let st' = snd (RevokeActiveRuntimeLeasesForClient (rq_coll rq) (rq_dbnow rq)
                             (client_TokenID client) (client_ClientID client) reason st)
            in if rq_fails rq Q_CloseSessions then st'\<lparr>proxySessions := proxySessions st\<rparr> else st'))"

definition terminateClientRuntime :: "Request_Env \<Rightarrow> Client \<Rightarrow> string \<Rightarrow> 'e Server \<Rightarrow> nat \<times> 'e Server" where
  "terminateClientRuntime rq client reason s =
     (let (n, core) = TerminateConnectionsForClient (client_TokenID client) (client_ClientID client) (srv_core s)
      in (n, s\<lparr>srv_store := map_option (revoke_runtime rq client reason) (srv_store s), srv_core := core\<rparr>))"

text \<open>The watchdog. An error of a call ends the round; \<open>False\<close> stands for it.\<close>

fun expire_edge_clients :: "Request_Env \<Rightarrow> Client list \<Rightarrow> EdgeStore \<Rightarrow> 'e Server \<Rightarrow> bool \<times> 'e Server" where
  "expire_edge_clients rq [] e s = (True, s\<lparr>srv_edgeState := Some e\<rparr>)"
| "expire_edge_clients rq (c # cs) e s =
     (if clientIsDraining s (client_TokenID c) (client_ClientID c) then expire_edge_clients rq cs e s
      else if rq_fails rq Q_RevokeLeases then (False, s\<lparr>srv_edgeState := Some e\<rparr>)
      else (let e1 = RevokeClient (client_TokenID c) (client_ClientID c) e
            in if rq_fails rq Q_DeleteCommands then (False, s\<lparr>srv_edgeState := Some e1\<rparr>)
               else (let e2 = snd (DeleteUnacknowledgedClientCommands (client_ID c) e1)
                     in if rq_fails rq Q_ClearPresence then (False, s\<lparr>srv_edgeState := Some e2\<rparr>)
                        else expire_edge_clients rq cs (ClearClient (client_ID c) e2)
                          (s\<lparr>srv_core := snd (TerminateConnectionsForClient (client_TokenID c) (client_ClientID c) (srv_core s))\<rparr>))))"

fun expire_clients :: "Request_Env \<Rightarrow> Client list \<Rightarrow> 'e Server \<Rightarrow> bool \<times> 'e Server" where
  "expire_clients rq [] s = (True, s)"
| "expire_clients rq (c # cs) s =
     (if clientIsDraining s (client_TokenID c) (client_ClientID c) then expire_clients rq cs s
      else (let (n, s1) = terminateClientRuntime rq c ''client heartbeat timeout'' s
            in if rq_fails rq Q_DeleteCommands then (False, s1)
               else (let deleted = (case srv_store s1 of None \<Rightarrow> 0 | Some st \<Rightarrow> fst (DeleteQueuedClientCommands (client_ID c) st));
                         s2 = s1\<lparr>srv_store := map_option (\<lambda>st. snd (DeleteQueuedClientCommands (client_ID c) st)) (srv_store s1)\<rparr>
                     in if rq_fails rq Q_ClearPresence then (False, s2)
                        else expire_clients rq cs
                          (Audit rq ''system'' 0 ''client_heartbeat_timeout'' ''client'' (itoa (client_ID c))
                             (''terminated='' @ itoa (int n) @ '' deleted_commands='' @ itoa (int deleted) @ '' cleared_presence=true'')
                             (s2\<lparr>srv_store := map_option (ClearClientPresence (client_ID c)) (srv_store s2)\<rparr>)))))"

definition enforceClientHeartbeatTimeout :: "Request_Env \<Rightarrow> 'e Server \<Rightarrow> bool \<times> 'e Server" where
  "enforceClientHeartbeatTimeout rq s =
     (if nodeUnavailable s then (True, s)
      else case srv_edgeState s of
             Some e \<Rightarrow>
               if rq_fails rq Q_ListStaleClients then (False, s)
               else expire_edge_clients rq (StaleClients (rq_jd rq) (rq_now rq - clientHeartbeatTimeout) e) e s
           | None \<Rightarrow>
               (case srv_store s of
                  None \<Rightarrow> (True, s)
                | Some st \<Rightarrow>
                    if rq_fails rq Q_ListStaleClients then (False, s)
                    else expire_clients rq (ListClientsWithStaleHeartbeat (rq_coll rq) (rq_dbnow rq) 60 st) s))"

section \<open>Requests during a fault\<close>

record clientHeartbeatRequest =
  hb_AccessToken :: string
  hb_ClientID :: string
  hb_FRPCRunning :: bool

type_synonym gui_command = "int \<times> string \<times> string"

datatype heartbeat_reply =
    HeartbeatOk "ClientCommand list"
  | EdgeHeartbeatOk "gui_command list"
  | NodeRecovering
  | NodeFault "gui_command list" int

definition nodeFaultResponse :: "'a reply" where
  "nodeFaultResponse = Rejection 503 ''node_fault'' node_fault_reason"

definition fault_commands :: "'e Server \<Rightarrow> faultClient \<Rightarrow> gui_command list \<times> faultClient" where
  "fault_commands s c =
     (if ClientProxyCount (srv_core s) (fcl_tokenID c) (fcl_clientID c) = 0 \<and> cfg_EmbeddedFRPEnabled (srv_cfg s)
      then ([(-2, ''reauth'', reauth_message)], c\<lparr>fcl_logoutSent := True\<rparr>)
      else if \<not> fcl_warned c then ([(-1, ''show_warning'', warning_message)], c\<lparr>fcl_warned := True\<rparr>)
      else ([], c))"

definition touch_presence :: "Request_Env \<Rightarrow> int \<Rightarrow> bool \<Rightarrow> 'e Server \<Rightarrow> 'e Server" where
  "touch_presence rq rowID running s =
     (if rq_fails rq Q_TouchClientHeartbeat then s
      else case srv_edgeState s of
             Some e \<Rightarrow> if nf_localFailed (srv_fault s) then s
                       else s\<lparr>srv_edgeState := Some (TouchClient (rq_now rq) rowID running e)\<rparr>
           | None \<Rightarrow> if nf_closed (srv_fault s) then s
                     else s\<lparr>srv_store := map_option (TouchClientHeartbeat (rq_dbnow rq) rowID running) (srv_store s)\<rparr>)"

definition faultHeartbeat ::
  "Request_Env \<Rightarrow> clientHeartbeatRequest \<Rightarrow> 'e Server \<Rightarrow> heartbeat_reply reply option \<times> 'e Server" where
  "faultHeartbeat rq req s =
     (let key = faultClientKey (TokenHash (hb_AccessToken req)) (hb_ClientID req);
          closed = nf_closed (srv_fault s)
      in case map_of (nf_clients (srv_fault s)) key of
           None \<Rightarrow> (if nodeUnavailable s then Some nodeFaultResponse else None, s)
         | Some c0 \<Rightarrow>
             (let fence = closed \<and> (srv_edgeState s \<noteq> None \<or> nf_databaseFailed (srv_fault s)) \<or> nodeUnavailableEdge s;
                  c1 = (if fence then c0\<lparr>fcl_draining := True\<rparr> else c0);
                  s1 = put_client key c1
                    (if fence then s\<lparr>srv_fault := (srv_fault s)\<lparr>nf_drains :=
                        AList.update (faultDrainKey (fcl_tokenID c0) (fcl_clientID c0)) True (nf_drains (srv_fault s))\<rparr>\<rparr>
                     else s)
              in if \<not> fcl_draining c1
                 then (if closed \<and> srv_edgeState s = None
                       then (Some (Reply NodeRecovering), put_client key (c1\<lparr>fcl_lastSeen := rq_now rq\<rparr>) s1)
                       else (None, s1))
                 else
                   (let count = ClientProxyCount (srv_core s) (fcl_tokenID c1) (fcl_clientID c1);
                        (commands, c2) = fault_commands s (c1\<lparr>fcl_lastSeen := rq_now rq\<rparr>)
                    in (Some (Reply (NodeFault commands count)),
                        touch_presence rq (fcl_rowID c1) (count > 0 \<or> hb_FRPCRunning req) (put_client key c2 s1)))))"

text \<open>The provider of inspection policies is the store of the node, as it is at the call.\<close>

definition GetPolicy :: "collation \<Rightarrow> Store \<Rightarrow> policy_provider" where
  "GetPolicy coll st flow =
     (let uid = (if flow_UserID flow \<le> 0 \<and> flow_LeaseID flow \<noteq> []
                 then (case GetRuntimeLeaseByLeaseID coll (flow_LeaseID flow) st of
                         Inr l \<Rightarrow> lease_UserID l | Inl _ \<Rightarrow> flow_UserID flow)
                 else flow_UserID flow)
      in if uid \<le> 0 then Inr DefaultPolicy else Inr (GetDPIPolicy uid st))"

definition node_provider :: "Request_Env \<Rightarrow> 'e Server \<Rightarrow> policy_provider" where
  "node_provider rq s flow =
     (if rq_fails rq Q_GetPolicy then Inl (OtherError ''database unavailable'')
      else case srv_edgeState s of
             Some e \<Rightarrow> GetPolicy_edge (flow_UserID flow) e
           | None \<Rightarrow> (case srv_store s of Some st \<Rightarrow> GetPolicy (rq_coll rq) st flow | None \<Rightarrow> Inr DefaultPolicy))"

definition lease_flow :: "RuntimeLease \<Rightarrow> FlowContext" where
  "lease_flow l = \<lparr>flow_UserID = lease_UserID l, flow_TokenID = lease_TokenID l, flow_ClientID = lease_ClientID l,
     flow_LeaseID = lease_LeaseID l, flow_ProxyName = [], flow_ProxyType = [], flow_RemotePort = 0,
     flow_LocalAddr = [], flow_RemoteAddr = [], flow_User = [], flow_Metas = []\<rparr>"

definition rememberRuntime :: "Request_Env \<Rightarrow> RuntimeLease \<Rightarrow> 'e Server \<Rightarrow> 'e Server" where
  "rememberRuntime rq l s =
     s\<lparr>srv_core := RememberRuntimeLease l (srv_core s),
       srv_dpi := PrimeLease (lease_flow l) (SetPolicyProvider (Some (node_provider rq s)) (srv_dpi s))\<rparr>"

definition allowFaultRuntime :: "(string, string) go_map \<Rightarrow> 'e Server \<Rightarrow> bool" where
  "allowFaultRuntime metas s =
     (let (lease, ok) = ExistingRuntime (srv_core s) (map_get [] metas ''lease_id'') (TokenHash (map_get [] metas ''token''))
      in ok \<and> (nf_closed (srv_fault s) \<or> nodeUnavailableEdge s \<or>
                clientIsDraining s (lease_TokenID lease) (lease_ClientID lease)))"

text \<open>The paths that are refused while the node is unavailable.\<close>

definition guardNodeAdmission :: "string \<Rightarrow> 'e Server \<Rightarrow> 'a reply option" where
  "guardNodeAdmission path s =
     (if path \<in> {''/api/v1/client/login'', ''/api/v1/client/resource-policy'', ''/api/v1/client/bootstrap''} \<and>
         nodeUnavailable s then Some nodeFaultResponse else None)"

end
