(* ===== verification/Client_Handlers.thy ===== *)
theory Client_Handlers
  imports Node_Server
begin

text \<open>
  The client API of a controller (\<open>internal/httpapi/handlers_client.go\<close>, \<open>handlers_client_control.go\<close> and
  \<open>handlers_lease_release.go\<close>): a request authenticates by its access token, obtains the user's
  resource policy, reports heartbeats, and bootstraps a runtime lease with the remote ports it asks for.
  The rendering of the FRP client configuration is left out of the bootstrap reply: the reply carries
  the lease, the runtime token and the allocations it is rendered from.
\<close>

section \<open>Policy engine\<close>

text \<open>\<open>NoopEngine\<close>, the engine the server is started with, allows everything.\<close>

record Decision =
  dec_Action :: string
  dec_Reason :: string

definition ActionAllow :: string where
  "ActionAllow = ''allow''"

definition Allow :: Decision where
  "Allow = \<lparr>dec_Action = ActionAllow, dec_Reason = []\<rparr>"

record BootstrapInput =
  bin_UserID :: int
  bin_TokenID :: int
  bin_ClientID :: string

record FrpLoginInput =
  lin_UserID :: int
  lin_TokenID :: int
  lin_ClientID :: string
  lin_LeaseID :: string
  lin_RunID :: string

record ProxyCreateInput =
  pci_UserID :: int
  pci_TokenID :: int
  pci_ClientID :: string
  pci_LeaseID :: string
  pci_ProxyName :: string
  pci_ProxyType :: string
  pci_RemotePort :: int
  pci_Domain :: string
  pci_Subdomain :: string

definition BeforeClientBootstrap :: "BootstrapInput \<Rightarrow> Decision" where
  "BeforeClientBootstrap _ = Allow"

definition BeforeFrpLogin :: "FrpLoginInput \<Rightarrow> Decision" where
  "BeforeFrpLogin _ = Allow"

definition BeforeProxyCreate :: "ProxyCreateInput \<Rightarrow> Decision" where
  "BeforeProxyCreate _ = Allow"

section \<open>Credentials\<close>

definition normalizeProtocol :: "string \<Rightarrow> string" where
  "normalizeProtocol value =
     (let v = ToLower (TrimSpace value)
      in if v \<in> {''tcp'', ''udp'', ''http'', ''https'', ''stcp'', ''xtcp'', ''tcpmux''} then v else [])"

definition no_permission_reason :: string where
  "no_permission_reason = map char_of
     [0xE8, 0xAF, 0xA5, 0xE8, 0xB4, 0xA6, 0xE5, 0x8F, 0xB7, 0xE6, 0xB2, 0xA1, 0xE6, 0x9C, 0x89, 0xE6, 0xAD,
      0xA4, 0xE8, 0x8A, 0x82, 0xE7, 0x82, 0xB9, 0xE7, 0x9A, 0x84, 0xE4, 0xBD, 0xBF, 0xE7, 0x94, 0xA8, 0xE6,
      0x9D, 0x83, 0xE9, 0x99, 0x90 :: nat]"

definition close_ports_reason :: string where
  "close_ports_reason = map char_of
     [0xE8, 0x8A, 0x82, 0xE7, 0x82, 0xB9, 0xE5, 0xBC, 0x82, 0xE5, 0xB8, 0xB8, 0xEF, 0xBC, 0x9A, 0xE8, 0xAF,
      0xB7, 0xE5, 0x85, 0xB3, 0xE9, 0x97, 0xAD, 0xE5, 0x85, 0xA8, 0xE9, 0x83, 0xA8, 0xE7, 0xA9, 0xBF, 0xE9,
      0x80, 0x8F, 0xE7, 0xAB, 0xAF, 0xE5, 0x8F, 0xA3, 0xE5, 0x90, 0x8E, 0xE9, 0x87, 0x8D, 0xE6, 0x96, 0xB0,
      0xE7, 0x99, 0xBB, 0xE5, 0xBD, 0x95 :: nat]"

definition policy_reason :: string where
  "policy_reason = map char_of
     [0xE8, 0xB5, 0x84, 0xE6, 0xBA, 0x90, 0xE7, 0xAD, 0x96, 0xE7, 0x95, 0xA5, 0xE5, 0xB0, 0x9A, 0xE6, 0x9C,
      0xAA, 0xE9, 0x85, 0x8D, 0xE7, 0xBD, 0xAE, 0xE6, 0x88, 0x96, 0xE5, 0xB7, 0xB2, 0xE7, 0xA6, 0x81, 0xE7,
      0x94, 0xA8, 0xEF, 0xBC, 0x8C, 0xE8, 0xAF, 0xB7, 0xE5, 0x9C, 0xA8, 0xE4, 0xB8, 0xAD, 0xE5, 0xBF, 0x83,
      0xE7, 0x94, 0xA8, 0xE6, 0x88, 0xB7, 0xE8, 0xAF, 0xA6, 0xE6, 0x83, 0x85, 0xE4, 0xB8, 0xAD, 0xE6, 0xA3,
      0x80, 0xE6, 0x9F, 0xA5, 0xE8, 0xB5, 0x84, 0xE6, 0xBA, 0x90, 0xE7, 0xAD, 0x96, 0xE7, 0x95, 0xA5, 0xE5,
      0xB9, 0xB6, 0xE4, 0xBF, 0x9D, 0xE5, 0xAD, 0x98 :: nat]"

text \<open>The state of the credential, once the token, its owner and the access to the node are read.\<close>

definition credential_rejection :: "go_time \<Rightarrow> User \<Rightarrow> AccessToken \<Rightarrow> (string \<times> string) option" where
  "credential_rejection now user token =
     (if user_Status user = ''banned'' then Some (''banned'', user_BanReason user)
      else if user_Status user \<noteq> ''active'' then Some (user_Status user, ''user is not active'')
      else if token_Status token = ''banned'' then Some (''banned'', token_BanReason token)
      else if token_Status token \<noteq> ''active'' then Some (token_Status token, ''token is not active'')
      else if (case token_ExpiresAt token of None \<Rightarrow> False | Some e \<Rightarrow> time_after now e) then Some (''expired'', ''token expired'')
      else None)"

type_synonym 'e credential = "((string \<times> string) + AccessToken \<times> User \<times> Client) \<times> 'e Server"

definition database_rejected :: "'e Server \<Rightarrow> 'e credential" where
  "database_rejected s = (let (r, s') = databaseRejection s in (Inl r, s'))"

definition admit_client ::
  "Request_Env \<Rightarrow> string \<Rightarrow> string \<Rightarrow> AccessToken \<Rightarrow> User \<Rightarrow> Client \<Rightarrow> 'e Server \<Rightarrow> 'e credential" where
  "admit_client rq path accessToken token user client s =
     (if client_Status client = ''banned'' then (Inl (''banned'', client_BanReason client), s)
      else if clientIsDraining s (client_TokenID client) (client_ClientID client) \<and> HasSuffix path ''/bootstrap''
      then (Inl (''node_fault'', close_ports_reason), s)
      else (Inr (token, user, client),
            rememberClient (rq_now rq) accessToken client (HasSuffix path ''/resource-policy'') s))"

definition find_request_client ::
  "Request_Env \<Rightarrow> string \<Rightarrow> bool \<Rightarrow> string \<Rightarrow> string \<Rightarrow> AccessToken \<Rightarrow> User \<Rightarrow> Store \<Rightarrow> 'e Server \<Rightarrow> 'e credential" where
  "find_request_client rq path createClient accessToken clientID token user st s =
     (if createClient
      then if rq_fails rq Q_FindOrCreateClient then database_rejected s
           else (case FindOrCreateClient (rq_coll rq) (rq_dbnow rq) (user_ID user) (token_ID token) clientID st of
                   Inl _ \<Rightarrow> database_rejected s
                 | Inr (client, st') \<Rightarrow> admit_client rq path accessToken token user client (s\<lparr>srv_store := Some st'\<rparr>))
      else (case ask (rq_fails rq) Q_GetClient (GetClient (rq_coll rq) (token_ID token) clientID st) of
              Broken \<Rightarrow> database_rejected s
            | Missing \<Rightarrow> (Inl (''heartbeat_required'', ''client heartbeat is required before bootstrap''), s)
            | Found client \<Rightarrow> admit_client rq path accessToken token user client s))"

definition validateAccessTokenRequestWithClientMode ::
  "Request_Env \<Rightarrow> string \<Rightarrow> bool \<Rightarrow> string \<Rightarrow> string \<Rightarrow> Store \<Rightarrow> 'e Server \<Rightarrow> 'e credential" where
  "validateAccessTokenRequestWithClientMode rq path createClient accessToken clientID st s =
     (case ask (rq_fails rq) Q_GetAccessTokenByHash (GetAccessTokenByHash (rq_coll rq) (TokenHash accessToken) st) of
        Broken \<Rightarrow> database_rejected s
      | Missing \<Rightarrow> (Inl (''unauthorized'', ''invalid access token''), s)
      | Found token \<Rightarrow>
     (case ask (rq_fails rq) Q_GetUserByID (GetUserByID (token_UserID token) st) of
        Broken \<Rightarrow> database_rejected s
      | Missing \<Rightarrow> (Inl (''unauthorized'', ''invalid token owner''), s)
      | Found user \<Rightarrow>
          if user_Role user \<noteq> ''user''
          then (Inl (''unauthorized'', ''admin accounts cannot use frp access''), s)
          else if rq_fails rq Q_CanAccessNode then database_rejected s
          else if \<not> CanAccessNode (rq_coll rq) (user_ID user) ''controller'' st
          then (Inl (''forbidden'', no_permission_reason), s)
          else (case credential_rejection (rq_now rq) user token of
                  Some r \<Rightarrow> (Inl r, s)
                | None \<Rightarrow> find_request_client rq path createClient accessToken clientID token user st s)))"

section \<open>Inspection summary\<close>

record clientDPISummary =
  sum_Enabled :: bool
  sum_Mode :: string
  sum_EnabledDetectors :: "string list"
  sum_BlockedTrafficTypes :: "string list"
  sum_AllowedTrafficTypes :: "string list"
  sum_BlockOnAnyFinding :: bool

definition traffic_types :: "string list" where
  "traffic_types = [''http'', ''tls'', ''quic'', ''encrypted_tunnel'']"

text \<open>\<open>None\<close> is the nil slice.\<close>

definition normalizeDPIDetectors :: "string list option \<Rightarrow> string list" where
  "normalizeDPIDetectors values =
     (case values of
        None \<Rightarrow> dpi_EnabledDetectors DefaultPolicy
      | Some vs \<Rightarrow>
          fold (\<lambda>v out. (let w = ToLower (TrimSpace v) in if w \<in> set traffic_types \<and> w \<notin> set out then out @ [w] else out)) vs [])"

definition dpiTypeAllowed :: "Policy \<Rightarrow> string \<Rightarrow> bool" where
  "dpiTypeAllowed p t =
     (if t = ''http'' then dpi_AllowHTTP p else if t = ''tls'' then dpi_AllowTLS p
      else if t = ''quic'' then dpi_AllowQUIC p else if t = ''encrypted_tunnel'' then dpi_AllowEncryptedTunnel p
      else True)"

text \<open>A nil slice of detectors and an empty one give the same summary, so the model has only the empty one.\<close>

definition clientDPISummaryFromPolicy :: "Policy \<Rightarrow> clientDPISummary" where
  "clientDPISummaryFromPolicy p =
     (let given = normalizeDPIDetectors (Some (dpi_EnabledDetectors p));
          detectors = (if given = [] then normalizeDPIDetectors (Some (dpi_EnabledDetectors DefaultPolicy)) else given);
          picked = (\<lambda>P. filter (\<lambda>t. t \<in> set detectors \<and> P t) traffic_types)
      in \<lparr>sum_Enabled = dpi_Enabled p,
          sum_Mode = (if dpi_Mode p = [] then ModeMonitor else dpi_Mode p),
          sum_EnabledDetectors = detectors,
          sum_BlockedTrafficTypes =
            (if \<not> dpi_Enabled p \<or> dpi_Mode p \<noteq> ModeBlock then []
             else if dpi_BlockOnAnyFinding p then detectors else picked (\<lambda>t. \<not> dpiTypeAllowed p t)),
          sum_AllowedTrafficTypes = (if dpi_Enabled p then picked (dpiTypeAllowed p) else []),
          sum_BlockOnAnyFinding = dpi_BlockOnAnyFinding p\<rparr>)"

section \<open>Proxies of a bootstrap request\<close>

definition protocolAllowed :: "string \<Rightarrow> string list \<Rightarrow> bool" where
  "protocolAllowed protocol allowedProtocols = list_ex (\<lambda>a. a = protocol) allowedProtocols"

definition grant_matches :: "ProxyAllocationInput \<Rightarrow> PortGrant \<Rightarrow> bool" where
  "grant_matches p g \<longleftrightarrow> grant_Enabled g \<and> grant_Protocol g = pin_ProxyType p \<and>
     (if pin_ProxyType p \<in> {''tcp'', ''udp''}
      then grant_RemotePortStart g \<le> pin_RemotePort p \<and> pin_RemotePort p \<le> grant_RemotePortEnd g
      else if pin_ProxyType p \<in> {''http'', ''https'', ''tcpmux''}
      then (grant_Domain g = [] \<or> grant_Domain g = pin_Domain p) \<and>
           (grant_Subdomain g = [] \<or> grant_Subdomain g = pin_Subdomain p)
      else True)"

definition matchesAnyGrant :: "ProxyAllocationInput \<Rightarrow> PortGrant list \<Rightarrow> bool" where
  "matchesAnyGrant p grants = list_ex (grant_matches p) grants"

definition trim_proxy :: "ProxyAllocationInput \<Rightarrow> ProxyAllocationInput" where
  "trim_proxy p = p\<lparr>pin_ProxyName := TrimSpace (pin_ProxyName p), pin_ProxyType := normalizeProtocol (pin_ProxyType p),
     pin_LocalIP := TrimSpace (pin_LocalIP p), pin_Domain := TrimSpace (pin_Domain p),
     pin_Subdomain := TrimSpace (pin_Subdomain p)\<rparr>"

definition default_local_ip :: "ProxyAllocationInput \<Rightarrow> ProxyAllocationInput" where
  "default_local_ip p = (if pin_LocalIP p = [] then p\<lparr>pin_LocalIP := ''127.0.0.1''\<rparr> else p)"

definition port_key :: "ProxyAllocationInput \<Rightarrow> string" where
  "port_key p = pin_ProxyType p @ '':'' @ itoa (pin_RemotePort p)"

text \<open>The text of an error of the database driver, which the replies only pass on.\<close>

definition driver_error :: string where
  "driver_error = ''database error''"

text \<open>The error of one trimmed proxy, given the names and the ports already requested.\<close>

definition proxy_error ::
  "Request_Env \<Rightarrow> Config \<Rightarrow> UserResourcePolicy \<Rightarrow> PortGrant list \<Rightarrow> int \<Rightarrow> string \<Rightarrow> Store \<Rightarrow> string list \<Rightarrow> string list
     \<Rightarrow> ProxyAllocationInput \<Rightarrow> string option" where
  "proxy_error rq cfg policy grants tokenID clientID st names ports p =
     (if pin_ProxyName p = [] \<or> pin_ProxyType p = [] \<or> pin_LocalPort p \<le> 0 \<or> pin_LocalPort p > 65535
      then Some ''proxy name, supported type and local_port are required''
      else if pin_ProxyName p \<in> set names
      then Some (''proxy name '' @ pin_ProxyName p @ '' is duplicated'')
      else if length (pin_ProxyName p) > 48 then Some ''proxy name must not exceed 48 bytes''
      else if \<not> protocolAllowed (pin_ProxyType p) (policy_AllowedProtocols policy)
      then Some (''protocol '' @ pin_ProxyType p @ '' is not enabled for this user'')
      else if pin_ProxyType p \<noteq> ''tcp'' \<and> pin_ProxyType p \<noteq> ''udp''
      then Some ''user-selected server ports currently support tcp/udp only''
      else if pin_RemotePort p < policy_PortStart policy \<or> pin_RemotePort p > policy_PortEnd policy
      then Some (''remote port '' @ itoa (pin_RemotePort p) @ '' is outside user range '' @
                 itoa (policy_PortStart policy) @ ''-'' @ itoa (policy_PortEnd policy))
      else case validateNodeRemotePort cfg (pin_RemotePort p) of
             Some e \<Rightarrow> Some e
           | None \<Rightarrow>
               if port_key p \<in> set ports
               then Some (''remote port '' @ itoa (pin_RemotePort p) @ '' is duplicated in this request'')
               else if rq_fails rq Q_RemotePortInUse then Some driver_error
               else if RemotePortInUseExceptClient (rq_coll rq) (rq_dbnow rq) (pin_ProxyType p) (pin_RemotePort p) tokenID clientID st
               then Some (''remote port '' @ itoa (pin_RemotePort p) @ '' is already in use on this node'')
               else if \<not> matchesAnyGrant p grants \<and> grants \<noteq> []
               then Some (''proxy '' @ pin_ProxyName p @ '' is not covered by token grants'')
               else None)"

text \<open>The loop over the proxies, for any check of one proxy.\<close>

fun check_proxies ::
  "(string list \<Rightarrow> string list \<Rightarrow> ProxyAllocationInput \<Rightarrow> string option) \<Rightarrow> string list \<Rightarrow> string list
     \<Rightarrow> ProxyAllocationInput list \<Rightarrow> string + ProxyAllocationInput list" where
  "check_proxies err names ports [] = Inr []"
| "check_proxies err names ports (p # ps) =
     (let q = trim_proxy p
      in case err names ports q of
           Some e \<Rightarrow> Inl e
         | None \<Rightarrow>
             (case check_proxies err (pin_ProxyName q # names) (port_key q # ports) ps of
                Inl e \<Rightarrow> Inl e
              | Inr qs \<Rightarrow> Inr (default_local_ip q # qs)))"

definition validateBootstrapProxies ::
  "Request_Env \<Rightarrow> Config \<Rightarrow> User \<Rightarrow> AccessToken \<Rightarrow> ProxyAllocationInput list \<Rightarrow> string \<Rightarrow> Store
     \<Rightarrow> string + ProxyAllocationInput list" where
  "validateBootstrapProxies rq cfg user token proxies clientID st =
     (if proxies = [] then Inl ''at least one proxy is required''
      else case ask (rq_fails rq) Q_GetUserResourcePolicy (GetUserResourcePolicy (user_ID user) st) of
             Broken \<Rightarrow> Inl policy_reason
           | Missing \<Rightarrow> Inl policy_reason
           | Found policy \<Rightarrow>
               if \<not> policy_Enabled policy then Inl policy_reason
               else if policy_MaxPorts policy > 0 \<and> int (length proxies) > policy_MaxPorts policy
               then Inl (''proxy count '' @ itoa (int (length proxies)) @ '' exceeds user limit '' @ itoa (policy_MaxPorts policy))
               else if token_MaxProxyCount token > 0 \<and> int (length proxies) > token_MaxProxyCount token
               then Inl (''proxy count '' @ itoa (int (length proxies)) @ '' exceeds token limit '' @ itoa (token_MaxProxyCount token))
               else (case intersectNodePortRange cfg (Some policy) of
                       (Some ports, True) \<Rightarrow>
                         if rq_fails rq Q_ListPortGrants then Inl (''read token grants: '' @ driver_error)
                         else check_proxies
                           (proxy_error rq cfg ports (ListPortGrants (token_ID token) st) (token_ID token) clientID st)
                           [] [] proxies
                     | _ \<Rightarrow> Inl ''node and user port ranges do not overlap''))"

section \<open>Handlers\<close>

record clientBootstrapRequest =
  boot_AccessToken :: string
  boot_ClientID :: string
  boot_Proxies :: "ProxyAllocationInput list"

record bootstrap_reply =
  br_leaseID :: string
  br_runtimeToken :: string
  br_expiresAt :: go_time
  br_expiresIn :: int
  br_allocations :: "ProxyAllocationInput list"
  br_frpServer :: string
  br_frpPort :: int
  br_tokenPrefix :: string

text \<open>\<open>int(d.Seconds())\<close>, truncated towards zero.\<close>

definition whole_seconds_of :: "duration \<Rightarrow> int" where
  "whole_seconds_of d = (if 0 \<le> d then d div second else - ((- d) div second))"

text \<open>
  \<open>rt\<close> and \<open>lr\<close> are the random bytes of the runtime token and of the lease id; \<open>None\<close> is a failing
  source of randomness.
\<close>

definition create_bootstrap_lease ::
  "Request_Env \<Rightarrow> string option \<Rightarrow> string option \<Rightarrow> string \<Rightarrow> AccessToken \<Rightarrow> User \<Rightarrow> Client \<Rightarrow> ProxyAllocationInput list
     \<Rightarrow> Store \<Rightarrow> 'e Server \<Rightarrow> bootstrap_reply reply \<times> 'e Server" where
  "create_bootstrap_lease rq rt lr clientID token user client allocations st s =
     (case (rt, lr) of
        (Some rtb, Some lrb) \<Rightarrow>
          (let (runtimeToken, runtimeHash) = NewOpaqueToken ''rt_'' rtb;
               leaseID = fst (NewOpaqueToken ''lease_'' lrb);
               ttl = cfg_RuntimeTokenTTL (srv_cfg s);
               expiresAt = rq_now rq + ttl
           in if rq_fails rq Q_CreateRuntimeLease then (Failure 500 driver_error, s)
              else case CreateRuntimeLease (rq_coll rq) leaseID (user_ID user) (token_ID token) clientID runtimeHash expiresAt allocations st of
                     Inl _ \<Rightarrow> (Failure 500 driver_error, s)
                   | Inr (_, st') \<Rightarrow>
                       (Reply \<lparr>br_leaseID = leaseID, br_runtimeToken = runtimeToken, br_expiresAt = expiresAt,
                               br_expiresIn = whole_seconds_of ttl, br_allocations = allocations,
                               br_frpServer = cfg_FRPServerAddr (srv_cfg s), br_frpPort = cfg_FRPServerPort (srv_cfg s),
                               br_tokenPrefix = TokenPrefix runtimeToken\<rparr>,
                        Audit rq ''client'' (client_ID client) ''bootstrap'' ''lease'' leaseID
                          (''allocated '' @ itoa (int (length allocations)) @ '' proxies'')
                          (s\<lparr>srv_store := Some st'\<rparr>)))
      | _ \<Rightarrow> (Failure 500 ''random source failed'', s))"

definition bootstrap_path :: string where
  "bootstrap_path = ''/api/v1/client/bootstrap''"

definition clientBootstrap ::
  "Request_Env \<Rightarrow> string option \<Rightarrow> string option \<Rightarrow> clientBootstrapRequest option \<Rightarrow> 'e Server
     \<Rightarrow> bootstrap_reply reply \<times> 'e Server" where
  "clientBootstrap rq rt lr body s =
     (case srv_store s of
        None \<Rightarrow> (Failure 503 ''system setup required'', s)
      | Some st \<Rightarrow>
     (case body of
        None \<Rightarrow> (Failure 400 ''bad request'', s)
      | Some req \<Rightarrow>
          (let clientID = TrimSpace (boot_ClientID req)
           in if boot_AccessToken req = [] \<or> clientID = []
              then (Failure 400 ''access_token and client_id are required'', s)
              else case validateAccessTokenRequestWithClientMode rq bootstrap_path False (boot_AccessToken req) clientID st s of
                     (Inl r, s1) \<Rightarrow> (reject_json 200 r, s1)
                   | (Inr (token, user, client), s1) \<Rightarrow>
                       if ask (rq_fails rq) Q_IsClientHeartbeatFresh (IsClientHeartbeatFresh (rq_dbnow rq) (client_ID client) 60 st) \<noteq> Found True
                       then (let (n, s2) = terminateClientRuntime rq client ''client heartbeat timeout'' s1
                             in (Rejection 200 ''heartbeat_timeout'' ''client heartbeat timeout, please reconnect'',
                                 Audit rq ''system'' 0 ''client_heartbeat_timeout'' ''client'' (itoa (client_ID client))
                                   (''bootstrap rejected, terminated '' @ itoa (int n)) s2))
                       else (let d = BeforeClientBootstrap \<lparr>bin_UserID = user_ID user, bin_TokenID = token_ID token, bin_ClientID = clientID\<rparr>
                             in if dec_Action d \<noteq> ActionAllow then (Rejection 200 (dec_Action d) (dec_Reason d), s1)
                                else case validateBootstrapProxies rq (srv_cfg s1) user token (boot_Proxies req) clientID st of
                                       Inl e \<Rightarrow> (Rejection 200 ''rejected'' e, s1)
                                     | Inr allocations \<Rightarrow>
                                         create_bootstrap_lease rq rt lr clientID token user client allocations st s1))))"

record resource_policy_reply =
  rp_user :: string
  rp_token :: string
  rp_policy :: UserResourcePolicy
  rp_dpi :: clientDPISummary
  rp_frpServerAddr :: string
  rp_frpServerPort :: int
  rp_frpTransportTLS :: bool

definition resource_policy_path :: string where
  "resource_policy_path = ''/api/v1/client/resource-policy''"

definition clientDPIStatus :: "Request_Env \<Rightarrow> int \<Rightarrow> Store \<Rightarrow> clientDPISummary" where
  "clientDPIStatus rq userID st =
     clientDPISummaryFromPolicy (if rq_fails rq Q_GetPolicy then DefaultPolicy else GetDPIPolicy userID st)"

text \<open>The heartbeat is touched with \<open>frpc_running\<close> as it was read, so it keeps that column.\<close>

definition resource_policy_of ::
  "Request_Env \<Rightarrow> AccessToken \<Rightarrow> User \<Rightarrow> Client \<Rightarrow> Store \<Rightarrow> 'e Server \<Rightarrow> resource_policy_reply reply \<times> 'e Server" where
  "resource_policy_of rq token user client st s =
     (case ask (rq_fails rq) Q_GetUserResourcePolicy (GetUserResourcePolicy (user_ID user) st) of
        Found policy \<Rightarrow>
          if \<not> policy_Enabled policy then (Rejection 200 ''rejected'' policy_reason, s)
          else if rq_fails rq Q_TouchClientHeartbeat then (Failure 500 driver_error, s)
          else (let st1 = TouchClientHeartbeat (rq_dbnow rq) (client_ID client) (client_FRPCRunning client) st;
                    s1 = s\<lparr>srv_store := Some st1\<rparr>;
                    cfg = srv_cfg s
                in case intersectNodePortRange cfg (Some policy) of
                     (Some p, True) \<Rightarrow>
                       (Reply \<lparr>rp_user = user_Username user, rp_token = token_Name token, rp_policy = p,
                               rp_dpi = clientDPIStatus rq (user_ID user) st1, rp_frpServerAddr = cfg_FRPServerAddr cfg,
                               rp_frpServerPort = cfg_FRPServerPort cfg, rp_frpTransportTLS = cfg_FRPTransportTLS cfg\<rparr>,
                        Audit rq ''client'' (client_ID client) ''resource_policy'' ''token'' (itoa (token_ID token)) [] s1)
                   | _ \<Rightarrow> (Rejection 200 ''rejected'' ''node and user port ranges do not overlap'', s1))
      | _ \<Rightarrow> (Rejection 200 ''rejected'' policy_reason, s))"

definition current_store :: "Store \<Rightarrow> 'e Server \<Rightarrow> Store" where
  "current_store st s = (case srv_store s of Some st' \<Rightarrow> st' | None \<Rightarrow> st)"

definition clientResourcePolicy ::
  "Request_Env \<Rightarrow> (string \<times> string) option \<Rightarrow> 'e Server \<Rightarrow> resource_policy_reply reply \<times> 'e Server" where
  "clientResourcePolicy rq body s =
     (case srv_store s of
        None \<Rightarrow> (Failure 503 ''system setup required'', s)
      | Some st \<Rightarrow>
     (case body of
        None \<Rightarrow> (Failure 400 ''bad request'', s)
      | Some (accessToken, clientID) \<Rightarrow>
          (case validateAccessTokenRequestWithClientMode rq resource_policy_path True accessToken clientID st s of
             (Inl r, s1) \<Rightarrow> (reject_json 200 r, s1)
           | (Inr (token, user, client), s1) \<Rightarrow> resource_policy_of rq token user client (current_store st s1) s1)))"

text \<open>The requests that carry a token and a client id, and what they are checked for first.\<close>

definition with_client ::
  "Request_Env \<Rightarrow> string \<Rightarrow> bool \<Rightarrow> int \<Rightarrow> string \<Rightarrow> string \<Rightarrow> Store \<Rightarrow> 'e Server
     \<Rightarrow> (AccessToken \<Rightarrow> Client \<Rightarrow> Store \<Rightarrow> 'e Server \<Rightarrow> 'r reply \<times> 'e Server) \<Rightarrow> 'r reply \<times> 'e Server" where
  "with_client rq path create code accessToken clientID st s k =
     (case validateAccessTokenRequestWithClientMode rq path create accessToken clientID st s of
        (Inl r, s1) \<Rightarrow> (reject_json code r, s1)
      | (Inr (token, _, client), s1) \<Rightarrow> k token client (current_store st s1) s1)"

definition heartbeat_path :: string where
  "heartbeat_path = ''/api/v1/client/heartbeat''"

definition clientHeartbeat ::
  "Request_Env \<Rightarrow> clientHeartbeatRequest option \<Rightarrow> 'e Server \<Rightarrow> heartbeat_reply reply \<times> 'e Server" where
  "clientHeartbeat rq body s =
     (case (srv_store s, body) of
        (None, _) \<Rightarrow> (Failure 503 ''system setup required'', s)
      | (Some _, None) \<Rightarrow> (Failure 400 ''bad request'', s)
      | (Some _, Some raw) \<Rightarrow>
          (let req = raw\<lparr>hb_ClientID := TrimSpace (hb_ClientID raw)\<rparr>
           in if hb_AccessToken req = [] \<or> hb_ClientID req = []
              then (Failure 400 ''access_token and client_id are required'', s)
              else case faultHeartbeat rq req s of
                     (Some r, s1) \<Rightarrow> (r, s1)
                   | (None, s1) \<Rightarrow>
                       (case srv_store s1 of
                          None \<Rightarrow> (Failure 503 ''system setup required'', s1)
                        | Some st \<Rightarrow>
                            with_client rq heartbeat_path True 200 (hb_AccessToken req) (hb_ClientID req) st s1
                              (\<lambda>token client st1 s2.
                                if rq_fails rq Q_TouchClientHeartbeat then (Failure 500 driver_error, s2)
                                else (let st2 = TouchClientHeartbeat (rq_dbnow rq) (client_ID client) (hb_FRPCRunning req) st1
                                      in if rq_fails rq Q_PopCommands then (Failure 500 driver_error, s2\<lparr>srv_store := Some st2\<rparr>)
                                         else (let (commands, st3) = PopQueuedClientCommands (rq_dbnow rq) (client_ID client) st2
                                               in (Reply (HeartbeatOk commands), s2\<lparr>srv_store := Some st3\<rparr>)))))))"

definition logout_path :: string where
  "logout_path = ''/api/v1/client/logout''"

text \<open>The reply counts the terminated connections and the deleted commands.\<close>

definition clientLogout ::
  "Request_Env \<Rightarrow> clientHeartbeatRequest option \<Rightarrow> 'e Server \<Rightarrow> (nat \<times> nat) reply \<times> 'e Server" where
  "clientLogout rq body s =
     (case (srv_store s, body) of
        (None, _) \<Rightarrow> (Failure 503 ''system setup required'', s)
      | (Some _, None) \<Rightarrow> (Failure 400 ''bad request'', s)
      | (Some st, Some req) \<Rightarrow>
          (let clientID = TrimSpace (hb_ClientID req)
           in if hb_AccessToken req = [] \<or> clientID = []
              then (Failure 400 ''access_token and client_id are required'', s)
              else with_client rq logout_path False 200 (hb_AccessToken req) clientID st s
                     (\<lambda>token client st1 s1.
                       let (n, s2) = terminateClientRuntime rq client ''client logout'' s1;
                           st2 = current_store st1 s2
                       in if rq_fails rq Q_DeleteCommands then (Failure 500 driver_error, s2)
                          else (let (deleted, st3) = DeleteQueuedClientCommands (client_ID client) st2
                                in if rq_fails rq Q_ClearPresence then (Failure 500 driver_error, s2\<lparr>srv_store := Some st3\<rparr>)
                                   else (Reply (n, deleted),
                                         Audit rq ''client'' (client_ID client) ''client_logout'' ''client'' (itoa (client_ID client))
                                           (''terminated='' @ itoa (int n) @ '' deleted_commands='' @ itoa (int deleted))
                                           (s2\<lparr>srv_store := Some (ClearClientPresence (client_ID client) st3)\<rparr>))))))"

text \<open>\<open>commandID\<close> is the parsed path value, \<open>None\<close> when it does not parse.\<close>

definition clientCommandACK ::
  "Request_Env \<Rightarrow> int option \<Rightarrow> clientHeartbeatRequest option \<Rightarrow> 'e Server \<Rightarrow> int reply \<times> 'e Server" where
  "clientCommandACK rq commandID body s =
     (case commandID of
        None \<Rightarrow> (Failure 400 ''invalid command id'', s)
      | Some cid \<Rightarrow>
          if cid \<le> 0 then (Failure 400 ''invalid command id'', s)
          else case body of
                 None \<Rightarrow> (Failure 400 ''bad request'', s)
               | Some req \<Rightarrow>
                   (let clientID = TrimSpace (hb_ClientID req)
                    in if hb_AccessToken req = [] \<or> clientID = []
                       then (Failure 400 ''access_token and client_id are required'', s)
                       else case srv_store s of
                              None \<Rightarrow> (Failure 503 ''system setup required'', s)
                            | Some st \<Rightarrow>
                                with_client rq (''/api/v1/client/commands/'' @ itoa cid @ ''/ack'') False 200
                                  (hb_AccessToken req) clientID st s
                                  (\<lambda>token client st1 s1.
                                    if rq_fails rq Q_AcknowledgeCommand then (Failure 500 driver_error, s1)
                                    else (case AcknowledgeClientCommand (rq_dbnow rq) cid (client_ID client) st1 of
                                            Inl e \<Rightarrow> (if e = ErrNotFound then Failure 404 ''command not found''
                                                      else Failure 500 driver_error, s1)
                                          | Inr (_, st2) \<Rightarrow> (Reply cid, s1\<lparr>srv_store := Some st2\<rparr>)))))"

definition release_path :: string where
  "release_path = ''/api/v1/client/release-lease''"

text \<open>The controller's branch; a released lease loses its connections.\<close>

definition releaseClientLease ::
  "Request_Env \<Rightarrow> (string \<times> string \<times> string) option \<Rightarrow> 'e Server \<Rightarrow> bool reply \<times> 'e Server" where
  "releaseClientLease rq body s =
     (case body of
        None \<Rightarrow> (Failure 400 ''invalid request'', s)
      | Some (accessToken, rawClientID, leaseID) \<Rightarrow>
          (let clientID = TrimSpace rawClientID
           in if accessToken = [] \<or> clientID = [] \<or> leaseID = []
              then (Failure 400 ''access_token, client_id and lease_id are required'', s)
              else case srv_store s of
                     None \<Rightarrow> (Failure 503 ''database unavailable'', s)
                   | Some st \<Rightarrow>
                       with_client rq release_path False 403 accessToken clientID st s
                         (\<lambda>token client st1 s1.
                           if rq_fails rq Q_ReleaseRuntimeLease then (Failure 500 driver_error, s1)
                           else (let (released, st2) = ReleaseRuntimeLease (rq_coll rq) leaseID (token_ID token) clientID st1;
                                     s2 = s1\<lparr>srv_store := Some st2\<rparr>
                                 in (Reply released,
                                     if released then s2\<lparr>srv_core := snd (TerminateConnectionsForLease leaseID (srv_core s2))\<rparr>
                                     else s2)))))"

end
