(* ===== verification/Frp_Plugin.thy ===== *)
theory Frp_Plugin
  imports Client_Handlers
begin

text \<open>
  The server plugin that frps asks before it admits a login, a proxy or a connection
  (\<open>internal/httpapi/handlers_frp.go\<close> and \<open>faultFRPPlugin\<close> of \<open>node_fault.go\<close>), on a controller.
\<close>

section \<open>Requests\<close>

record frpUserInfo =
  fui_User :: string
  fui_Metas :: "(string, string) go_map"
  fui_RunID :: string

record frpLoginContent =
  lc_User :: string
  lc_RunID :: string
  lc_Metas :: "(string, string) go_map"
  lc_ClientAddress :: string

record frpNewProxyContent =
  np_User :: frpUserInfo
  np_ProxyName :: string
  np_ProxyType :: string
  np_RemotePort :: int
  np_CustomDomains :: "string list"
  np_Subdomain :: string

record frpCloseProxyContent =
  cp_User :: frpUserInfo
  cp_ProxyName :: string

text \<open>
  The raw content of a request is what \<open>json.Unmarshal\<close> makes of it for each type it is read into;
  \<open>None\<close> is an error. The handlers of runtime operations ignore the error and use the metas that
  were decoded, \<open>fp_Metas\<close>.
\<close>

record frpPluginRequest =
  fp_Op :: string
  fp_AsUser :: "(string, string) go_map option"
  fp_AsLogin :: "frpLoginContent option"
  fp_AsNewProxy :: "frpNewProxyContent option"
  fp_AsCloseProxy :: "frpCloseProxyContent option"
  fp_Metas :: "(string, string) go_map"

datatype frpPluginResponse = FrpAllowed | FrpRejected string

definition frpAllow :: frpPluginResponse where
  "frpAllow = FrpAllowed"

definition frpReject :: "string \<Rightarrow> frpPluginResponse" where
  "frpReject reason = FrpRejected (if TrimSpace reason = [] then ''rejected by policy'' else reason)"

definition new_port_reason :: string where
  "new_port_reason = map char_of
     [0xE8, 0x8A, 0x82, 0xE7, 0x82, 0xB9, 0xE5, 0xBC, 0x82, 0xE5, 0xB8, 0xB8, 0xEF, 0xBC, 0x9A, 0xE7, 0xA6,
      0x81, 0xE6, 0xAD, 0xA2, 0xE5, 0xBC, 0x80, 0xE5, 0x90, 0xAF, 0xE6, 0x96, 0xB0, 0xE7, 0xA9, 0xBF, 0xE9,
      0x80, 0x8F, 0xE7, 0xAB, 0xAF, 0xE5, 0x8F, 0xA3 :: nat]"

section \<open>Helpers\<close>

definition clientAddressHost :: "string \<Rightarrow> string" where
  "clientAddressHost addr =
     (let a = TrimSpace addr in case SplitHostPort a of Some (host, _) \<Rightarrow> host | None \<Rightarrow> a)"

definition first_value :: "string list \<Rightarrow> string" where
  "first_value values = (case values of [] \<Rightarrow> [] | v # _ \<Rightarrow> TrimSpace v)"

definition stripFRPUserProxyPrefix :: "int \<Rightarrow> string \<Rightarrow> string \<Rightarrow> string" where
  "stripFRPUserProxyPrefix userID proxyName leaseID =
     TrimPrefix (TrimPrefix proxyName (''u'' @ itoa userID @ ''.'')) (leaseID @ ''.'')"

text \<open>The connections are listed with those that have timed out dropped, as \<open>ListConnections\<close> does.\<close>

definition coreClientAddress :: "go_time \<Rightarrow> string \<Rightarrow> 'e Server \<Rightarrow> string" where
  "coreClientAddress now leaseID s =
     (case find (\<lambda>c. ac_LeaseID c = leaseID \<and> ac_ClientAddr c \<noteq> []) (ListConnections now (10 * second) (srv_core s)) of
        Some c \<Rightarrow> ac_ClientAddr c
      | None \<Rightarrow> [])"

definition faultFRPPlugin :: "frpPluginRequest \<Rightarrow> 'e Server \<Rightarrow> frpPluginResponse option" where
  "faultFRPPlugin req s =
     (if fp_Op req = ''Login'' \<or> fp_Op req = ''NewProxy''
      then (if nodeUnavailable s then Some (frpReject frp_fault_reason) else None)
      else if fp_Op req \<noteq> ''Ping'' \<and> fp_Op req \<noteq> ''NewWorkConn'' \<and> fp_Op req \<noteq> ''NewUserConn'' then None
      else case fp_AsUser req of
             None \<Rightarrow> None
           | Some metas \<Rightarrow> if allowFaultRuntime metas s then Some frpAllow else None)"

section \<open>Validation of a runtime\<close>

definition database_down :: "'e Server \<Rightarrow> (string + RuntimeLease) \<times> 'e Server" where
  "database_down s = (Inl ''node database unavailable'', snd (databaseRejection s))"

text \<open>The reason for a row that is missing or not active: its ban reason, if it is banned with one.\<close>

definition inactive_reason :: "string \<Rightarrow> string \<Rightarrow> string \<Rightarrow> string" where
  "inactive_reason status ban otherwise = (if status = ''banned'' \<and> ban \<noteq> [] then ban else otherwise)"

definition validate_runtime_client ::
  "Request_Env \<Rightarrow> RuntimeLease \<Rightarrow> Store \<Rightarrow> 'e Server \<Rightarrow> (string + RuntimeLease) \<times> 'e Server" where
  "validate_runtime_client rq lease st s =
     (case ask (rq_fails rq) Q_GetClient (GetClient (rq_coll rq) (lease_TokenID lease) (lease_ClientID lease) st) of
        Broken \<Rightarrow> database_down s
      | Missing \<Rightarrow> (Inl ''client is not active'', s)
      | Found client \<Rightarrow>
          if client_Status client \<noteq> ''active''
          then (Inl (inactive_reason (client_Status client) (client_BanReason client) ''client is not active''), s)
          else (case ask (rq_fails rq) Q_IsClientHeartbeatFresh (IsClientHeartbeatFresh (rq_dbnow rq) (client_ID client) 60 st) of
                  Found True \<Rightarrow> (Inr lease, s)
                | Found False \<Rightarrow> (Inl ''client heartbeat timeout'', snd (terminateClientRuntime rq client ''client heartbeat timeout'' s))
                | _ \<Rightarrow> database_down s))"

definition validate_runtime_token ::
  "Request_Env \<Rightarrow> RuntimeLease \<Rightarrow> Store \<Rightarrow> 'e Server \<Rightarrow> (string + RuntimeLease) \<times> 'e Server" where
  "validate_runtime_token rq lease st s =
     (case ask (rq_fails rq) Q_GetAccessTokenByID (GetAccessTokenByID (lease_TokenID lease) st) of
        Broken \<Rightarrow> database_down s
      | Missing \<Rightarrow> (Inl ''token is not active'', s)
      | Found token \<Rightarrow>
          if token_Status token \<noteq> ''active''
          then (Inl (inactive_reason (token_Status token) (token_BanReason token) ''token is not active''), s)
          else if (case token_ExpiresAt token of None \<Rightarrow> False | Some e \<Rightarrow> \<not> time_before (rq_now rq) e)
          then (Inl ''access token expired'', s)
          else validate_runtime_client rq lease st s)"

text \<open>The access to the node is read before the user's own state decides.\<close>

definition validate_runtime_user ::
  "Request_Env \<Rightarrow> RuntimeLease \<Rightarrow> Store \<Rightarrow> 'e Server \<Rightarrow> (string + RuntimeLease) \<times> 'e Server" where
  "validate_runtime_user rq lease st s =
     (case ask (rq_fails rq) Q_GetUserByID (GetUserByID (lease_UserID lease) st) of
        Broken \<Rightarrow> database_down s
      | answer \<Rightarrow>
          if rq_fails rq Q_CanAccessNode then database_down s
          else if \<not> CanAccessNode (rq_coll rq) (lease_UserID lease) ''controller'' st
          then (Inl ''node access denied'', s)
          else (case answer of
                  Found user \<Rightarrow>
                    if user_Status user \<noteq> ''active''
                    then (Inl (inactive_reason (user_Status user) (user_BanReason user) ''user is not active''), s)
                    else validate_runtime_token rq lease st s
                | _ \<Rightarrow> (Inl ''user is not active'', s)))"

definition validateRuntime ::
  "Request_Env \<Rightarrow> (string, string) go_map \<Rightarrow> Store \<Rightarrow> 'e Server \<Rightarrow> (string + RuntimeLease) \<times> 'e Server" where
  "validateRuntime rq metas st s =
     (let runtimeToken = map_get [] metas ''token''; leaseID = map_get [] metas ''lease_id''
      in if runtimeToken = [] \<or> leaseID = [] then (Inl ''missing runtime token or lease_id'', s)
         else case ask (rq_fails rq) Q_GetRuntimeLease (GetRuntimeLeaseByTokenHash (rq_coll rq) (TokenHash runtimeToken) st) of
                Missing \<Rightarrow> (Inl ''invalid runtime token'', s)
              | Broken \<Rightarrow> database_down s
              | Found lease \<Rightarrow>
                  if lease_LeaseID lease \<noteq> leaseID then (Inl ''runtime token and lease_id mismatch'', s)
                  else if lease_Status lease \<noteq> ''active'' \<or> time_after (rq_now rq) (lease_ExpiresAt lease)
                  then (Inl ''runtime lease expired or inactive'', s)
                  else validate_runtime_user rq lease st s)"

section \<open>Operations\<close>

definition handleFrpLogin ::
  "Request_Env \<Rightarrow> frpLoginContent option \<Rightarrow> Store \<Rightarrow> 'e Server \<Rightarrow> frpPluginResponse \<times> 'e Server" where
  "handleFrpLogin rq raw st s =
     (case raw of
        None \<Rightarrow> (frpReject ''bad Login content'', s)
      | Some content \<Rightarrow>
          (case validateRuntime rq (lc_Metas content) st s of
             (Inl reason, s1) \<Rightarrow> (frpReject reason, s1)
           | (Inr lease, s1) \<Rightarrow>
               (let d = BeforeFrpLogin \<lparr>lin_UserID = lease_UserID lease, lin_TokenID = lease_TokenID lease,
                          lin_ClientID = lease_ClientID lease, lin_LeaseID = lease_LeaseID lease, lin_RunID = lc_RunID content\<rparr>
                in if dec_Action d \<noteq> ActionAllow then (frpReject (dec_Reason d), s1)
                   else (let address = clientAddressHost (lc_ClientAddress content);
                             s2 = rememberRuntime rq lease s1;
                             s3 = s2\<lparr>srv_core := SetLeaseClientAddress (lease_LeaseID lease) address (srv_core s2)\<rparr>
                         in (frpAllow,
                             if address = [] \<or> rq_fails rq Q_UpdateClientFRPCAddress then s3
                             else s3\<lparr>srv_store := map_option
                                (UpdateClientFRPCAddress (rq_coll rq) (lease_TokenID lease) (lease_ClientID lease) address) (srv_store s3)\<rparr>)))))"

text \<open>The checks of a new proxy after its lease; \<open>None\<close> when it may start.\<close>

definition new_proxy_rejection ::
  "Request_Env \<Rightarrow> RuntimeLease \<Rightarrow> frpNewProxyContent \<Rightarrow> Store \<Rightarrow> 'e Server \<Rightarrow> string option" where
  "new_proxy_rejection rq lease content st s =
     (let proxyType = normalizeProtocol (np_ProxyType content);
          domain = first_value (np_CustomDomains content);
          subdomain = TrimSpace (np_Subdomain content);
          name = stripFRPUserProxyPrefix (lease_UserID lease) (np_ProxyName content) (lease_LeaseID lease)
      in if clientIsDraining s (lease_TokenID lease) (lease_ClientID lease) then Some new_port_reason
         else if proxyType = [] then Some ''unsupported proxy type''
         else case ask (rq_fails rq) Q_GetLeaseAllocation
                (GetLeaseAllocation (rq_coll rq) (lease_LeaseID lease) name proxyType (np_RemotePort content) domain subdomain st) of
                Found _ \<Rightarrow>
                  (case ask (rq_fails rq) Q_GetAccessTokenByID (GetAccessTokenByID (lease_TokenID lease) st) of
                     Found token \<Rightarrow>
                       if token_Status token \<noteq> ''active'' then Some ''token is not active''
                       else if rq_fails rq Q_CountActiveProxySessions then Some ''failed to count active proxies''
                       else if token_MaxProxyCount token > 0 \<and> int (CountActiveProxySessions (lease_TokenID lease) st) \<ge> token_MaxProxyCount token
                       then Some (''token max proxy count '' @ itoa (token_MaxProxyCount token) @ '' reached'')
                       else (let d = BeforeProxyCreate \<lparr>pci_UserID = lease_UserID lease, pci_TokenID = lease_TokenID lease,
                                       pci_ClientID = lease_ClientID lease, pci_LeaseID = lease_LeaseID lease,
                                       pci_ProxyName = np_ProxyName content, pci_ProxyType = proxyType,
                                       pci_RemotePort = np_RemotePort content, pci_Domain = domain, pci_Subdomain = subdomain\<rparr>
                             in if dec_Action d \<noteq> ActionAllow then Some (dec_Reason d)
                                else if rq_fails rq Q_StartProxySession then Some ''failed to record proxy session''
                                else None)
                   | _ \<Rightarrow> Some ''token is not active'')
              | _ \<Rightarrow> Some ''proxy is not allocated by current lease'')"

definition start_proxy ::
  "Request_Env \<Rightarrow> RuntimeLease \<Rightarrow> frpNewProxyContent \<Rightarrow> 'e Server \<Rightarrow> 'e Server" where
  "start_proxy rq lease content s =
     (let proxyType = normalizeProtocol (np_ProxyType content);
          s1 = s\<lparr>srv_store := map_option (StartProxySession (rq_coll rq) lease (np_ProxyName content) proxyType
                  (np_RemotePort content) (first_value (np_CustomDomains content)) (TrimSpace (np_Subdomain content))
                  (fui_RunID (np_User content))) (srv_store s)\<rparr>
      in s1\<lparr>srv_core := BindProxy
           \<lparr>pb_UserID = lease_UserID lease, pb_TokenID = lease_TokenID lease, pb_ClientID = lease_ClientID lease,
            pb_ClientAddr = coreClientAddress (rq_now rq) (lease_LeaseID lease) s1, pb_LeaseID = lease_LeaseID lease,
            pb_ProxyName = np_ProxyName content, pb_ProxyType = proxyType, pb_RemotePort = np_RemotePort content\<rparr>
           (srv_core s1)\<rparr>)"

definition handleFrpNewProxy ::
  "Request_Env \<Rightarrow> frpNewProxyContent option \<Rightarrow> Store \<Rightarrow> 'e Server \<Rightarrow> frpPluginResponse \<times> 'e Server" where
  "handleFrpNewProxy rq raw st s =
     (case raw of
        None \<Rightarrow> (frpReject ''bad NewProxy content'', s)
      | Some content \<Rightarrow>
          (case validateRuntime rq (fui_Metas (np_User content)) st s of
             (Inl reason, s1) \<Rightarrow> (frpReject reason, s1)
           | (Inr lease, s1) \<Rightarrow>
               (case new_proxy_rejection rq lease content st s1 of
                  Some reason \<Rightarrow> (frpReject reason, s1)
                | None \<Rightarrow> (frpAllow, start_proxy rq lease content s1))))"

definition handleFrpCloseProxy ::
  "Request_Env \<Rightarrow> frpCloseProxyContent option \<Rightarrow> 'e Server \<Rightarrow> frpPluginResponse \<times> 'e Server" where
  "handleFrpCloseProxy rq raw s =
     (frpAllow,
      case raw of
        None \<Rightarrow> s
      | Some content \<Rightarrow>
          (let leaseID = map_get [] (fui_Metas (cp_User content)) ''lease_id''
           in if leaseID = [] \<or> cp_ProxyName content = [] then s
              else s\<lparr>srv_store := (if rq_fails rq Q_CloseProxySession then srv_store s
                       else map_option (CloseProxySession (rq_coll rq) (rq_dbnow rq) leaseID (cp_ProxyName content) ''frp close proxy'') (srv_store s)),
                     srv_core := UnbindProxy leaseID (cp_ProxyName content) (srv_core s)\<rparr>))"

definition handleFrpRuntimeKeepalive ::
  "Request_Env \<Rightarrow> (string, string) go_map \<Rightarrow> Store \<Rightarrow> 'e Server \<Rightarrow> frpPluginResponse \<times> 'e Server" where
  "handleFrpRuntimeKeepalive rq metas st s =
     (case validateRuntime rq metas st s of
        (Inr _, s1) \<Rightarrow> (frpAllow, s1)
      | (Inl reason, s1) \<Rightarrow>
          (if reason = ''node database unavailable'' \<and> allowFaultRuntime metas s1 then frpAllow else frpReject reason, s1))"

text \<open>\<open>None\<close> for a body that is not a request.\<close>

definition frpPlugin :: "Request_Env \<Rightarrow> frpPluginRequest option \<Rightarrow> 'e Server \<Rightarrow> frpPluginResponse \<times> 'e Server" where
  "frpPlugin rq body s =
     (case (srv_store s, body) of
        (None, _) \<Rightarrow> (frpReject ''system setup required'', s)
      | (Some _, None) \<Rightarrow> (frpReject ''bad plugin request'', s)
      | (Some st, Some req) \<Rightarrow>
          (case faultFRPPlugin req s of
             Some r \<Rightarrow> (r, s)
           | None \<Rightarrow>
               if fp_Op req = ''Login'' then handleFrpLogin rq (fp_AsLogin req) st s
               else if fp_Op req = ''NewProxy'' then handleFrpNewProxy rq (fp_AsNewProxy req) st s
               else if fp_Op req = ''CloseProxy'' then handleFrpCloseProxy rq (fp_AsCloseProxy req) s
               else if fp_Op req \<in> {''Ping'', ''NewWorkConn'', ''NewUserConn''}
               then handleFrpRuntimeKeepalive rq (fp_Metas req) st s
               else (frpAllow, s)))"

end
