(* ===== verification/Edge_Handlers.thy ===== *)
theory Edge_Handlers
  imports Frp_Plugin
begin

text \<open>
  The client API and the frps plugin of an edge node (\<open>internal/httpapi/handlers_edge_client.go\<close>),
  which answer from the local copy of the identities.
\<close>

definition edge_disconnected_reason :: string where
  "edge_disconnected_reason = map char_of
     [0xE8, 0xBE, 0xB9, 0xE7, 0xBC, 0x98, 0xE6, 0x8E, 0xA7, 0xE5, 0x88, 0xB6, 0xE9, 0x80, 0x9A, 0xE9, 0x81,
      0x93, 0xE4, 0xB8, 0x8D, 0xE5, 0x8F, 0xAF, 0xE7, 0x94, 0xA8, 0xE6, 0x88, 0x96, 0xE7, 0x94, 0xA8, 0xE6,
      0x88, 0xB7, 0xE4, 0xBF, 0xA1, 0xE6, 0x81, 0xAF, 0xE6, 0xAD, 0xA3, 0xE5, 0x9C, 0xA8, 0xE5, 0x90, 0x8C,
      0xE6, 0xAD, 0xA5, 0xEF, 0xBC, 0x8C, 0xE8, 0xAF, 0xB7, 0xE7, 0xA8, 0x8D, 0xE5, 0x90, 0x8E, 0xE9, 0x87,
      0x8D, 0xE8, 0xAF, 0x95 :: nat]"

definition edge_database_reason :: string where
  "edge_database_reason = map char_of
     [0xE8, 0x8A, 0x82, 0xE7, 0x82, 0xB9, 0xE5, 0xBC, 0x82, 0xE5, 0xB8, 0xB8, 0xEF, 0xBC, 0x9A, 0xE6, 0x9C,
      0xAC, 0xE5, 0x9C, 0xB0, 0x20, 0x64, 0x61, 0x74, 0x61, 0x20, 0xE6, 0x95, 0xB0, 0xE6, 0x8D, 0xAE, 0xE5,
      0xBA, 0x93, 0xE6, 0x9A, 0x82, 0xE6, 0x97, 0xB6, 0xE4, 0xB8, 0x8D, 0xE5, 0x8F, 0xAF, 0xE7, 0x94, 0xA8 :: nat]"

definition edge_policy_reason :: string where
  "edge_policy_reason = map char_of
     [0xE8, 0xB5, 0x84, 0xE6, 0xBA, 0x90, 0xE7, 0xAD, 0x96, 0xE7, 0x95, 0xA5, 0xE6, 0x9C, 0xAA, 0xE5, 0x90,
      0x8C, 0xE6, 0xAD, 0xA5, 0xE6, 0x88, 0x96, 0xE5, 0xB7, 0xB2, 0xE7, 0xA6, 0x81, 0xE7, 0x94, 0xA8, 0xEF,
      0xBC, 0x8C, 0xE8, 0xAF, 0xB7, 0xE6, 0xA3, 0x80, 0xE6, 0x9F, 0xA5, 0xE4, 0xB8, 0xAD, 0xE5, 0xBF, 0x83,
      0xE7, 0x94, 0xA8, 0xE6, 0x88, 0xB7, 0xE8, 0xB5, 0x84, 0xE6, 0xBA, 0x90, 0xE7, 0xAD, 0x96, 0xE7, 0x95,
      0xA5, 0xEF, 0xBC, 0x9B, 0xE5, 0x88, 0x9A, 0xE4, 0xBF, 0x9D, 0xE5, 0xAD, 0x98, 0xE5, 0x90, 0x8E, 0xE8,
      0xAF, 0xB7, 0xE7, 0xA8, 0x8D, 0xE5, 0x80, 0x99, 0xE9, 0x87, 0x8D, 0xE6, 0x96, 0xB0, 0xE9, 0x80, 0x89,
      0xE6, 0x8B, 0xA9, 0xE8, 0x8A, 0x82, 0xE7, 0x82, 0xB9 :: nat]"

definition edge_lost_message :: string where
  "edge_lost_message = map char_of
     [0xE8, 0xBE, 0xB9, 0xE7, 0xBC, 0x98, 0xE8, 0x8A, 0x82, 0xE7, 0x82, 0xB9, 0xE4, 0xB8, 0x8E, 0xE4, 0xB8,
      0xAD, 0xE5, 0xBF, 0x83, 0xE8, 0x8A, 0x82, 0xE7, 0x82, 0xB9, 0xE5, 0xA4, 0xB1, 0xE8, 0x81, 0x94, 0xE6,
      0x88, 0x96, 0xE6, 0xAD, 0xA3, 0xE5, 0x9C, 0xA8, 0xE5, 0x90, 0x8C, 0xE6, 0xAD, 0xA5, 0xEF, 0xBC, 0x9B,
      0xE6, 0x9A, 0x82, 0xE6, 0x97, 0xB6, 0xE6, 0x97, 0xA0, 0xE6, 0xB3, 0x95, 0xE6, 0x96, 0xB0, 0xE5, 0xBB,
      0xBA, 0xE8, 0xBF, 0x9E, 0xE6, 0x8E, 0xA5, 0xEF, 0xBC, 0x8C, 0xE9, 0x83, 0xA8, 0xE5, 0x88, 0x86, 0xE4,
      0xB8, 0x9A, 0xE5, 0x8A, 0xA1, 0xE8, 0xBF, 0x9E, 0xE6, 0x8E, 0xA5, 0xE5, 0x8F, 0xAF, 0xE8, 0x83, 0xBD,
      0xE9, 0x9C, 0x80, 0xE8, 0xA6, 0x81, 0xE7, 0xAD, 0x89, 0xE5, 0xBE, 0x85, 0xE5, 0x90, 0x8C, 0xE6, 0xAD,
      0xA5, 0xE5, 0x90, 0x8E, 0xE9, 0x87, 0x8D, 0xE8, 0xBF, 0x9E, 0xE3, 0x80, 0x82 :: nat]"

section \<open>Credentials\<close>

definition edgeDisconnected :: "'a reply" where
  "edgeDisconnected = Rejection 503 ''edge_controller_disconnected'' edge_disconnected_reason"

definition edgeCredential ::
  "Request_Env \<Rightarrow> string \<Rightarrow> string \<Rightarrow> string \<Rightarrow> bool \<Rightarrow> 'e Server \<Rightarrow> 'e credential" where
  "edgeCredential rq path plain clientID create s =
     (case srv_edgeState s of
        None \<Rightarrow> (Inl (''error'', ''edge state is unavailable''), s)
      | Some e \<Rightarrow>
          if rq_fails rq Q_Credential then (Inl (''database_unavailable'', edge_database_reason), transitionNodeFault True s)
          else (case Credential (TokenHash plain) (TrimSpace clientID) create e of
                  Inl err \<Rightarrow>
                    if err = EdgeNoRows then (Inl (''unauthorized'', ''invalid access token''), s)
                    else (Inl (''database_unavailable'', edge_database_reason), transitionNodeFault True s)
                | Inr ((t, u, c), e1) \<Rightarrow>
                    (let s1 = s\<lparr>srv_edgeState := Some e1\<rparr>
                     in case ValidateCredential (rq_now rq) t u c of
                          Some reason \<Rightarrow> (Inl (''rejected'', reason), s1)
                        | None \<Rightarrow>
                            if clientIsDraining s1 (client_TokenID c) (client_ClientID c) \<and> HasSuffix path ''/bootstrap''
                            then (Inl (''node_fault'', close_ports_reason), s1)
                            else (Inr (t, u, c), rememberClient (rq_now rq) plain c (HasSuffix path ''/resource-policy'') s1))))"

text \<open>What follows a credential runs on the edge store the credential left.\<close>

definition with_edge_client ::
  "Request_Env \<Rightarrow> string \<Rightarrow> bool \<Rightarrow> int \<Rightarrow> string \<Rightarrow> string \<Rightarrow> 'e Server
     \<Rightarrow> (AccessToken \<Rightarrow> User \<Rightarrow> Client \<Rightarrow> EdgeStore \<Rightarrow> 'e Server \<Rightarrow> 'r reply \<times> 'e Server) \<Rightarrow> 'r reply \<times> 'e Server" where
  "with_edge_client rq path create code plain clientID s k =
     (case edgeCredential rq path plain clientID create s of
        (Inl r, s1) \<Rightarrow> (reject_json code r, s1)
      | (Inr (t, u, c), s1) \<Rightarrow>
          (case srv_edgeState s1 of
             None \<Rightarrow> (Failure 500 driver_error, s1)
           | Some e \<Rightarrow> k t u c e s1))"

section \<open>Bootstrap\<close>

definition edge_policy_of :: "Request_Env \<Rightarrow> int \<Rightarrow> EdgeStore \<Rightarrow> UserResourcePolicy option" where
  "edge_policy_of rq userID e =
     (if rq_fails rq Q_GetUserResourcePolicy then None
      else case Policy_edge userID e of None \<Rightarrow> None | Some p \<Rightarrow> if policy_Enabled p then Some p else None)"

definition edgeClientResourcePolicy ::
  "Request_Env \<Rightarrow> (string \<times> string) option \<Rightarrow> 'e Server \<Rightarrow> resource_policy_reply reply \<times> 'e Server" where
  "edgeClientResourcePolicy rq body s =
     (if \<not> edgeOnlineForNewSessions s then (edgeDisconnected, s)
      else case body of
             None \<Rightarrow> (Failure 400 ''bad request'', s)
           | Some (accessToken, clientID) \<Rightarrow>
               with_edge_client rq resource_policy_path True 200 accessToken clientID s
                 (\<lambda>t u c e s1.
                   case edge_policy_of rq (user_ID u) e of
                     None \<Rightarrow> (Rejection 200 ''rejected'' edge_policy_reason, s1)
                   | Some policy \<Rightarrow>
                       (let e1 = (if rq_fails rq Q_TouchClientHeartbeat then e else TouchClientSeen (rq_now rq) (client_ID c) e);
                            s2 = s1\<lparr>srv_edgeState := Some e1\<rparr>;
                            cfg = srv_cfg s
                        in case intersectNodePortRange cfg (Some policy) of
                             (Some p, True) \<Rightarrow>
                               (case (if rq_fails rq Q_GetPolicy then Inl (OtherError driver_error) else GetPolicy_edge (user_ID u) e1) of
                                  Inl _ \<Rightarrow> (Failure 500 ''read cached DPI policy failed'', s2)
                                | Inr dpi \<Rightarrow>
                                    (Reply \<lparr>rp_user = user_Username u, rp_token = token_Name t, rp_policy = p,
                                            rp_dpi = clientDPISummaryFromPolicy dpi, rp_frpServerAddr = cfg_FRPServerAddr cfg,
                                            rp_frpServerPort = cfg_FRPServerPort cfg, rp_frpTransportTLS = cfg_FRPTransportTLS cfg\<rparr>, s2))
                           | _ \<Rightarrow> (Rejection 200 ''rejected'' ''node and user port ranges do not overlap'', s2))))"

definition edge_proxy_error ::
  "Request_Env \<Rightarrow> Config \<Rightarrow> UserResourcePolicy \<Rightarrow> PortGrant list \<Rightarrow> int \<Rightarrow> string \<Rightarrow> EdgeStore \<Rightarrow> string list \<Rightarrow> string list
     \<Rightarrow> ProxyAllocationInput \<Rightarrow> string option" where
  "edge_proxy_error rq cfg policy grants tokenID clientID e names ports p =
     (if pin_ProxyName p = [] \<or> pin_LocalPort p \<le> 0 \<or> pin_LocalPort p > 65535 \<or>
         (pin_ProxyType p \<noteq> ''tcp'' \<and> pin_ProxyType p \<noteq> ''udp'') then Some ''invalid proxy''
      else if pin_ProxyName p \<in> set names then Some (''proxy name '' @ pin_ProxyName p @ '' is duplicated'')
      else if length (pin_ProxyName p) > 48 then Some ''proxy name must not exceed 48 bytes''
      else if \<not> protocolAllowed (pin_ProxyType p) (policy_AllowedProtocols policy) \<or>
              pin_RemotePort p < policy_PortStart policy \<or> pin_RemotePort p > policy_PortEnd policy
      then Some (''proxy '' @ pin_ProxyName p @ '' is outside policy'')
      else case validateNodeRemotePort cfg (pin_RemotePort p) of
             Some err \<Rightarrow> Some err
           | None \<Rightarrow>
               if port_key p \<in> set ports
               then Some (''remote port '' @ itoa (pin_RemotePort p) @ '' is duplicated in this request'')
               else if rq_fails rq Q_RemotePortInUse then Some driver_error
               else if RemotePortInUseExceptClient_edge (rq_jd rq) (rq_now rq) (pin_ProxyType p) (pin_RemotePort p) tokenID clientID e
               then Some (''remote port '' @ itoa (pin_RemotePort p) @ '' is already in use on this node'')
               else if grants \<noteq> [] \<and> \<not> matchesAnyGrant p grants
               then Some (''proxy '' @ pin_ProxyName p @ '' is not covered by token grants'')
               else None)"

definition validateEdgeProxies ::
  "Request_Env \<Rightarrow> Config \<Rightarrow> AccessToken \<Rightarrow> User \<Rightarrow> ProxyAllocationInput list \<Rightarrow> string \<Rightarrow> EdgeStore
     \<Rightarrow> string + ProxyAllocationInput list" where
  "validateEdgeProxies rq cfg t u input clientID e =
     (if input = [] then Inl ''at least one proxy is required''
      else case edge_policy_of rq (user_ID u) e of
             None \<Rightarrow> Inl edge_policy_reason
           | Some policy \<Rightarrow>
               if policy_MaxPorts policy > 0 \<and> int (length input) > policy_MaxPorts policy then Inl ''proxy count exceeds user limit''
               else if token_MaxProxyCount t > 0 \<and> int (length input) > token_MaxProxyCount t
               then Inl ''proxy count exceeds token limit''
               else (case intersectNodePortRange cfg (Some policy) of
                       (Some ports, True) \<Rightarrow>
                         if rq_fails rq Q_ListPortGrants then Inl (''read token grants: '' @ driver_error)
                         else check_proxies (edge_proxy_error rq cfg ports (Grants (token_ID t) e) (token_ID t) clientID e) [] [] input
                     | _ \<Rightarrow> Inl ''node and user port ranges do not overlap''))"

definition edge_lease ::
  "go_time \<Rightarrow> duration \<Rightarrow> string \<Rightarrow> string \<Rightarrow> AccessToken \<Rightarrow> User \<Rightarrow> string \<Rightarrow> RuntimeLease" where
  "edge_lease now ttl leaseID hash t u clientID =
     \<lparr>lease_ID = 0, lease_LeaseID = leaseID, lease_UserID = user_ID u, lease_TokenID = token_ID t,
      lease_ClientID = clientID, lease_RuntimeTokenHash = hash, lease_Status = ''active'', lease_ExpiresAt = now + ttl\<rparr>"

text \<open>The client id is looked up trimmed, while the lease is stored with the id of the request. The reply of an
  edge node has no server address, port and token prefix; they are empty here.\<close>

definition edgeClientBootstrap ::
  "Request_Env \<Rightarrow> string option \<Rightarrow> string option \<Rightarrow> clientBootstrapRequest option \<Rightarrow> 'e Server
     \<Rightarrow> bootstrap_reply reply \<times> 'e Server" where
  "edgeClientBootstrap rq rt lr body s =
     (if \<not> edgeOnlineForNewSessions s then (edgeDisconnected, s)
      else case body of
             None \<Rightarrow> (Failure 400 ''bad request'', s)
           | Some req \<Rightarrow>
               with_edge_client rq bootstrap_path False 200 (boot_AccessToken req) (boot_ClientID req) s
                 (\<lambda>t u c e s1.
                   if rq_fails rq Q_IsClientHeartbeatFresh \<or> \<not> ClientFresh (rq_now rq) (client_ID c) 60 e
                   then (Rejection 200 ''heartbeat_timeout'' ''client heartbeat timeout, please reconnect'', s1)
                   else case validateEdgeProxies rq (srv_cfg s1) t u (boot_Proxies req) (boot_ClientID req) e of
                          Inl err \<Rightarrow> (Rejection 200 ''rejected'' err, s1)
                        | Inr allocations \<Rightarrow>
                            (case (rt, lr) of
                               (Some rtb, Some lrb) \<Rightarrow>
                                 (let (runtimeToken, runtimeHash) = NewOpaqueToken ''rt_'' rtb;
                                      leaseID = fst (NewOpaqueToken ''lease_'' lrb);
                                      ttl = cfg_RuntimeTokenTTL (srv_cfg s1);
                                      lease = edge_lease (rq_now rq) ttl leaseID runtimeHash t u (boot_ClientID req)
                                  in if rq_fails rq Q_CreateRuntimeLease then (Failure 500 driver_error, s1)
                                     else case CreateLease lease allocations e of
                                            Inl _ \<Rightarrow> (Failure 500 driver_error, s1)
                                          | Inr (_, e1) \<Rightarrow>
                                              (Reply \<lparr>br_leaseID = leaseID, br_runtimeToken = runtimeToken,
                                                      br_expiresAt = rq_now rq + ttl, br_expiresIn = whole_seconds_of ttl,
                                                      br_allocations = allocations, br_frpServer = [], br_frpPort = 0, br_tokenPrefix = []\<rparr>,
                                               s1\<lparr>srv_edgeState := Some e1\<rparr>))
                             | _ \<Rightarrow> (Failure 500 ''random source failed'', s1))))"

section \<open>Presence\<close>

text \<open>The edge handlers do not trim the client id of a heartbeat before \<open>faultHeartbeat\<close>, which trims it itself.\<close>

definition edge_heartbeat_commands ::
  "Request_Env \<Rightarrow> clientHeartbeatRequest \<Rightarrow> Client \<Rightarrow> EdgeStore \<Rightarrow> 'e Server \<Rightarrow> heartbeat_reply reply \<times> 'e Server" where
  "edge_heartbeat_commands rq req c e s =
     (let (commands, e1) = (if rq_fails rq Q_PopCommands then ([], e) else PopClientCommands (client_ID c) e);
          s1 = s\<lparr>srv_edgeState := Some e1\<rparr>
      in if edgeOnlineForNewSessions s1 then (Reply (EdgeHeartbeatOk commands), s1)
         else if \<not> hb_FRPCRunning req then (edgeDisconnected, s1)
         else (let (show, e2) = (if rq_fails rq Q_DisconnectWarning then (False, e1) else DisconnectWarning (client_ID c) e1)
               in (Reply (EdgeHeartbeatOk (commands @ (if show then [(-1, ''show_warning'', edge_lost_message)] else []))),
                   s1\<lparr>srv_edgeState := Some e2\<rparr>)))"

definition edgeClientHeartbeat ::
  "Request_Env \<Rightarrow> clientHeartbeatRequest option \<Rightarrow> 'e Server \<Rightarrow> heartbeat_reply reply \<times> 'e Server" where
  "edgeClientHeartbeat rq body s =
     (case body of
        None \<Rightarrow> (Failure 400 ''bad request'', s)
      | Some req \<Rightarrow>
          (case faultHeartbeat rq req s of
             (Some r, s1) \<Rightarrow> (r, s1)
           | (None, s1) \<Rightarrow>
               if \<not> edgeOnlineForNewSessions s1 then (nodeFaultResponse, s1)
               else (case edgeCredential rq heartbeat_path (hb_AccessToken req) (hb_ClientID req) True s1 of
                       (Inl r, s2) \<Rightarrow>
                         (if (case srv_edgeState s2 of None \<Rightarrow> False | Some e \<Rightarrow> identityResetPending e)
                          then edgeDisconnected else reject_json 200 r, s2)
                     | (Inr (t, u, c), s2) \<Rightarrow>
                         (case srv_edgeState s2 of
                            None \<Rightarrow> (Failure 500 ''save client heartbeat failed'', s2)
                          | Some e \<Rightarrow>
                              if rq_fails rq Q_TouchClientHeartbeat then (Failure 500 ''save client heartbeat failed'', s2)
                              else edge_heartbeat_commands rq req c (TouchClient (rq_now rq) (client_ID c) (hb_FRPCRunning req) e) s2))))"

definition edgeClientCommandACK ::
  "Request_Env \<Rightarrow> int option \<Rightarrow> clientHeartbeatRequest option \<Rightarrow> 'e Server \<Rightarrow> int reply \<times> 'e Server" where
  "edgeClientCommandACK rq commandID body s =
     (case commandID of
        None \<Rightarrow> (Failure 400 ''invalid command id'', s)
      | Some cid \<Rightarrow>
          if cid \<le> 0 then (Failure 400 ''invalid command id'', s)
          else case body of
                 None \<Rightarrow> (Failure 400 ''bad request'', s)
               | Some req \<Rightarrow>
                   with_edge_client rq (''/api/v1/client/commands/'' @ itoa cid @ ''/ack'') False 200 (hb_AccessToken req) (hb_ClientID req) s
                     (\<lambda>t u c e s1.
                       if rq_fails rq Q_AcknowledgeCommand then (Failure 500 driver_error, s1)
                       else case AcknowledgeClientCommand_edge cid (client_ID c) e of
                              Inl err \<Rightarrow> (if err = EdgeNoRows then Failure 404 ''command not found'' else Failure 500 driver_error, s1)
                            | Inr (_, e1) \<Rightarrow> (Reply cid, s1\<lparr>srv_edgeState := Some e1\<rparr>)))"

definition edgeClientLogout ::
  "Request_Env \<Rightarrow> clientHeartbeatRequest option \<Rightarrow> 'e Server \<Rightarrow> (nat \<times> nat) reply \<times> 'e Server" where
  "edgeClientLogout rq body s =
     (case body of
        None \<Rightarrow> (Failure 400 ''bad request'', s)
      | Some req \<Rightarrow>
          with_edge_client rq logout_path False 200 (hb_AccessToken req) (hb_ClientID req) s
            (\<lambda>t u c e s1.
              if rq_fails rq Q_RevokeLeases then (Failure 500 ''revoke client runtime failed'', s1)
              else (let e1 = RevokeClient (token_ID t) (hb_ClientID req) e;
                        (deleted, e2) = (if rq_fails rq Q_DeleteCommands then (0, e1) else DeleteUnacknowledgedClientCommands (client_ID c) e1);
                        e3 = (if rq_fails rq Q_ClearPresence then e2 else ClearClient (client_ID c) e2);
                        (n, core) = TerminateConnectionsForClient (token_ID t) (hb_ClientID req) (srv_core s1)
                    in (Reply (n, deleted), s1\<lparr>srv_edgeState := Some e3, srv_core := core\<rparr>))))"

text \<open>The branch of \<open>releaseClientLease\<close> for a node with an edge store.\<close>

definition edgeReleaseClientLease ::
  "Request_Env \<Rightarrow> (string \<times> string \<times> string) option \<Rightarrow> 'e Server \<Rightarrow> bool reply \<times> 'e Server" where
  "edgeReleaseClientLease rq body s =
     (case body of
        None \<Rightarrow> (Failure 400 ''invalid request'', s)
      | Some (accessToken, rawClientID, leaseID) \<Rightarrow>
          (let clientID = TrimSpace rawClientID
           in if accessToken = [] \<or> clientID = [] \<or> leaseID = []
              then (Failure 400 ''access_token, client_id and lease_id are required'', s)
              else with_edge_client rq release_path False 403 accessToken clientID s
                     (\<lambda>t u c e s1.
                       if rq_fails rq Q_ReleaseRuntimeLease then (Failure 500 driver_error, s1)
                       else (let (released, e1) = ReleaseRuntimeLease_edge leaseID (token_ID t) clientID e;
                                 s2 = s1\<lparr>srv_edgeState := Some e1\<rparr>
                             in (Reply released,
                                 if released then s2\<lparr>srv_core := snd (TerminateConnectionsForLease leaseID (srv_core s2))\<rparr>
                                 else s2)))))"

section \<open>The frps plugin\<close>

text \<open>The text of an error of the edge store.\<close>

definition edge_error_text :: "edge_error \<Rightarrow> string" where
  "edge_error_text err =
     (case err of EdgeNoRows \<Rightarrow> ''sql: no rows in result set'' | EdgeError msg \<Rightarrow> msg | _ \<Rightarrow> driver_error)"

definition edgeRuntime :: "Request_Env \<Rightarrow> (string, string) go_map \<Rightarrow> EdgeStore \<Rightarrow> string + RuntimeLease" where
  "edgeRuntime rq metas e =
     (let token = map_get [] metas ''token''; leaseID = map_get [] metas ''lease_id''
      in if token = [] \<or> leaseID = [] then Inl ''missing runtime token or lease_id''
         else case (if rq_fails rq Q_GetRuntimeLease then None else RuntimeLease_edge (TokenHash token) e) of
                None \<Rightarrow> Inl ''invalid runtime token''
              | Some l \<Rightarrow>
                  if lease_LeaseID l \<noteq> leaseID then Inl ''invalid runtime token''
                  else if lease_Status l \<noteq> ''active'' \<or> time_after (rq_now rq) (lease_ExpiresAt l)
                  then Inl ''runtime lease expired or inactive''
                  else if rq_fails rq Q_GetUserByID then Inl driver_error
                  else case RuntimeAuthorized (rq_now rq) (lease_UserID l) (lease_TokenID l) e of
                         Some err \<Rightarrow> Inl (edge_error_text err)
                       | None \<Rightarrow>
                           if rq_fails rq Q_IsClientHeartbeatFresh \<or>
                              \<not> RuntimeClientFresh (rq_now rq) (lease_TokenID l) (lease_ClientID l) 60 e
                           then Inl ''client heartbeat timeout''
                           else Inr l)"

definition edge_new_proxy ::
  "Request_Env \<Rightarrow> frpNewProxyContent \<Rightarrow> EdgeStore \<Rightarrow> 'e Server \<Rightarrow> frpPluginResponse \<times> 'e Server" where
  "edge_new_proxy rq c e s =
     (case edgeRuntime rq (fui_Metas (np_User c)) e of
        Inl reason \<Rightarrow> (frpReject reason, s)
      | Inr l \<Rightarrow>
          if clientIsDraining s (lease_TokenID l) (lease_ClientID l) then (frpReject new_port_reason, s)
          else if rq_fails rq Q_GetLeaseAllocation \<or>
                  \<not> AllocationExists (lease_LeaseID l)
                      (stripFRPUserProxyPrefix (lease_UserID l) (np_ProxyName c) (lease_LeaseID l))
                      (normalizeProtocol (np_ProxyType c)) (np_RemotePort c) (first_value (np_CustomDomains c))
                      (TrimSpace (np_Subdomain c)) e
          then (frpReject ''proxy is not allocated by current lease'', s)
          else (frpAllow, s\<lparr>srv_core := BindProxy
                  \<lparr>pb_UserID = lease_UserID l, pb_TokenID = lease_TokenID l, pb_ClientID = lease_ClientID l,
                   pb_ClientAddr = [], pb_LeaseID = lease_LeaseID l, pb_ProxyName = np_ProxyName c,
                   pb_ProxyType = np_ProxyType c, pb_RemotePort = np_RemotePort c\<rparr> (srv_core s)\<rparr>))"

definition edgeFrpPlugin :: "Request_Env \<Rightarrow> frpPluginRequest option \<Rightarrow> 'e Server \<Rightarrow> frpPluginResponse \<times> 'e Server" where
  "edgeFrpPlugin rq body s =
     (case (srv_edgeState s, body) of
        (None, _) \<Rightarrow> (frpReject ''edge state unavailable'', s)
      | (Some _, None) \<Rightarrow> (frpReject ''bad plugin request'', s)
      | (Some e, Some req) \<Rightarrow>
          (case faultFRPPlugin req s of
             Some r \<Rightarrow> (r, s)
           | None \<Rightarrow>
               if fp_Op req = ''Login''
               then (case fp_AsLogin req of
                       None \<Rightarrow> (frpReject ''bad Login content'', s)
                     | Some c \<Rightarrow>
                         (case edgeRuntime rq (lc_Metas c) e of
                            Inl reason \<Rightarrow> (frpReject reason, s)
                          | Inr l \<Rightarrow> (frpAllow, rememberRuntime rq l s)))
               else if fp_Op req = ''NewProxy''
               then (case fp_AsNewProxy req of
                       None \<Rightarrow> (frpReject ''bad NewProxy content'', s)
                     | Some c \<Rightarrow> edge_new_proxy rq c e s)
               else if fp_Op req \<in> {''Ping'', ''NewWorkConn'', ''NewUserConn''}
               then (case edgeRuntime rq (fp_Metas req) e of
                       Inl reason \<Rightarrow> (frpReject reason, s)
                     | Inr _ \<Rightarrow> (frpAllow, s))
               else (frpAllow, s)))"

end
