(* ===== verification/Spec2Isabelle.thy ===== *)
theory Spec2Isabelle
  imports Connections Dpi_Service Store_Outbox Config Node_Runtime Identity_Liveness Edge_Handlers
begin

text \<open>
  \<^bold>\<open>MeowFRP server: a verification development.\<close>

  The program is a control plane for frp tunnels. A controller keeps users, access tokens, policies
  and leases in a database; edge nodes keep a cache of the identities they may serve in a local
  store and receive changes over a control stream. Every node embeds a modified frps; client
  logins, proxy registrations and user connections pass through hooks into the Go code under
  \<open>src/internal\<close>, which decides from leases, quotas, bans and traffic inspection what may happen.

  \<^bold>\<open>Vocabulary.\<close> \<open>Prelude\<close> models Go times (nanoseconds since the zero time), saturating durations,
  maps (association lists with distinct keys), SQL tables (row lists), transition systems and the
  locale of inductive invariants. \<open>Go_Strings\<close>, \<open>Go_Time\<close> and \<open>Go_Net\<close> model the functions of \<open>strings\<close>,
  \<open>strconv\<close>, \<open>time\<close> and \<open>net\<close> that the code calls, on byte strings. \<open>Sha256\<close> writes out SHA-256 and HMAC.

  \<^bold>\<open>Node runtime\<close> (\<open>internal/frpcore\<close>). \<open>Frp_Core\<close> has the record \<open>Manager\<close> and one definition per
  method of \<open>manager.go\<close> and \<open>admission.go\<close>. \<open>Admission\<close> models the reader/writer protocol of the
  admission lock as a step relation and shows that proxy counters are exact and that closing
  admission or draining a client is a fence. \<open>Connections\<close> shows that connection identifiers are
  unique, that the table of UDP flows is bounded, and that termination, bans and expiry do exactly
  what they promise.

  \<^bold>\<open>Traffic inspection\<close> (\<open>internal/dpiengine\<close>, \<open>internal/dpi\<close>). \<open>Dpi_Engine\<close> translates the HTTP, TLS
  and QUIC parsers with every index expression checked; \<open>Dpi_Parsers\<close> shows that none of them
  panics and that a server name is found in any fragmentation; \<open>Dpi_Heuristics\<close> gives the
  encrypted-tunnel heuristic its closed form; \<open>Dpi_Service\<close> shows when a policy blocks.

  \<^bold>\<open>Controller store\<close> (\<open>internal/db\<close>). \<open>Store\<close> has one definition per operation on lists of rows; the
  collation of the database is the parameter \<open>coll\<close>, its clock the parameter \<open>db_now\<close>. \<open>Store_Invariant\<close> and
  \<open>Store_Steps\<close> show that keys and references stay intact; \<open>Store_Outbox\<close> that every change of what a
  node should know of a user is announced in the outbox until the node confirms it.

  \<^bold>\<open>Configuration\<close> (\<open>internal/config\<close>, \<open>internal/httpapi/node_runtime.go\<close>). \<open>Config\<close> models loading,
  environment overrides, validation and saving; \<open>Node_Runtime\<close> the addresses and ports of a node.

  \<^bold>\<open>Credentials\<close> (\<open>internal/security\<close>). \<open>Security\<close> models opaque tokens and the signed browser token.

  \<^bold>\<open>Edge store\<close> (\<open>internal/edgestate\<close>). \<open>Edge_Store\<close> has one definition per operation; SQLite's
  \<open>julianday\<close> is the parameter \<open>jd\<close>. \<open>Edge_Steps\<close> shows the invariant of its tables, which leases a
  snapshot leaves active, and that a replayed disconnect command has no second effect.

  \<^bold>\<open>Identity synchronisation\<close> (\<open>internal/cluster\<close>). \<open>Cluster_Types\<close> has the wire types;
  \<open>Identity_Session\<close> the controller's session, its pushes and acknowledgements, and the node's
  receive loop and apply worker; the JSON encoding of a snapshot is the parameter \<open>enc\<close>.
  \<open>Edge_Identity\<close>, \<open>Identity_Rows\<close>, \<open>Identity_View\<close> and \<open>Identity_Push\<close> relate what the controller's store
  says of a user, the outbox row of the user, and what the node has cached.
\<close>

end
